(* ===== verification/Prelude.thy ===== *)
theory Prelude
  imports Main "HOL-Library.Word"
begin

text \<open>
  Shared vocabulary of the development: the machine types of the C++ sources, the
  little-endian and big-endian byte encodings every wire format and every SPI command is built
  from (with their round trips), the wrapping 32-bit clock comparison, buffer slices, and the
  generic lemmas the component theories use.  Lemmas that normalise wire encodings are collected
  in \<open>wire\<close>, the unfolding equations of constants of the source in \<open>const_vals\<close>, and the equations
  that read a field of a state after an operation in \<open>frame\<close>.
\<close>

unbundle bit_operations_syntax

named_theorems wire "byte-level encodings: lengths, round trips, indexing"
named_theorems const_vals "values of constants of the source"
named_theorems frame "fields an operation leaves alone"

section \<open>Machine types\<close>

text \<open>Signed types share the word of their width and are read with \<^const>\<open>sint\<close>.\<close>

type_synonym u8 = "8 word"
type_synonym u16 = "16 word"
type_synonym u32 = "32 word"
type_synonym u64 = "64 word"
type_synonym i8 = "8 word"
type_synonym i16 = "16 word"
type_synonym bytes = "u8 list"

section \<open>Bytes of a word\<close>

text \<open>\<open>byte_of n w\<close> is the C++ expression \<open>static_cast<uint8_t>((w >> 8*n) & 0xFF)\<close>.\<close>

definition byte_of :: "nat \<Rightarrow> 'a::len word \<Rightarrow> u8" where
  "byte_of n w = ucast (drop_bit (8 * n) w AND 0xFF)"

lemma ff_mask: "(0xFF :: 'a::len word) = mask 8"
  by (simp add: mask_eq_exp_minus_1)

lemma bit_byte_of [wire]: "bit (byte_of k (w::'a::len word)) n \<longleftrightarrow> n < 8 \<and> bit w (8 * k + n)"
proof -
  have "n < LENGTH('a)" if "bit w (8 * k + n)"
    using bit_imp_le_length [OF that] by simp
  then show ?thesis
    unfolding byte_of_def ff_mask by (auto simp: bit_simps ac_simps)
qed

definition le16 :: "u16 \<Rightarrow> bytes" where
  "le16 w = [byte_of 0 w, byte_of 1 w]"

definition le32 :: "u32 \<Rightarrow> bytes" where
  "le32 w = [byte_of 0 w, byte_of 1 w, byte_of 2 w, byte_of 3 w]"

definition be16 :: "u16 \<Rightarrow> bytes" where
  "be16 w = [byte_of 1 w, byte_of 0 w]"

definition be24 :: "u32 \<Rightarrow> bytes" where
  "be24 w = [byte_of 2 w, byte_of 1 w, byte_of 0 w]"

definition be32 :: "u32 \<Rightarrow> bytes" where
  "be32 w = [byte_of 3 w, byte_of 2 w, byte_of 1 w, byte_of 0 w]"

text \<open>
  \<open>un16 lo hi\<close> and \<open>un32 b0 b1 b2 b3\<close> assemble a value from its bytes, least significant first:
  \<open>b0 | b1 << 8 | b2 << 16 | b3 << 24\<close>.
\<close>

definition un16 :: "u8 \<Rightarrow> u8 \<Rightarrow> u16" where
  "un16 lo hi = ucast lo OR push_bit 8 (ucast hi)"

definition un32 :: "u8 \<Rightarrow> u8 \<Rightarrow> u8 \<Rightarrow> u8 \<Rightarrow> u32" where
  "un32 b0 b1 b2 b3 = ucast b0 OR push_bit 8 (ucast b1) OR push_bit 16 (ucast b2) OR push_bit 24 (ucast b3)"

lemma bit_un16: "bit (un16 lo hi) n \<longleftrightarrow> (if n < 8 then bit lo n else bit hi (n - 8))"
  by (auto simp: un16_def bit_simps dest: bit_imp_le_length)

lemma bit_un32:
  "bit (un32 b0 b1 b2 b3) n \<longleftrightarrow>
     (if n < 8 then bit b0 n else if n < 16 then bit b1 (n - 8)
      else if n < 24 then bit b2 (n - 16) else bit b3 (n - 24))"
  by (auto simp: un32_def bit_simps dest: bit_imp_le_length)

lemma un16_bytes [simp, wire]: "un16 (byte_of 0 w) (byte_of (Suc 0) w) = w"
  by (rule bit_word_eqI) (auto simp: bit_un16 bit_byte_of)

lemma un32_bytes [simp, wire]: "un32 (byte_of 0 w) (byte_of (Suc 0) w) (byte_of 2 w) (byte_of 3 w) = w"
  by (rule bit_word_eqI) (auto simp: bit_un32 bit_byte_of)

lemma byte_of_un16 [simp, wire]: "byte_of 0 (un16 a b) = a" "byte_of (Suc 0) (un16 a b) = b"
  by (rule bit_word_eqI, simp add: bit_un16 bit_byte_of)+

lemma byte_of_un32 [simp, wire]:
  "byte_of 0 (un32 a b c d) = a" "byte_of (Suc 0) (un32 a b c d) = b"
  "byte_of 2 (un32 a b c d) = c" "byte_of 3 (un32 a b c d) = d"
  by (rule bit_word_eqI, simp add: bit_un32 bit_byte_of)+

lemma length_encodings [simp, wire]:
  "length (le16 w) = 2" "length (le32 v) = 4" "length (be16 w) = 2" "length (be24 v) = 3"
  "length (be32 v) = 4"
  by (simp_all add: le16_def le32_def be16_def be24_def be32_def)

text \<open>Reading an encoding back from a byte list at a fixed offset.\<close>

definition rd16 :: "bytes \<Rightarrow> nat \<Rightarrow> u16" where
  "rd16 bs i = un16 (bs ! i) (bs ! (i + 1))"

definition rd32 :: "bytes \<Rightarrow> nat \<Rightarrow> u32" where
  "rd32 bs i = un32 (bs ! i) (bs ! (i + 1)) (bs ! (i + 2)) (bs ! (i + 3))"

lemma rd16_le16 [simp, wire]: "rd16 (le16 w @ r) 0 = w"
  by (simp add: rd16_def le16_def)

lemma rd32_le32 [simp, wire]: "rd32 (le32 w @ r) 0 = w"
  by (simp add: rd32_def le32_def numeral_2_eq_2 numeral_3_eq_3) (simp add: flip: numeral_2_eq_2 numeral_3_eq_3)

lemma rd16_append [simp, wire]: "rd16 (p @ bs) (length p + i) = rd16 bs i"
  by (simp add: rd16_def nth_append)

lemma rd32_append [simp, wire]: "rd32 (p @ bs) (length p + i) = rd32 bs i"
  by (simp add: rd32_def nth_append)

lemma xor_cancel [simp]: "x XOR a = x XOR b \<longleftrightarrow> a = b" "a XOR x = b XOR x \<longleftrightarrow> a = b"
  for x a b :: "'a::len word"
proof -
  show l: "x XOR a = x XOR b \<longleftrightarrow> a = b"
  proof
    assume "x XOR a = x XOR b"
    then have "x XOR (x XOR a) = x XOR (x XOR b)" by simp
    then show "a = b" by (simp flip: xor.assoc)
  qed simp
  then show "a XOR x = b XOR x \<longleftrightarrow> a = b" by (simp add: xor.commute [of _ x])
qed

lemma un32_inj: "un32 a b c d = un32 a' b' c' d' \<longleftrightarrow> a = a' \<and> b = b' \<and> c = c' \<and> d = d'"
proof
  assume eq: "un32 a b c d = un32 a' b' c' d'"
  show "a = a' \<and> b = b' \<and> c = c' \<and> d = d'"
    using arg_cong [OF eq, of "byte_of 0"] arg_cong [OF eq, of "byte_of 1"]
      arg_cong [OF eq, of "byte_of 2"] arg_cong [OF eq, of "byte_of 3"] by simp
qed simp

section \<open>Partial steps\<close>

text \<open>A partial step that has a result.\<close>

definition runs :: "'a option \<Rightarrow> bool" where
  "runs m \<longleftrightarrow> m \<noteq> None"

lemma runs_Some [simp, intro]: "runs (Some x)"
  by (simp add: runs_def)

lemma runs_bind [intro]: "runs m \<Longrightarrow> (\<And>x. m = Some x \<Longrightarrow> runs (f x)) \<Longrightarrow> runs (Option.bind m f)"
  by (cases m) (auto simp: runs_def)

lemma runsE: "runs m \<Longrightarrow> (\<And>x. m = Some x \<Longrightarrow> P) \<Longrightarrow> P"
  by (auto simp: runs_def)

text \<open>\<open>yields P m\<close>: if the computation returns, its result satisfies \<open>P\<close> (partial correctness).\<close>

definition yields :: "('a \<Rightarrow> bool) \<Rightarrow> 'a option \<Rightarrow> bool" where
  "yields P m \<longleftrightarrow> (\<forall>x. m = Some x \<longrightarrow> P x)"

lemma yields_simps [simp]: "yields P (Some x) = P x" "yields P None"
  by (simp_all add: yields_def)

lemma yields_bind: "yields Q m \<Longrightarrow> (\<And>x. Q x \<Longrightarrow> yields P (f x)) \<Longrightarrow> yields P (Option.bind m f)"
  by (cases m) (auto simp: yields_def)

lemma yields_mono: "yields Q m \<Longrightarrow> (\<And>x. Q x \<Longrightarrow> P x) \<Longrightarrow> yields P m"
  by (simp add: yields_def)

lemma yieldsD: "yields P m \<Longrightarrow> m = Some x \<Longrightarrow> P x"
  by (simp add: yields_def)

section \<open>Characters as bytes\<close>

text \<open>The byte of a character literal of the sources.\<close>

definition ch :: "char \<Rightarrow> u8" where
  "ch c = of_nat (of_char c)"

lemma ch_simps [simp]:
  "ch (CHR ''T'') = 0x54" "ch (CHR ''X'') = 0x58" "ch (CHR ''W'') = 0x57" "ch (CHR ''C'') = 0x43"
  "ch (CHR ''S'') = 0x53" "ch (CHR ''Q'') = 0x51" "ch (CHR ''G'') = 0x47" "ch (CHR ''E'') = 0x45"
  "ch (CHR ''R'') = 0x52" "ch (CHR ''D'') = 0x44"
  by (simp_all add: ch_def)

text \<open>The bytes of a C string up to its terminator.\<close>

definition c_str :: "string \<Rightarrow> bytes" where
  "c_str t = map ch (takeWhile (\<lambda>c. c \<noteq> CHR 0x00) t)"

section \<open>Wrapping time comparison\<close>

text \<open>
  The sources compare 32-bit millisecond clocks by the sign of the wrapped difference,
  \<open>static_cast<int32_t>(now - deadline) < 0\<close>: \<open>now\<close> is before the deadline when the difference
  is negative in two's complement.
\<close>

definition before :: "u32 \<Rightarrow> u32 \<Rightarrow> bool" where
  "before now deadline \<longleftrightarrow> sint (now - deadline) < 0"

lemma unat8_less: "unat (w :: u8) < 256"
  using unsigned_less [of w] by simp

lemma unat16_less: "unat (w :: u16) < 65536"
  using unsigned_less [of w] by simp

lemma unat32_less: "unat (w :: u32) < 4294967296"
  using unsigned_less [of w] by simp

lemma unat_len8 [simp]: "n < 256 \<Longrightarrow> unat (of_nat n :: u8) = n"
  by (simp add: unat_of_nat)

lemma unat_len16 [simp]: "n < 65536 \<Longrightarrow> unat (of_nat n :: u16) = n"
  by (simp add: unat_of_nat)

lemma sint_neg_iff: "sint (w :: u32) < 0 \<longleftrightarrow> 2 ^ 31 \<le> unat w"
proof -
  have "sint w < 0 \<longleftrightarrow> bit w 31"
    using bit_last_iff [of w] by simp
  also have "\<dots> \<longleftrightarrow> odd (unat w div 2 ^ 31)"
  proof -
    have "bit (unat w) 31 = bit w 31" by (simp add: bit_unsigned_iff)
    then show ?thesis by (simp add: bit_iff_odd [of "unat w"])
  qed
  also have "\<dots> \<longleftrightarrow> 2 ^ 31 \<le> unat w"
  proof (cases "2 ^ 31 \<le> unat w")
    case True
    with unat32_less [of w] have "unat w div 2 ^ 31 = 1"
      by (intro div_nat_eqI) simp_all
    with True show ?thesis by simp
  qed simp
  finally show ?thesis .
qed

text \<open>With no wrap in sight the comparison is the ordinary one.\<close>

lemma before_iff_unat: "before now deadline \<longleftrightarrow> 2 ^ 31 \<le> unat (now - deadline)"
  by (simp add: before_def sint_neg_iff)

lemma before_refl [simp]: "\<not> before t t"
  by (simp add: before_def)

section \<open>Buffers\<close>

text \<open>
  A C buffer is a byte list of its allocated size.  \<open>memcpy\<close>-style reads and writes that would
  leave the buffer are undefined behaviour in C++ and are \<^const>\<open>None\<close> here.
\<close>

definition rd_slice :: "nat \<Rightarrow> nat \<Rightarrow> bytes \<Rightarrow> bytes option" where
  "rd_slice off n b = (if off + n \<le> length b then Some (take n (drop off b)) else None)"

definition wr_slice :: "nat \<Rightarrow> bytes \<Rightarrow> bytes \<Rightarrow> bytes option" where
  "wr_slice off src dst =
     (if off + length src \<le> length dst
      then Some (take off dst @ src @ drop (off + length src) dst) else None)"

lemma wr_slice_length: "wr_slice off src dst = Some d \<Longrightarrow> length d = length dst"
  by (auto simp: wr_slice_def split: if_splits)

text \<open>Splitting a list into chunks of \<open>n\<close> and joining them again.\<close>

definition chunk :: "nat \<Rightarrow> nat \<Rightarrow> 'a list \<Rightarrow> 'a list" where
  "chunk n i xs = take n (drop (i * n) xs)"

lemma concat_chunks: "concat (map (\<lambda>i. chunk n i xs) [0..<k]) = take (k * n) xs"
proof (induction k)
  case (Suc k)
  then show ?case
    by (simp add: chunk_def take_add [symmetric] add.commute)
qed simp

text \<open>The same with every chunk padded to full length: only padding follows the list.\<close>

lemma concat_padded_chunks:
  "concat (map (\<lambda>i. chunk m i xs @ replicate (m - length (chunk m i xs)) z) [0..<k])
     = take (k * m) xs @ replicate (k * m - length xs) z"
proof (induction k)
  case (Suc k)
  show ?case
  proof (cases "k * m \<le> length xs")
    case True
    moreover have "m - min (length xs - k * m) m = m + k * m - length xs"
      using True by (simp add: min_def)
    ultimately show ?thesis
      using Suc by (simp add: chunk_def take_add [symmetric] add.commute [of m] min.commute)
  next
    case False
    then show ?thesis
      using Suc by (simp add: chunk_def replicate_add [symmetric])
  qed
qed simp

end
