(* ===== verification/Stats.thy ===== *)
theory Stats
  imports Prelude
begin

text \<open>
  The 68-byte body of the 'S' frame, service/src/stats.hpp: the packed counters and their
  serialisation.  The lemmas fix the wire layout (the offset of every field) the host relies on.
\<close>

record counters =
  bursts_tx :: u32
  bursts_rx :: u32
  packets_tx :: u32
  packets_rx :: u32
  crc_errors :: u32
  host_tx_dropped :: u32
  burst_mode :: u8
  zero_25 :: u8
  pending_tx_valid :: u8
  restart_rx_pending :: u8
  zero_28 :: u8
  pad0 :: u8
  pad1 :: u8
  pad2 :: u8
  uptime_ms :: u32
  uart_ring_drops :: u32
  staging_overwrites :: u32
  burst_id_conflicts :: u32
  hw_received_packets :: u32
  hw_crc_errors :: u32
  hw_length_errors :: u32
  hw_crc_ok :: u32
  parser_frames_killed :: u32

text \<open>The value-initialised struct \<open>Counters{}\<close>.\<close>

definition counters0 :: counters where
  "counters0 = \<lparr>bursts_tx = 0, bursts_rx = 0, packets_tx = 0, packets_rx = 0, crc_errors = 0,
     host_tx_dropped = 0, burst_mode = 0, zero_25 = 0, pending_tx_valid = 0, restart_rx_pending = 0,
     zero_28 = 0, pad0 = 0, pad1 = 0, pad2 = 0, uptime_ms = 0, uart_ring_drops = 0,
     staging_overwrites = 0, burst_id_conflicts = 0, hw_received_packets = 0, hw_crc_errors = 0,
     hw_length_errors = 0, hw_crc_ok = 0, parser_frames_killed = 0\<rparr>"

text \<open>\<open>serialize\<close> copies the object representation: little-endian, no padding the struct does not name.\<close>

definition serialize :: "counters \<Rightarrow> bytes" where
  "serialize c = le32 (bursts_tx c) @ le32 (bursts_rx c) @ le32 (packets_tx c) @ le32 (packets_rx c)
     @ le32 (crc_errors c) @ le32 (host_tx_dropped c)
     @ [burst_mode c, zero_25 c, pending_tx_valid c, restart_rx_pending c, zero_28 c, pad0 c, pad1 c, pad2 c]
     @ le32 (uptime_ms c) @ le32 (uart_ring_drops c) @ le32 (staging_overwrites c)
     @ le32 (burst_id_conflicts c) @ le32 (hw_received_packets c) @ le32 (hw_crc_errors c)
     @ le32 (hw_length_errors c) @ le32 (hw_crc_ok c) @ le32 (parser_frames_killed c)"

lemma length_serialize [simp, wire]: "length (serialize c) = 68"
  by (simp add: serialize_def)

text \<open>
  C12: the wire layout of the stats body.  The body is exactly 68 bytes and every counter is read back
  from the offset the host contract gives it (docs/protocol.md section 2): the 32-bit counters
  little-endian at 0, 4, 8, 12, 16, 20 and 32 to 64, the mode and pending flags as bytes 24, 26, 27.
\<close>

theorem serialize_layout:
  "length (serialize c) = 68
   \<and> rd32 (serialize c) 0 = bursts_tx c \<and> rd32 (serialize c) 4 = bursts_rx c
   \<and> rd32 (serialize c) 8 = packets_tx c \<and> rd32 (serialize c) 12 = packets_rx c
   \<and> rd32 (serialize c) 16 = crc_errors c \<and> rd32 (serialize c) 20 = host_tx_dropped c
   \<and> serialize c ! 24 = burst_mode c \<and> serialize c ! 26 = pending_tx_valid c
   \<and> serialize c ! 27 = restart_rx_pending c \<and> rd32 (serialize c) 32 = uptime_ms c
   \<and> rd32 (serialize c) 36 = uart_ring_drops c \<and> rd32 (serialize c) 40 = staging_overwrites c
   \<and> rd32 (serialize c) 44 = burst_id_conflicts c \<and> rd32 (serialize c) 48 = hw_received_packets c
   \<and> rd32 (serialize c) 52 = hw_crc_errors c \<and> rd32 (serialize c) 56 = hw_length_errors c
   \<and> rd32 (serialize c) 60 = hw_crc_ok c \<and> rd32 (serialize c) 64 = parser_frames_killed c"
  by (simp add: serialize_def rd32_def le32_def)

end
