(* ===== verification/WorkerTypes.thy ===== *)
theory WorkerTypes
  imports Stats
begin

text \<open>
  The plain data types of service/src/radio_worker.hpp that the worker and the serial server
  exchange: TX terminals, radio configuration and scan parameters, and the upward callbacks as
  events (the callbacks only hand data to the serial server, so a call is modelled by the event
  it delivers, in call order).
\<close>

datatype terminal = kOk | kBusy | kFailed | kDropped

fun terminal_code :: "terminal \<Rightarrow> u8" where
  "terminal_code kOk = 0"
| "terminal_code kBusy = 4"
| "terminal_code kFailed = 5"
| "terminal_code kDropped = 6"

record config =
  frequency_hz :: u32
  tx_power_dbm :: i8
  role :: u8

definition config0 :: config where
  "config0 = \<lparr>frequency_hz = 915000000, tx_power_dbm = 10, role = 0\<rparr>"

record scan_params =
  start_hz :: u32
  step_hz :: u32
  scan_ch_count :: u8
  dwell_ms :: u32

definition scan_params0 :: scan_params where
  "scan_params0 = \<lparr>start_hz = 902000000, step_hz = 1000000, scan_ch_count = 27, dwell_ms = 300\<rparr>"

datatype callback =
    OnRx bytes i16
  | OnTerminal terminal
  | OnScan u32 u32 u32 i8

end
