(* ===== verification/Burst.thy ===== *)
theory Burst
  imports Prelude
begin

text \<open>
  The on-air burst protocol, service/src/burst.hpp: the IEEE CRC32, the 16-byte packed packet
  header, packet encoding with zero padding, header validation of received packets and the
  consensus-prefix test of the scan counter.  Lemmas: the CRC step is linear and injective, so
  every corruption confined to four consecutive bytes changes the checksum; encoding stays inside
  its buffers; decoding inverts encoding; the chunks of a burst put back together are the payload.
\<close>

section \<open>Constants\<close>

definition kMagic :: u16 where [const_vals]: "kMagic = 0x4642"
definition kMaxTotalPayload :: u32 where [const_vals]: "kMaxTotalPayload = 24576"
definition kPacketPayload :: u16 where [const_vals]: "kPacketPayload = 511"
definition kChunk :: u16 where [const_vals]: "kChunk = kPacketPayload - 16"
definition kMaxPackets :: u16 where [const_vals]: "kMaxPackets = 50"
definition kMaxAirPacketsAlt :: u16 where [const_vals]: "kMaxAirPacketsAlt = 105"
definition kHeaderLen :: nat where [const_vals]: "kHeaderLen = 16"

section \<open>CRC32\<close>

definition crc32_bit :: "u32 \<Rightarrow> u32" where
  "crc32_bit crc = drop_bit 1 crc XOR (0xEDB88320 AND (0 - (crc AND 1)))"

definition crc32_byte :: "u32 \<Rightarrow> u8 \<Rightarrow> u32" where
  "crc32_byte crc b = (crc32_bit ^^ 8) (crc XOR ucast b)"

definition crc32 :: "bytes \<Rightarrow> u32" where
  "crc32 data = (if data = [] then 0 else NOT (foldl crc32_byte 0xFFFFFFFF data))"

section \<open>Packets\<close>

record header =
  h_magic :: u16
  h_burst_id :: u16
  h_packet_idx :: u16
  h_total_packets :: u16
  h_total_payload_len :: u32
  h_payload_crc32 :: u32

text \<open>The packed little-endian layout of the struct, as \<open>memcpy\<close> moves it to and from a buffer.\<close>

definition header_bytes :: "header \<Rightarrow> bytes" where
  "header_bytes h = le16 (h_magic h) @ le16 (h_burst_id h) @ le16 (h_packet_idx h)
     @ le16 (h_total_packets h) @ le32 (h_total_payload_len h) @ le32 (h_payload_crc32 h)"

definition header_of_bytes :: "bytes \<Rightarrow> header" where
  "header_of_bytes p = \<lparr>h_magic = rd16 p 0, h_burst_id = rd16 p 2, h_packet_idx = rd16 p 4,
     h_total_packets = rd16 p 6, h_total_payload_len = rd32 p 8, h_payload_crc32 = rd32 p 12\<rparr>"

text \<open>
  \<open>encode_packet\<close> writes into the caller's buffer \<open>out\<close>.  The result is the buffer and the packet
  length, or \<^const>\<open>None\<close> where one of its \<open>memcpy\<close>/\<open>memset\<close> calls leaves a buffer.
\<close>

definition encode_packet ::
  "bytes \<Rightarrow> u16 \<Rightarrow> u16 \<Rightarrow> u16 \<Rightarrow> bytes \<Rightarrow> u32 \<Rightarrow> u32 \<Rightarrow> (bytes \<times> nat) option" where
  "encode_packet out burst_id idx n_total payload total_len payload_crc =
     (let h = \<lparr>h_magic = kMagic, h_burst_id = burst_id, h_packet_idx = idx, h_total_packets = n_total,
               h_total_payload_len = total_len, h_payload_crc32 = payload_crc\<rparr>;
          off = ucast idx * ucast kChunk;
          take0 = total_len - off;
          tk = (if take0 > ucast kChunk then ucast kChunk else take0)
      in Option.bind (wr_slice 0 (header_bytes h) out) (\<lambda>out1.
         Option.bind (rd_slice (unat off) (unat tk) payload) (\<lambda>src.
         Option.bind (wr_slice kHeaderLen src out1) (\<lambda>out2.
         Option.bind
           (if kHeaderLen + unat tk < unat kPacketPayload
            then wr_slice (kHeaderLen + unat tk)
                   (replicate (unat kPacketPayload - kHeaderLen - unat tk) 0) out2
            else Some out2) (\<lambda>out3.
         Some (out3, unat kPacketPayload))))))"

text \<open>The overload that computes the CRC of the whole payload itself.\<close>

definition encode_packet_crc ::
  "bytes \<Rightarrow> u16 \<Rightarrow> u16 \<Rightarrow> u16 \<Rightarrow> bytes \<Rightarrow> u32 \<Rightarrow> (bytes \<times> nat) option" where
  "encode_packet_crc out burst_id idx n_total payload total_len =
     Option.bind (rd_slice 0 (unat total_len) payload) (\<lambda>whole.
       encode_packet out burst_id idx n_total payload total_len (crc32 whole))"

text \<open>
  \<open>decode_header pkt h\<close> is the returned flag and the contents of \<open>*h\<close> afterwards: the header is
  copied out before it is validated.
\<close>

definition decode_header :: "bytes \<Rightarrow> header \<Rightarrow> bool \<times> header" where
  "decode_header pkt h =
     (if length pkt < kHeaderLen then (False, h)
      else let h' = header_of_bytes pkt in
        if h_magic h' \<noteq> kMagic then (False, h')
        else if h_total_packets h' = 0 \<or> h_total_packets h' > kMaxAirPacketsAlt then (False, h')
        else if h_total_payload_len h' = 0 \<or> h_total_payload_len h' > kMaxTotalPayload then (False, h')
        else if h_packet_idx h' \<ge> h_total_packets h' then (False, h')
        else (True, h'))"

definition is_consensus_prefix :: "bytes \<Rightarrow> bool" where
  "is_consensus_prefix p =
     (if length p \<ge> 4 \<and> p ! 0 = 0x53 \<and> p ! 1 = 0x4C \<and> p ! 2 = 0x52 \<and> p ! 3 = 0x46 then True
      else if length p \<ge> 2 \<and> p ! 0 = 0x42 \<and> p ! 1 = 0x46 then True
      else False)"

section \<open>The CRC step is linear and injective\<close>

lemma crc32_bit_alt:
  "crc32_bit c = drop_bit 1 c XOR (if bit c 0 then 0xEDB88320 else 0)"
proof (cases "bit c 0")
  case True
  then have "c AND 1 = 1"
    by (simp add: and_one_eq bit_0 odd_iff_mod_2_eq_one)
  with True show ?thesis by (simp add: crc32_bit_def)
next
  case False
  then have "c AND 1 = 0"
    by (simp add: and_one_eq bit_0 even_iff_mod_2_eq_zero)
  with False show ?thesis by (simp add: crc32_bit_def)
qed

lemma crc32_bit_xor: "crc32_bit (x XOR y) = crc32_bit x XOR crc32_bit y"
  by (rule bit_word_eqI) (auto simp: crc32_bit_alt bit_simps)

lemma crc32_bit_inj: "crc32_bit x = 0 \<Longrightarrow> x = 0"
proof -
  assume z: "crc32_bit x = 0"
  have "bit (crc32_bit x) 31 = bit x 0"
    by (auto simp: crc32_bit_alt bit_simps dest: bit_imp_le_length)
  with z have b0: "\<not> bit x 0" by simp
  have "\<not> bit x n" for n
  proof (cases n)
    case (Suc m)
    have "bit (crc32_bit x) m = bit x (Suc m)"
      using b0 by (simp add: crc32_bit_alt bit_simps)
    with z Suc show ?thesis by simp
  qed (use b0 in simp)
  then show "x = 0" by (simp add: bit_eq_iff)
qed

lemma funpow_crc32_xor: "(crc32_bit ^^ n) (x XOR y) = (crc32_bit ^^ n) x XOR (crc32_bit ^^ n) y"
  by (induction n arbitrary: x y) (simp_all add: crc32_bit_xor)

lemma funpow_crc32_zero: "(crc32_bit ^^ n) x = 0 \<Longrightarrow> x = 0"
  by (induction n arbitrary: x) (auto dest: crc32_bit_inj)

lemma funpow_crc32_inj: "(crc32_bit ^^ n) x = (crc32_bit ^^ n) y \<longleftrightarrow> x = y"
proof
  assume "(crc32_bit ^^ n) x = (crc32_bit ^^ n) y"
  then have "(crc32_bit ^^ n) (x XOR y) = 0"
    by (simp add: funpow_crc32_xor)
  then have "x XOR y = x XOR x" using funpow_crc32_zero by simp
  then show "x = y" by (simp only: xor_cancel)
qed simp

lemma crc32_bit_push:
  assumes "0 < k" and "\<And>m. bit y m \<Longrightarrow> m + k < 32"
  shows "crc32_bit (push_bit k y) = push_bit (k - 1) y"
proof (rule bit_word_eqI)
  fix n assume "n < LENGTH(32)"
  moreover have "\<not> bit (push_bit k y) 0" using assms(1) by (simp add: bit_simps)
  ultimately show "bit (crc32_bit (push_bit k y)) n = bit (push_bit (k - 1) y) n"
    using assms(1) assms(2) [of "Suc n - k"]
    by (cases "k \<le> Suc n") (auto simp: crc32_bit_alt bit_simps Suc_diff_le dest: bit_imp_le_length)
qed

lemma funpow_crc32_push:
  "(\<And>m. bit y m \<Longrightarrow> m + n < 32) \<Longrightarrow> (crc32_bit ^^ n) (push_bit n y) = y"
proof (induction n)
  case (Suc n)
  have "crc32_bit (push_bit (Suc n) y) = push_bit n y"
    using Suc.prems crc32_bit_push [of "Suc n" y] by (simp del: push_bit_Suc)
  moreover have "(crc32_bit ^^ n) (push_bit n y) = y"
    using Suc.prems by (intro Suc.IH) fastforce
  ultimately show ?case by (simp add: funpow_swap1 del: push_bit_Suc)
qed simp

text \<open>Feeding a byte after \<open>8*k\<close> bit steps is the same as adding it \<open>8*k\<close> bits higher up before them.\<close>

lemma crc32_byte_merge:
  assumes "k < 4"
  shows "crc32_byte ((crc32_bit ^^ (8 * k)) x) b
           = (crc32_bit ^^ (8 * k + 8)) (x XOR push_bit (8 * k) (ucast b))"
proof -
  have "m + 8 * k < 32" if "bit (ucast b :: u32) m" for m
    using that assms by (auto simp: bit_simps dest: bit_imp_le_length)
  then have "(crc32_bit ^^ (8 * k)) (push_bit (8 * k) (ucast b)) = ucast b"
    by (rule funpow_crc32_push)
  then show ?thesis
    by (simp add: crc32_byte_def funpow_crc32_xor funpow_add add.commute [of _ 8])
qed

lemma foldl_crc32_word:
  "foldl crc32_byte c [b0, b1, b2, b3] = (crc32_bit ^^ 32) (c XOR un32 b0 b1 b2 b3)"
proof -
  have "c XOR ucast b0 XOR push_bit 8 (ucast b1) XOR push_bit 16 (ucast b2) XOR push_bit 24 (ucast b3)
        = c XOR un32 b0 b1 b2 b3"
    by (rule bit_word_eqI) (auto simp: bit_un32 bit_simps dest: bit_imp_le_length)
  then show ?thesis
    using crc32_byte_merge [of 0 c b0] crc32_byte_merge [of 1 _ b1] crc32_byte_merge [of 2 _ b2]
      crc32_byte_merge [of 3 _ b3] by (simp add: xor.assoc)
qed

lemma crc32_byte_inj_state: "crc32_byte c b = crc32_byte c' b \<longleftrightarrow> c = c'"
  by (simp add: crc32_byte_def funpow_crc32_inj)

lemma foldl_crc32_inj: "foldl crc32_byte c bs = foldl crc32_byte c' bs \<longleftrightarrow> c = c'"
  by (induction bs arbitrary: c c') (simp_all add: crc32_byte_inj_state)

text \<open>
  C10: the burst CRC32 detects every error burst confined to four consecutive payload bytes (32
  bits): replacing four bytes of a payload by four different ones, wherever they are, always
  changes the checksum carried in the packet headers.
\<close>

theorem crc32_detects_burst_errors:
  assumes "length us = 4" and "length vs = 4" and "us \<noteq> vs"
  shows "crc32 (pre @ us @ post) \<noteq> crc32 (pre @ vs @ post)"
proof -
  obtain a b c d where us: "us = [a, b, c, d]"
    using assms(1) by (auto simp: numeral_eq_Suc length_Suc_conv)
  obtain a' b' c' d' where vs: "vs = [a', b', c', d']"
    using assms(2) by (auto simp: numeral_eq_Suc length_Suc_conv)
  let ?s = "foldl crc32_byte 0xFFFFFFFF pre"
  have "?s XOR un32 a b c d \<noteq> ?s XOR un32 a' b' c' d'"
    using assms(3) us vs by (simp add: un32_inj)
  then have "foldl crc32_byte ?s us \<noteq> foldl crc32_byte ?s vs"
    unfolding us vs foldl_crc32_word funpow_crc32_inj .
  then have "foldl crc32_byte ?s (us @ post) \<noteq> foldl crc32_byte ?s (vs @ post)"
    by (simp add: foldl_crc32_inj)
  then show ?thesis
    using us vs by (simp add: crc32_def)
qed

lemma crc32_detects_burst_errors_witness:
  "length [1, 2, 3, 4 :: u8] = 4 \<and> crc32 ([9] @ [1, 2, 3, 4] @ [7]) \<noteq> crc32 ([9] @ [1, 2, 3, 5] @ [7])"
  using crc32_detects_burst_errors [of "[1, 2, 3, 4]" "[1, 2, 3, 5]" "[9]" "[7]"] by simp

section \<open>Encoding and decoding packets\<close>

lemma length_header_bytes [simp, wire]: "length (header_bytes h) = 16"
  by (simp add: header_bytes_def)

lemma header_of_header_bytes [simp, wire]: "header_of_bytes (header_bytes h @ r) = h"
  by (simp add: header_of_bytes_def header_bytes_def rd16_def rd32_def le16_def le32_def)

lemma unat_consts [simp]:
  "unat kPacketPayload = 511" "unat kChunk = 495" "(ucast kChunk :: u32) = 495"
  by (simp_all add: kPacketPayload_def kChunk_def)

text \<open>The number of packets of a payload of \<open>len\<close> bytes, as \<open>transmitBurst\<close> computes it.\<close>

definition burst_total :: "nat \<Rightarrow> u16" where
  "burst_total len = of_nat ((len + unat kChunk - 1) div unat kChunk)"

lemma unat_burst_total: "len \<le> 24576 \<Longrightarrow> unat (burst_total len) = (len + 494) div 495"
  by (simp add: burst_total_def unat_of_nat)

lemma burst_total_le: "len \<le> 24576 \<Longrightarrow> unat (burst_total len) \<le> 50"
  by (simp add: unat_burst_total)

lemma burst_total_covers: "len \<le> 24576 \<Longrightarrow> i < unat (burst_total len) \<Longrightarrow> i * 495 < len"
  by (simp add: unat_burst_total)

text \<open>What \<open>encode_packet\<close> leaves in a full-size buffer: header, chunk, zeros up to 511 bytes.\<close>

definition air_packet :: "header \<Rightarrow> bytes \<Rightarrow> bytes" where
  "air_packet h c = header_bytes h @ c @ replicate (495 - length c) 0"

lemma encode_packet_eq:
  assumes "length out = 511" and "length payload = unat total_len"
    and "unat idx * 495 < length payload" and "length payload \<le> 24576"
  shows "encode_packet out bid idx n payload total_len crc =
    Some (air_packet \<lparr>h_magic = kMagic, h_burst_id = bid, h_packet_idx = idx, h_total_packets = n,
            h_total_payload_len = total_len, h_payload_crc32 = crc\<rparr> (chunk 495 (unat idx) payload), 511)"
proof -
  have off: "unat (ucast idx * 495 :: u32) = unat idx * 495"
    using assms by (simp add: unat_mult_lem [THEN iffD1] unat_word_ariths unsigned_ucast_eq take_bit_eq_mod)
  have le: "(ucast idx * 495 :: u32) \<le> total_len"
    using off assms by (simp add: word_le_nat_alt)
  have rem: "unat (total_len - ucast idx * 495) = length payload - unat idx * 495"
    using le off assms by (simp add: unat_sub)
  define tk where "tk = (if total_len - ucast idx * 495 > 495 then 495 else total_len - ucast idx * 495 :: u32)"
  have tk: "unat tk = length (chunk 495 (unat idx) payload)"
    using rem by (auto simp: tk_def chunk_def word_less_nat_alt)
  have src: "rd_slice (unat idx * 495) (unat tk) payload = Some (chunk 495 (unat idx) payload)"
    using assms tk by (auto simp: rd_slice_def chunk_def min_def)
  have "length (chunk 495 (unat idx) payload) \<le> 495" by (simp add: chunk_def)
  then show ?thesis
    using assms(1) src off tk
    unfolding encode_packet_def Let_def unat_consts tk_def [symmetric]
    by (simp add: wr_slice_def air_packet_def kHeaderLen_def)
qed

lemma decode_air_packet:
  assumes "h_magic h = kMagic" and "0 < h_total_packets h" and "h_total_packets h \<le> 105"
    and "0 < h_total_payload_len h" and "h_total_payload_len h \<le> 24576"
    and "h_packet_idx h < h_total_packets h"
  shows "decode_header (air_packet h c) h0 = (True, h)"
  using assms by (auto simp: decode_header_def air_packet_def const_vals)

text \<open>
  C9: encoding a burst and putting its packets back together.  For every payload of 1 to 24576
  bytes, every packet index below the packet count is encoded without leaving a buffer, into a full
  511-byte packet whatever the buffer held before; the receiver's header check accepts each packet
  and reads back the burst id, index, count, payload length and CRC; the packets' chunks, joined in
  order and cut to the announced length, are the payload; and there are at most 50 packets.
\<close>

theorem burst_roundtrip:
  fixes payload :: bytes and outs :: "nat \<Rightarrow> bytes"
  defines "n \<equiv> unat (burst_total (length payload))"
  assumes "payload \<noteq> []" and "length payload \<le> 24576" and "\<And>i. length (outs i) = 511"
  shows "\<exists>pkts. length pkts = n \<and> n \<le> 50
    \<and> (\<forall>i<n. encode_packet (outs i) bid (of_nat i) (burst_total (length payload)) payload
                (of_nat (length payload)) (crc32 payload) = Some (pkts ! i, 511)
           \<and> length (pkts ! i) = 511
           \<and> decode_header (pkts ! i) h0 = (True,
                \<lparr>h_magic = kMagic, h_burst_id = bid, h_packet_idx = of_nat i,
                 h_total_packets = burst_total (length payload),
                 h_total_payload_len = of_nat (length payload), h_payload_crc32 = crc32 payload\<rparr>))
    \<and> take (length payload) (concat (map (drop 16) pkts)) = payload"
proof -
  let ?h = "\<lambda>i. \<lparr>h_magic = kMagic, h_burst_id = bid, h_packet_idx = of_nat i,
                 h_total_packets = burst_total (length payload),
                 h_total_payload_len = of_nat (length payload), h_payload_crc32 = crc32 payload\<rparr>"
  let ?pkt = "\<lambda>i. air_packet (?h i) (chunk 495 i payload)"
  have n: "n = (length payload + 494) div 495" and n50: "n \<le> 50"
    using assms by (auto simp: n_def unat_burst_total)
  have n0: "0 < n"
    using \<open>payload \<noteq> []\<close> unfolding n by (cases payload) (simp_all add: div_greater_zero_iff)
  have enc: "encode_packet (outs i) bid (of_nat i) (burst_total (length payload)) payload
                (of_nat (length payload)) (crc32 payload) = Some (?pkt i, 511)" if "i < n" for i
  proof -
    have "unat (of_nat i :: u16) = i" using that n50 by (simp add: unat_of_nat)
    moreover have "i * 495 < length payload"
      using that assms burst_total_covers by (simp add: n_def)
    ultimately show ?thesis
      using assms by (simp add: encode_packet_eq unat_of_nat)
  qed
  have dec: "decode_header (?pkt i) h0 = (True, ?h i)" if "i < n" for i
    using that assms n50 n0 
    by (intro decode_air_packet)
       (simp_all add: n_def word_less_nat_alt word_le_nat_alt unat_of_nat)
  have len: "length (?pkt i) = 511" for i
    by (simp add: air_packet_def chunk_def)
  have body: "take (length payload) (concat (map (\<lambda>i. drop 16 (?pkt i)) [0..<n])) = payload"
  proof -
    have "drop 16 (?pkt i) = chunk 495 i payload @ replicate (495 - length (chunk 495 i payload)) 0" for i
      by (simp add: air_packet_def)
    moreover have "length payload \<le> n * 495" unfolding n by linarith
    ultimately show ?thesis by (simp add: concat_padded_chunks)
  qed
  show ?thesis
    using enc dec len body n50
    by (intro exI [of _ "map ?pkt [0..<n]"]) (simp add: comp_def)
qed

lemma burst_roundtrip_witness:
  "[1, 2, 3 :: u8] \<noteq> [] \<and> (\<exists>pkts. length pkts = unat (burst_total (length [1, 2, 3 :: u8])) \<and>
     take (length [1, 2, 3 :: u8]) (concat (map (drop 16) pkts)) = [1, 2, 3 :: u8])"
proof -
  have "length (replicate 511 (0 :: u8)) = 511" by simp
  then show ?thesis
    using burst_roundtrip [of "[1, 2, 3]" "\<lambda>_. replicate 511 0" 7 undefined] by auto
qed

end
