(* ===== verification/Worker.thy ===== *)
theory Worker
  imports Complex_Main WorkerTypes Burst "HOL-Library.Monad_Syntax"
begin

text \<open>
  The radio worker of service/src/radio_worker.cpp, first part: its state, the radio driver and
  operating-system calls it makes (the record \<open>api\<close>, over an arbitrary state of chip and board), radio
  start-up, RX arming, configuration, scanning, the TX queue and burst transmission.  The upward
  callbacks are appended to \<open>k_events\<close> in call order.  Operations with polling loops return
  \<^const>\<open>None\<close> when the fuel \<open>a_fuel\<close> runs out or a buffer would be left.
\<close>

section \<open>Calls to the driver and the board\<close>

text \<open>
  \<open>r_\<close> fields are methods of the radio object, returning RadioLib status codes; frequencies are
  passed in Hz (the code converts them to \<open>float\<close> MHz), the TCXO voltage in millivolts.
  \<open>r_rssi_raw\<close> is \<open>getPacketStatusFLRC\<close>, which reports the average RSSI as a 9-bit number of
  negative half-dBm; \<open>r_readData n\<close> returns the \<open>n\<close> bytes it wrote and its status.  \<open>a_state_file\<close> is
  the parsed /tmp/os_thermal_state (number of fields read, level, temperature, timestamp), if it can
  be opened; \<open>a_read_ts\<close> the result of reading /dev/ts.
\<close>

record 'e api =
  a_clock :: "'e \<Rightarrow> (nat \<times> nat) \<times> 'e"
  a_nanosleep :: "nat \<Rightarrow> nat \<Rightarrow> 'e \<Rightarrow> 'e"
  a_busy_wait :: "nat \<Rightarrow> 'e \<Rightarrow> 'e"
  a_power_set :: "int \<Rightarrow> bool \<Rightarrow> 'e \<Rightarrow> 'e"
  a_state_file :: "'e \<Rightarrow> (int \<times> int \<times> rat \<times> int) option \<times> 'e"
  a_open_ts :: "'e \<Rightarrow> int \<times> 'e"
  a_read_ts :: "int \<Rightarrow> 'e \<Rightarrow> (int \<times> u32) \<times> 'e"
  a_pm_shutdown :: "'e \<Rightarrow> 'e"
  a_pm_governor_auto :: "bool \<Rightarrow> 'e \<Rightarrow> 'e"
  a_pm_profile :: "int \<Rightarrow> 'e \<Rightarrow> 'e"
  r_beginFLRC :: "u32 \<Rightarrow> u8 \<Rightarrow> u8 \<Rightarrow> i8 \<Rightarrow> u16 \<Rightarrow> nat \<Rightarrow> u8 \<Rightarrow> 'e \<Rightarrow> i16 \<times> 'e"
  r_setPacketType :: "u8 \<Rightarrow> 'e \<Rightarrow> 'e"
  r_setModulationParamsFLRC :: "u8 \<Rightarrow> u8 \<Rightarrow> u8 \<Rightarrow> 'e \<Rightarrow> 'e"
  r_setPacketParamsFLRC :: "u8 \<Rightarrow> u8 \<Rightarrow> u8 \<Rightarrow> u8 \<Rightarrow> u16 \<Rightarrow> u8 \<Rightarrow> 'e \<Rightarrow> 'e"
  r_setGfskCrcParams :: "u32 \<Rightarrow> u32 \<Rightarrow> 'e \<Rightarrow> 'e"
  r_setFLRCSyncWord :: "u8 \<Rightarrow> u32 \<Rightarrow> 'e \<Rightarrow> 'e"
  r_writeRegMem32 :: "u32 \<Rightarrow> u32 \<Rightarrow> 'e \<Rightarrow> 'e"
  r_configFifoIrq :: "u8 \<Rightarrow> u8 \<Rightarrow> u16 \<Rightarrow> u16 \<Rightarrow> u16 \<Rightarrow> u16 \<Rightarrow> 'e \<Rightarrow> 'e"
  r_standby :: "'e \<Rightarrow> 'e"
  r_setFrequency :: "u32 \<Rightarrow> 'e \<Rightarrow> i16 \<times> 'e"
  r_setOutputPower :: "i8 \<Rightarrow> 'e \<Rightarrow> 'e"
  r_startReceive :: "'e \<Rightarrow> 'e"
  r_startTransmit :: "bytes \<Rightarrow> 'e \<Rightarrow> i16 \<times> 'e"
  r_finishTransmit :: "'e \<Rightarrow> 'e"
  r_get_clear_IrqStatus :: "'e \<Rightarrow> u32 \<times> 'e"
  r_getRxFifoLevel :: "'e \<Rightarrow> u16 \<times> 'e"
  r_clearRxBuffer :: "'e \<Rightarrow> 'e"
  r_rssi_raw :: "'e \<Rightarrow> nat \<times> 'e"
  r_readData :: "nat \<Rightarrow> 'e \<Rightarrow> (bytes \<times> i16) \<times> 'e"
  a_fuel :: nat

section \<open>Constants\<close>

definition IRQ_LORA_HEADER_ERROR :: u32 where [const_vals]: "IRQ_LORA_HEADER_ERROR = push_bit 9 1"
definition IRQ_RX_DONE :: u32 where [const_vals]: "IRQ_RX_DONE = push_bit 18 1"
definition IRQ_TX_DONE :: u32 where [const_vals]: "IRQ_TX_DONE = push_bit 19 1"
definition IRQ_TIMEOUT :: u32 where [const_vals]: "IRQ_TIMEOUT = push_bit 21 1"
definition IRQ_CRC_ERROR :: u32 where [const_vals]: "IRQ_CRC_ERROR = push_bit 22 1"
definition IRQ_LEN_ERROR :: u32 where [const_vals]: "IRQ_LEN_ERROR = push_bit 23 1"

definition kMaxSafeBenchTxPowerDbm :: i8 where [const_vals]: "kMaxSafeBenchTxPowerDbm = 10"
definition kThrottledTxPowerDbm :: i8 where [const_vals]: "kThrottledTxPowerDbm = 4"

section \<open>State\<close>

record wk =
  k_radio :: bool
  k_radio_ok :: bool
  k_power_gpio :: int
  k_thermal_level :: int
  k_powered_down :: bool
  k_last_thermal_ms :: u32
  k_fd_ts :: int
  k_fan_on :: bool
  k_pm_initialized :: bool
  k_dvfs_stage :: int
  k_cfg :: config
  k_scan :: scan_params
  k_scan_active :: bool
  k_pre_scan_freq :: u32
  k_scan_idx :: u8
  k_scan_until :: u32
  k_scan_frames :: u32
  k_scan_consensus :: u32
  k_scan_best_rssi :: i8
  k_tx_q :: "bytes list"
  k_st :: counters
  k_burst_ctr :: u32
  k_events :: "callback list"

definition wk0 :: wk where
  "wk0 = \<lparr>k_radio = False, k_radio_ok = False, k_power_gpio = 44, k_thermal_level = 0,
     k_powered_down = False, k_last_thermal_ms = 0, k_fd_ts = -1, k_fan_on = False,
     k_pm_initialized = False, k_dvfs_stage = -1, k_cfg = config0, k_scan = scan_params0,
     k_scan_active = False, k_pre_scan_freq = 915000000, k_scan_idx = 0, k_scan_until = 0,
     k_scan_frames = 0, k_scan_consensus = 0, k_scan_best_rssi = -128, k_tx_q = [], k_st = counters0,
     k_burst_ctr = 1, k_events = []\<rparr>"

definition emit :: "callback \<Rightarrow> wk \<Rightarrow> wk" where
  "emit c w = w\<lparr>k_events := k_events w @ [c]\<rparr>"

text \<open>Updating a counter of \<open>st_\<close>.\<close>

definition upd_st :: "(counters \<Rightarrow> counters) \<Rightarrow> wk \<Rightarrow> wk" where
  "upd_st f w = w\<lparr>k_st := f (k_st w)\<rparr>"

section \<open>Time\<close>

definition worker_nowMs :: "'e api \<Rightarrow> 'e \<Rightarrow> u32 \<times> 'e" where
  "worker_nowMs a e = (let ((sec, nsec), e) = a_clock a e in (of_nat (sec * 1000 + nsec div 1000000), e))"

text \<open>On the RISC-V target short waits spin on the 27 MHz time counter.\<close>

definition sleepUs :: "'e api \<Rightarrow> u32 \<Rightarrow> 'e \<Rightarrow> 'e" where
  "sleepUs a us e =
     (if us = 0 then e
      else if us < 1000 then a_busy_wait a (unat us * 27) e
      else a_nanosleep a (unat us div 1000000) ((unat us mod 1000000) * 1000) e)"

section \<open>Start-up\<close>

definition armReceive :: "'e api \<Rightarrow> wk \<times> 'e \<Rightarrow> wk \<times> 'e" where
  "armReceive a = (\<lambda>(w, e).
     if \<not> k_radio_ok w \<or> role (k_cfg w) = 1 then (w, e)
     else (upd_st (\<lambda>c. c\<lparr>burst_mode := 0, restart_rx_pending := 0\<rparr>) w, r_startReceive a e))"

text \<open>The register writes of \<open>init\<close> after \<open>beginFLRC\<close>: FLRC profile, sync word, FIFO layout, thresholds.\<close>

definition flrc_profile :: "'e api \<Rightarrow> 'e \<Rightarrow> 'e" where
  "flrc_profile a e =
     (let e = r_setPacketType a 5 e;
          e = r_setModulationParamsFLRC a 0 2 5 e;
          e = r_setPacketParamsFLRC a 7 2 1 0 511 1 e;
          e = r_setGfskCrcParams a 0xFFFFFFFF 0x755B e;
          e = r_setFLRCSyncWord a 1 0x90563412 e;
          e = r_writeRegMem32 a 0x00F3002C 0x00804000 e;
          e = r_writeRegMem32 a 0x00F30034 0x000003FC e;
          e = r_writeRegMem32 a 0x00F30028 0x00804400 e;
          e = r_writeRegMem32 a 0x00F30030 0x000003E8 e;
          e = r_configFifoIrq a 0x3F 0x3F 511 0 0 511 e;
          e = r_writeRegMem32 a 0x00F2A098 (push_bit 16 511) e
      in r_writeRegMem32 a 0x00F2A09C (push_bit 16 511) e)"

definition worker_init :: "'e api \<Rightarrow> int \<Rightarrow> wk \<times> 'e \<Rightarrow> bool \<times> wk \<times> 'e" where
  "worker_init a gpio = (\<lambda>(w, e).
     let w = w\<lparr>k_power_gpio := gpio\<rparr>;
         e = a_power_set a gpio True e;
         e = a_power_set a 42 False e;
         e = sleepUs a 50000 e;
         w = w\<lparr>k_radio := True\<rparr>;
         (st, e) = r_beginFLRC a 915000000 0 1 kMaxSafeBenchTxPowerDbm 16 3000 0 e
     in if st \<noteq> 0 then (False, w, e)
        else let e = flrc_profile a e;
                 w = upd_st (\<lambda>c. c\<lparr>burst_mode := 0\<rparr>) (w\<lparr>k_radio_ok := True\<rparr>)
             in (True, armReceive a (w, e)))"

section \<open>Configuration\<close>

definition applyConfig :: "'e api \<Rightarrow> config \<Rightarrow> wk \<times> 'e \<Rightarrow> string option \<times> wk \<times> 'e" where
  "applyConfig a c = (\<lambda>(w, e).
     if \<not> k_radio_ok w then (Some ''radio init failed'', w, e)
     else
       let max_pwr = (if k_thermal_level w \<ge> 1 then kThrottledTxPowerDbm else kMaxSafeBenchTxPowerDbm);
           clamped = (if sint (tx_power_dbm c) > sint max_pwr then c\<lparr>tx_power_dbm := max_pwr\<rparr> else c);
           pwr_changed = (tx_power_dbm clamped \<noteq> tx_power_dbm (k_cfg w))
       in if \<not> k_scan_active w \<and> frequency_hz clamped = frequency_hz (k_cfg w) \<and> \<not> pwr_changed
             \<and> role clamped = role (k_cfg w) then (None, w, e)
          else
            let w = w\<lparr>k_scan_active := False, k_cfg := clamped\<rparr>;
                e = r_standby a e;
                (st, e) = (if frequency_hz clamped > 0 then r_setFrequency a (frequency_hz clamped) e else (0, e))
            in if st \<noteq> 0 then (Some ''set frequency failed'', armReceive a (w, e))
               else let e = (if pwr_changed then r_setOutputPower a (tx_power_dbm clamped) e else e)
                    in (None, armReceive a (w, e)))"

section \<open>Scanning\<close>

definition startScan :: "'e api \<Rightarrow> scan_params \<Rightarrow> wk \<times> 'e \<Rightarrow> wk \<times> 'e" where
  "startScan a p = (\<lambda>(w, e).
     let w = (if \<not> k_scan_active w \<and> frequency_hz (k_cfg w) > 0
              then w\<lparr>k_pre_scan_freq := frequency_hz (k_cfg w)\<rparr> else w);
         w = w\<lparr>k_scan := p, k_scan_idx := 0, k_scan_frames := 0, k_scan_consensus := 0,
               k_scan_best_rssi := -128\<rparr>;
         (now, e) = worker_nowMs a e;
         w = w\<lparr>k_scan_until := now + dwell_ms p, k_scan_active := True\<rparr>;
         w = upd_st (\<lambda>c. c\<lparr>pending_tx_valid := 0\<rparr>) w
     in if k_radio_ok w \<and> start_hz p > 0 then
          let e = r_standby a e;
              (_, e) = r_setFrequency a (start_hz p) e;
              w = w\<lparr>k_cfg := (k_cfg w)\<lparr>frequency_hz := start_hz p\<rparr>\<rparr>
          in armReceive a (w, e)
        else (w, e))"

text \<open>The frequency of channel \<open>i\<close> of a scan.\<close>

definition scan_freq :: "scan_params \<Rightarrow> u8 \<Rightarrow> u32" where
  "scan_freq p i = start_hz p + ucast i * step_hz p"

definition scanTick :: "'e api \<Rightarrow> u32 \<Rightarrow> wk \<times> 'e \<Rightarrow> wk \<times> 'e" where
  "scanTick a now = (\<lambda>(w, e).
     if k_scan_consensus w = 0 \<and> before now (k_scan_until w) then (w, e)
     else
       let w = emit (OnScan (scan_freq (k_scan w) (k_scan_idx w)) (k_scan_frames w)
                       (k_scan_consensus w) (k_scan_best_rssi w)) w;
           w = w\<lparr>k_scan_idx := k_scan_idx w + 1\<rparr>
       in if k_scan_idx w \<ge> scan_ch_count (k_scan w) then
            let w = w\<lparr>k_scan_active := False\<rparr>;
                (w, e) = (if k_radio_ok w \<and> k_pre_scan_freq w > 0
                  then let e = r_standby a e;
                           (_, e) = r_setFrequency a (k_pre_scan_freq w) e
                       in (w\<lparr>k_cfg := (k_cfg w)\<lparr>frequency_hz := k_pre_scan_freq w\<rparr>\<rparr>, e)
                  else (w, e))
            in armReceive a (w, e)
          else
            let f = scan_freq (k_scan w) (k_scan_idx w);
                e = r_standby a e;
                (_, e) = r_setFrequency a f e;
                w = w\<lparr>k_cfg := (k_cfg w)\<lparr>frequency_hz := f\<rparr>, k_scan_frames := 0, k_scan_consensus := 0,
                      k_scan_best_rssi := -128, k_scan_until := now + dwell_ms (k_scan w)\<rparr>
            in armReceive a (w, e))"

section \<open>Transmission\<close>

definition enqueueTx :: "bytes \<Rightarrow> wk \<Rightarrow> terminal \<times> wk" where
  "enqueueTx payload w =
     (if \<not> k_radio_ok w \<or> k_thermal_level w \<ge> 2 then (kBusy, w)
      else if length (k_tx_q w) \<ge> 16 then
        (kBusy, upd_st (\<lambda>c. c\<lparr>host_tx_dropped := host_tx_dropped c + 1\<rparr>) w)
      else (kOk, upd_st (\<lambda>c. c\<lparr>pending_tx_valid := 1\<rparr>) (w\<lparr>k_tx_q := k_tx_q w @ [payload]\<rparr>)))"

text \<open>Polling for TX_DONE until the deadline.\<close>

fun poll_tx :: "nat \<Rightarrow> 'e api \<Rightarrow> u32 \<Rightarrow> 'e \<Rightarrow> (bool \<times> 'e) option" where
  "poll_tx 0 a deadline e = None"
| "poll_tx (Suc k) a deadline e =
     (let (now, e) = worker_nowMs a e in
      if before now deadline then
        let (irq, e) = r_get_clear_IrqStatus a e in
        if irq AND IRQ_TX_DONE \<noteq> 0 then Some (True, e)
        else if irq AND IRQ_TIMEOUT \<noteq> 0 then Some (False, e)
        else poll_tx k a deadline (sleepUs a 100 e)
      else Some (False, e))"

text \<open>The attempts left for one packet; all but the first start with standby and a pause.\<close>

fun send_attempts :: "nat \<Rightarrow> bool \<Rightarrow> 'e api \<Rightarrow> bytes \<Rightarrow> 'e \<Rightarrow> (bool \<times> 'e) option" where
  "send_attempts 0 retry a pkt e = Some (False, e)"
| "send_attempts (Suc n) retry a pkt e =
     (let e = (if retry then sleepUs a 500 (r_standby a e) else e);
          (st, e) = r_startTransmit a pkt e
      in if st \<noteq> 0 then send_attempts n True a pkt e
         else let (now, e) = worker_nowMs a e in do {
           (sent, e) \<leftarrow> poll_tx (a_fuel a) a (now + 25) e;
           let e = r_finishTransmit a e;
           if sent then Some (True, e) else send_attempts n True a pkt e })"

text \<open>The packet loop from index \<open>idx\<close>, \<open>k\<close> packets to go; \<open>pkt\<close> is the reused packet buffer.\<close>

fun send_packets ::
  "nat \<Rightarrow> 'e api \<Rightarrow> bytes \<Rightarrow> u32 \<Rightarrow> u16 \<Rightarrow> u16 \<Rightarrow> u16 \<Rightarrow> bytes \<Rightarrow> wk \<times> 'e \<Rightarrow> (string option \<times> wk \<times> 'e) option" where
  "send_packets 0 a payload crc bid n_total idx pkt x = Some (None, x)"
| "send_packets (Suc k) a payload crc bid n_total idx pkt (w, e) = do {
     (pkt, pkt_len) \<leftarrow> encode_packet pkt bid idx n_total payload (of_nat (length payload)) crc;
     air \<leftarrow> rd_slice 0 pkt_len pkt;
     (sent, e) \<leftarrow> send_attempts 3 False a air e;
     if \<not> sent then Some (Some ''tx timeout'', w, e)
     else do {
       let w = upd_st (\<lambda>c. c\<lparr>packets_tx := packets_tx c + 1\<rparr>) w;
       send_packets k a payload crc bid n_total (idx + 1) pkt (w, sleepUs a 220 e) } }"

definition burst_id_of :: "nat \<Rightarrow> nat \<Rightarrow> u32 \<Rightarrow> u16" where
  "burst_id_of sec nsec ctr =
     (let entropy = of_nat nsec XOR (of_nat sec * 0x9E3779B9) XOR (ctr * 0x85EBCA6B) :: u32;
          bid = ucast (entropy XOR drop_bit 16 entropy) :: u16
      in if bid = 0 then 1 else bid)"

definition transmitBurst :: "'e api \<Rightarrow> bytes \<Rightarrow> wk \<times> 'e \<Rightarrow> (string option \<times> wk \<times> 'e) option" where
  "transmitBurst a payload = (\<lambda>(w, e).
     let n_total = burst_total (length payload) in
     if n_total = 0 \<or> n_total > kMaxPackets \<or> length payload > unat kMaxTotalPayload
     then Some (Some ''bad burst size'', w, e)
     else
       let ((sec, nsec), e) = a_clock a e;
           bid = burst_id_of sec nsec (k_burst_ctr w);
           w = w\<lparr>k_burst_ctr := k_burst_ctr w + 1\<rparr>;
           w = upd_st (\<lambda>c. c\<lparr>bursts_tx := bursts_tx c + 1\<rparr>) w
       in send_packets (unat n_total) a payload (crc32 payload) bid n_total 0
            (replicate (unat kPacketPayload) 0) (w, e))"

text \<open>One frame of the queue; the terminal callback is its last act.\<close>

definition serviceTxQueue :: "'e api \<Rightarrow> wk \<times> 'e \<Rightarrow> (wk \<times> 'e) option" where
  "serviceTxQueue a = (\<lambda>(w, e).
     if role (k_cfg w) = 2 \<or> k_scan_active w \<or> k_thermal_level w \<ge> 2 then Some (w, e)
     else case k_tx_q w of [] \<Rightarrow> Some (w, e)
     | frame # rest \<Rightarrow> do {
         let w = upd_st (\<lambda>c. c\<lparr>pending_tx_valid := (if rest \<noteq> [] then 1 else 0), burst_mode := 2\<rparr>)
                   (w\<lparr>k_tx_q := rest\<rparr>);
         (err, w, e) \<leftarrow> transmitBurst a frame (w, r_standby a e);
         let (w, e) = armReceive a (upd_st (\<lambda>c. c\<lparr>burst_mode := 0\<rparr>) w, e);
         let e = (if k_thermal_level w = 1 then sleepUs a 15000 e else e);
         Some (emit (OnTerminal (if err = None then kOk else kDropped)) w, e) })"

text \<open>\<open>snapshot\<close> hands out the counters with the uptime it was given.\<close>

definition snapshot :: "u32 \<Rightarrow> wk \<Rightarrow> counters \<times> wk" where
  "snapshot uptime w = (let w = upd_st (\<lambda>c. c\<lparr>uptime_ms := uptime\<rparr>) w in (k_st w, w))"

end
