(* ===== verification/WorkerPoll.thy ===== *)
theory WorkerPoll
  imports Worker
begin

text \<open>
  The radio worker of service/src/radio_worker.cpp, second part: the thermal governor, the receive
  loop and \<open>pollOnce\<close>.  Temperatures are exact rationals (the code uses \<open>double\<close>).
\<close>

section \<open>Thermal governor\<close>

text \<open>The level the OS guardian published, if it is fresh: level and temperature.\<close>

definition os_level :: "'e api \<Rightarrow> 'e \<Rightarrow> (int \<times> rat) option \<times> 'e" where
  "os_level a e =
     (let ((sec, nsec), e) = a_clock a e;
          (fp, e) = a_state_file a e
      in (case fp of None \<Rightarrow> None
          | Some (n, lvl, tc, ts_sec) \<Rightarrow>
              if n \<ge> 2 \<and> tc > -20 \<and> tc < 150 \<and> (n < 3 \<or> int sec - ts_sec \<le> 10)
              then Some (lvl, tc) else None, e))"

text \<open>Die temperature in degrees Celsius of a 12-bit sensor code.\<close>

definition ts_celsius :: "nat \<Rightarrow> rat" where
  "ts_celsius n =
     (let c = of_nat n; c2 = c * c; c3 = c2 * c; c4 = c2 * c2
      in 101472 / 10 ^ 15 * c4 - 110063 / 10 ^ 11 * c3 + 436150 / 10 ^ 8 * c2 - 710128 / 10 ^ 5 * c + 356587 / 100)"

definition fan_ctl :: "'e api \<Rightarrow> rat \<Rightarrow> wk \<times> 'e \<Rightarrow> wk \<times> 'e" where
  "fan_ctl a t = (\<lambda>(w, e).
     if t \<ge> 45 \<and> \<not> k_fan_on w then (w\<lparr>k_fan_on := True\<rparr>, a_power_set a 42 True e)
     else if t < 38 \<and> k_fan_on w then (w\<lparr>k_fan_on := False\<rparr>, a_power_set a 42 False e)
     else (w, e))"

definition next_dvfs :: "int \<Rightarrow> rat \<Rightarrow> int" where
  "next_dvfs stage t =
     (if t \<ge> 74 \<or> (stage = 5 \<and> t \<ge> 71) then 5
      else if t \<ge> 68 \<or> (stage \<ge> 4 \<and> t \<ge> 65) then 4
      else if t \<ge> 62 \<or> (stage \<ge> 3 \<and> t \<ge> 59) then 3
      else if t \<ge> 56 \<or> (stage \<ge> 2 \<and> t \<ge> 53) then 2
      else if t \<ge> 50 \<or> (stage \<ge> 1 \<and> t \<ge> 47) then 1
      else 0)"

definition dvfs_ctl :: "'e api \<Rightarrow> rat \<Rightarrow> wk \<times> 'e \<Rightarrow> wk \<times> 'e" where
  "dvfs_ctl a t = (\<lambda>(w, e).
     let nd = next_dvfs (k_dvfs_stage w) t in
     if nd \<noteq> k_dvfs_stage w then
       (w\<lparr>k_dvfs_stage := nd\<rparr>,
        if nd = 0 then a_pm_governor_auto a True e else a_pm_profile a nd (a_pm_governor_auto a False e))
     else (w, e))"

text \<open>The level for a temperature the service measured itself, given the current level.\<close>

definition next_level :: "int \<Rightarrow> rat \<Rightarrow> int" where
  "next_level lvl t =
     (if t \<ge> 82 then 2
      else if lvl = 2 then (if t < 55 then 0 else lvl)
      else if t \<ge> 68 then 1
      else if lvl = 1 \<and> t < 60 then 0
      else lvl)"

text \<open>The fallback that reads /dev/ts: the next level, if the sensor gave a plausible temperature.\<close>

definition sensor_level :: "'e api \<Rightarrow> wk \<times> 'e \<Rightarrow> int option \<times> wk \<times> 'e" where
  "sensor_level a = (\<lambda>(w, e).
     let (w, e) = (if k_pm_initialized w then (w, e)
           else (w\<lparr>k_dvfs_stage := 0, k_pm_initialized := True\<rparr>, a_pm_governor_auto a True (a_pm_shutdown a e)));
         (w, e) = (if k_fd_ts w < 0 then (let (fd, e) = a_open_ts a e in (w\<lparr>k_fd_ts := fd\<rparr>, e)) else (w, e))
     in if k_fd_ts w < 0 then (None, w, e)
        else
          let ((n, v), e) = a_read_ts a (k_fd_ts w) e;
              code = unat (v AND 0xFFF);
              t = ts_celsius code
          in if n > 0 \<and> 0 < code \<and> code < 4095 \<and> t > -20 \<and> t < 150 then
               (let (w, e) = dvfs_ctl a t (fan_ctl a t (w, e)) in (Some (next_level (k_thermal_level w) t), w, e))
             else (None, w, e))"

definition thermal_cutoff :: "'e api \<Rightarrow> wk \<times> 'e \<Rightarrow> wk \<times> 'e" where
  "thermal_cutoff a = (\<lambda>(w, e).
     let e = (if k_radio w \<and> k_radio_ok w then r_standby a e else e);
         e = a_power_set a 42 True e;
         e = a_power_set a (k_power_gpio w) False e;
         w = w\<lparr>k_powered_down := True\<rparr>;
         n = length (k_tx_q w);
         w = upd_st (\<lambda>c. c\<lparr>pending_tx_valid := 0\<rparr>) (w\<lparr>k_tx_q := []\<rparr>)
     in (w\<lparr>k_events := k_events w @ replicate n (OnTerminal kDropped)\<rparr>, e))"

definition thermal_throttle :: "'e api \<Rightarrow> wk \<times> 'e \<Rightarrow> wk \<times> 'e" where
  "thermal_throttle a = (\<lambda>(w, e).
     if k_radio w \<and> k_radio_ok w \<and> \<not> k_powered_down w
     then armReceive a (w, r_setOutputPower a kThrottledTxPowerDbm (r_standby a e))
     else (w, e))"

definition thermal_recover :: "'e api \<Rightarrow> int \<Rightarrow> wk \<times> 'e \<Rightarrow> wk \<times> 'e" where
  "thermal_recover a prev = (\<lambda>(w, e).
     if k_powered_down w then
       (let saved = k_cfg w;
            (ok, w, e) = worker_init a (k_power_gpio w) (w, e)
        in if ok then snd (applyConfig a saved (w\<lparr>k_powered_down := False\<rparr>, e)) else (w, e))
     else if prev = 1 \<and> k_radio w \<and> k_radio_ok w
     then armReceive a (w, r_setOutputPower a (tx_power_dbm (k_cfg w)) (r_standby a e))
     else (w, e))"

text \<open>Acting on a change of level.\<close>

definition set_level :: "'e api \<Rightarrow> int \<Rightarrow> wk \<times> 'e \<Rightarrow> wk \<times> 'e" where
  "set_level a nl = (\<lambda>(w, e).
     if nl = k_thermal_level w then (w, e)
     else let prev = k_thermal_level w; x = (w\<lparr>k_thermal_level := nl\<rparr>, e)
          in if nl = 2 then thermal_cutoff a x
             else if nl = 1 then thermal_throttle a x
             else if nl = 0 then thermal_recover a prev x
             else x)"

definition thermalTick :: "'e api \<Rightarrow> u32 \<Rightarrow> wk \<times> 'e \<Rightarrow> wk \<times> 'e" where
  "thermalTick a now = (\<lambda>(w, e).
     if k_last_thermal_ms w \<noteq> 0 \<and> now - k_last_thermal_ms w < 4000 then (w, e)
     else
       let w = w\<lparr>k_last_thermal_ms := now\<rparr>;
           (os, e) = os_level a e
       in case os of
            Some (lvl, t) \<Rightarrow> set_level a lvl (w, e)
          | None \<Rightarrow> (let (nl, w, e) = sensor_level a (w, e)
                     in case nl of Some l \<Rightarrow> set_level a l (w, e) | None \<Rightarrow> (w, e)))"

section \<open>Receiving\<close>

text \<open>The local variables of the receive loop; \<open>l_queue\<close> is \<open>burst_rx_queue\<close>.\<close>

record rxl =
  l_in_burst :: bool
  l_deadline :: u32
  l_queue :: "(bytes \<times> i16) list"
  l_check_fifo :: bool

definition rxl0 :: rxl where
  "rxl0 = \<lparr>l_in_burst = False, l_deadline = 0, l_queue = [], l_check_fifo = False\<rparr>"

definition header0 :: header where
  "header0 = \<lparr>h_magic = 0, h_burst_id = 0, h_packet_idx = 0, h_total_packets = 0,
     h_total_payload_len = 0, h_payload_crc32 = 0\<rparr>"

definition count_error :: "u32 \<Rightarrow> bool \<Rightarrow> wk \<Rightarrow> wk" where
  "count_error irq always w =
     (if irq AND IRQ_CRC_ERROR \<noteq> 0
      then upd_st (\<lambda>c. c\<lparr>crc_errors := crc_errors c + 1, hw_crc_errors := hw_crc_errors c + 1\<rparr>) w
      else if always \<or> irq AND IRQ_LEN_ERROR \<noteq> 0
      then upd_st (\<lambda>c. c\<lparr>hw_length_errors := hw_length_errors c + 1\<rparr>) w
      else w)"

definition tally_scan :: "bytes \<Rightarrow> i16 \<Rightarrow> wk \<Rightarrow> wk" where
  "tally_scan pkt rssi w =
     (if k_scan_active w then
        w\<lparr>k_scan_best_rssi := (if sint rssi > sint (k_scan_best_rssi w) then ucast rssi else k_scan_best_rssi w),
          k_scan_consensus := (if is_consensus_prefix pkt then k_scan_consensus w + 1 else k_scan_consensus w),
          k_scan_frames := k_scan_frames w + 1\<rparr>
      else w)"

text \<open>Whether a packet is there: the IRQ says so, or after a packet the FIFO holds another whole one.\<close>

definition rx_ready :: "'e api \<Rightarrow> u32 \<Rightarrow> rxl \<times> 'e \<Rightarrow> bool \<times> rxl \<times> 'e" where
  "rx_ready a irq = (\<lambda>(L, e).
     let has_err = irq AND (IRQ_CRC_ERROR OR IRQ_LEN_ERROR OR IRQ_LORA_HEADER_ERROR OR IRQ_TIMEOUT) \<noteq> 0;
         has_rx = irq AND IRQ_RX_DONE \<noteq> 0
     in if \<not> has_rx \<and> \<not> has_err then
          (let (lvl, e) = r_getRxFifoLevel a e in
           if l_check_fifo L \<and> lvl \<ge> kPacketPayload then (True, L\<lparr>l_check_fifo := False\<rparr>, e)
           else if lvl > 0 \<and> \<not> l_in_burst L then
             (let (now, e) = worker_nowMs a e
              in (False, L\<lparr>l_in_burst := True, l_deadline := now + 4, l_check_fifo := False\<rparr>, e))
           else (False, L\<lparr>l_check_fifo := False\<rparr>, e))
        else (has_rx, L\<lparr>l_check_fifo := False\<rparr>, e))"

text \<open>The block under the radio lock: poll the IRQ status and fetch at most one packet.\<close>

definition rx_fetch :: "'e api \<Rightarrow> rxl \<times> wk \<times> 'e \<Rightarrow> (bytes \<times> i16) option \<times> rxl \<times> wk \<times> 'e" where
  "rx_fetch a = (\<lambda>(L, w, e).
     let (irq, e) = r_get_clear_IrqStatus a e;
         (has_rx, L, e) = rx_ready a irq (L, e)
     in if has_rx then
          let (lvl, e) = r_getRxFifoLevel a e in
          if irq AND (IRQ_CRC_ERROR OR IRQ_LEN_ERROR OR IRQ_LORA_HEADER_ERROR) \<noteq> 0 then
            (None, L\<lparr>l_in_burst := False\<rparr>, armReceive a (count_error irq True w, r_clearRxBuffer a e))
          else if lvl < kPacketPayload then
            (None, L\<lparr>l_in_burst := False\<rparr>,
             if lvl > 0 then armReceive a (w, r_clearRxBuffer a e) else (w, e))
          else
            let (raw, e) = r_rssi_raw a e;
                rssi = of_int (- int (raw div 2)) :: i16;
                ((pkt, st), e) = r_readData a (unat kPacketPayload) e
            in if st = 0 then
                 (Some (pkt, rssi), L, tally_scan pkt rssi
                    (upd_st (\<lambda>c. c\<lparr>packets_rx := packets_rx c + 1, hw_received_packets := hw_received_packets c + 1,
                                   hw_crc_ok := hw_crc_ok c + 1\<rparr>) w), e)
               else (None, L\<lparr>l_in_burst := False\<rparr>, armReceive a (w, e))
        else if irq AND (IRQ_CRC_ERROR OR IRQ_LEN_ERROR OR IRQ_TIMEOUT) \<noteq> 0 then
          (None, L\<lparr>l_in_burst := False\<rparr>, armReceive a (count_error irq False w, e))
        else (None, L, w, e))"

definition emit_rx :: "(bytes \<times> i16) list \<Rightarrow> wk \<Rightarrow> wk" where
  "emit_rx q w = w\<lparr>k_events := k_events w @ map (\<lambda>(p, r). OnRx p r) q\<rparr>"

datatype loop_step = Again rxl | Leave

text \<open>The end of the loop body: wait for the rest of a burst, or flush the queue and leave.\<close>

definition rx_tail :: "'e api \<Rightarrow> rxl \<times> wk \<times> 'e \<Rightarrow> loop_step \<times> wk \<times> 'e" where
  "rx_tail a = (\<lambda>(L, w, e).
     if l_in_burst L then
       (let (now, e) = worker_nowMs a e in
        if before now (l_deadline L) then (Again L, w, sleepUs a 150 e)
        else (let (w, e) = armReceive a (w, r_clearRxBuffer a e)
              in (Leave, emit_rx (l_queue L) (upd_st (\<lambda>c. c\<lparr>burst_mode := 0\<rparr>) w), e)))
     else (Leave, emit_rx (l_queue L) w, e))"

text \<open>What is done with a packet: drop a foreign one, hold a packet of an unfinished burst, or deliver.\<close>

definition rx_packet :: "'e api \<Rightarrow> bytes \<Rightarrow> i16 \<Rightarrow> rxl \<times> wk \<times> 'e \<Rightarrow> loop_step \<times> wk \<times> 'e" where
  "rx_packet a pkt rssi = (\<lambda>(L, w, e).
     let L = L\<lparr>l_check_fifo := True\<rparr>;
         (is_fb, hdr) = decode_header pkt header0
     in if \<not> is_fb then
          (let (w, e) = armReceive a (w, r_clearRxBuffer a e)
           in (Leave, upd_st (\<lambda>c. c\<lparr>burst_mode := 0\<rparr>) w, e))
        else if unat (h_packet_idx hdr) + 1 < unat (h_total_packets hdr) then
          (let w = upd_st (\<lambda>c. c\<lparr>burst_mode := 1\<rparr>) w;
               (now, e) = worker_nowMs a e
           in (Again (L\<lparr>l_in_burst := True, l_deadline := now + 10, l_queue := l_queue L @ [(pkt, rssi)]\<rparr>), w, e))
        else
          let w = upd_st (\<lambda>c. c\<lparr>burst_mode := 0, bursts_rx := bursts_rx c + 1\<rparr>) w;
              w = emit_rx (l_queue L @ [(pkt, rssi)]) w;
              L = L\<lparr>l_in_burst := False, l_queue := []\<rparr>;
              (lvl, e) = r_getRxFifoLevel a e
          in if lvl \<ge> kPacketPayload then
               (let (now, e) = worker_nowMs a e in (Again (L\<lparr>l_in_burst := True, l_deadline := now + 5\<rparr>), w, e))
             else if lvl > 0 then
               (let (now, e) = worker_nowMs a e in (Again (L\<lparr>l_in_burst := True, l_deadline := now + 4\<rparr>), w, e))
             else rx_tail a (L, w, r_clearRxBuffer a e))"

definition rx_step :: "'e api \<Rightarrow> rxl \<times> wk \<times> 'e \<Rightarrow> loop_step \<times> wk \<times> 'e" where
  "rx_step a x =
     (let (got, L, w, e) = rx_fetch a x in
      case got of None \<Rightarrow> rx_tail a (L, w, e) | Some (pkt, rssi) \<Rightarrow> rx_packet a pkt rssi (L, w, e))"

fun rx_loop :: "nat \<Rightarrow> 'e api \<Rightarrow> rxl \<times> wk \<times> 'e \<Rightarrow> (wk \<times> 'e) option" where
  "rx_loop 0 a x = None"
| "rx_loop (Suc k) a x =
     (let (r, w, e) = rx_step a x in
      case r of Leave \<Rightarrow> Some (w, e) | Again L \<Rightarrow> rx_loop k a (L, w, e))"

section \<open>Polling\<close>

definition worker_pollOnce :: "'e api \<Rightarrow> wk \<times> 'e \<Rightarrow> (wk \<times> 'e) option" where
  "worker_pollOnce a = (\<lambda>(w, e).
     let (now, e) = worker_nowMs a e;
         (w, e) = thermalTick a now (w, e)
     in if k_thermal_level w \<ge> 2 then Some (w, e)
        else
          let (w, e) = (if k_scan_active w then scanTick a now (w, e) else (w, e)) in
          if \<not> k_radio_ok w then Some (w, e)
          else if role (k_cfg w) = 1 then
            (if \<not> k_scan_active w then serviceTxQueue a (w, e) else Some (w, e))
          else do {
            (w, e) \<leftarrow> rx_loop (a_fuel a) a (rxl0, w, e);
            if \<not> k_scan_active w then serviceTxQueue a (w, e) else Some (w, e) })"

end
