(* ===== verification/WorkerInv.thy ===== *)
theory WorkerInv
  imports WorkerPoll
begin

text \<open>
  The worker's books: how every operation changes the TX queue, the terminals it has reported and the
  configured power.  \<open>evolves\<close> collects what all operations but \<open>enqueueTx\<close> have in common; the step
  relation \<open>wstep\<close> is the worker as its callers see it (any order of any operations), and its
  reachable states satisfy the accounting invariant: one terminal per accepted frame.
\<close>

section \<open>What internal work may do\<close>

definition terminals :: "callback list \<Rightarrow> nat" where
  "terminals ev = length (filter (\<lambda>c. case c of OnTerminal _ \<Rightarrow> True | _ \<Rightarrow> False) ev)"

lemma terminals_simps [simp]:
  "terminals [] = 0" "terminals (ev @ ev') = terminals ev + terminals ev'"
  "terminals (OnTerminal t # ev) = Suc (terminals ev)" "terminals (OnRx p r # ev) = terminals ev"
  "terminals (OnScan f n k b # ev) = terminals ev"
  "terminals (replicate m (OnTerminal t)) = m"
  by (simp_all add: terminals_def)

lemma terminals_rx [simp]: "terminals (map (\<lambda>(p, r). OnRx p r) q) = 0"
  by (induction q) auto

text \<open>
  Internal work only appends events, and every terminal among them takes the oldest frame off the
  queue; it keeps the configured power within +10 dBm.
\<close>

definition evolves :: "wk \<Rightarrow> wk \<Rightarrow> bool" where
  "evolves w w' \<longleftrightarrow>
     (\<exists>ev. k_events w' = k_events w @ ev \<and> k_tx_q w' = drop (terminals ev) (k_tx_q w)
        \<and> terminals ev \<le> length (k_tx_q w))
     \<and> (sint (tx_power_dbm (k_cfg w)) \<le> 10 \<longrightarrow> sint (tx_power_dbm (k_cfg w')) \<le> 10)"

lemma evolves_refl [intro, simp]: "evolves w w"
  by (simp add: evolves_def)

lemma evolves_trans [trans]: "evolves u v \<Longrightarrow> evolves v w \<Longrightarrow> evolves u w"
  unfolding evolves_def
proof (elim conjE exE, intro conjI)
  fix ev ev'
  assume "k_events v = k_events u @ ev" "k_tx_q v = drop (terminals ev) (k_tx_q u)"
    "terminals ev \<le> length (k_tx_q u)" "k_events w = k_events v @ ev'"
    "k_tx_q w = drop (terminals ev') (k_tx_q v)" "terminals ev' \<le> length (k_tx_q v)"
  then show "\<exists>ev. k_events w = k_events u @ ev \<and> k_tx_q w = drop (terminals ev) (k_tx_q u)
      \<and> terminals ev \<le> length (k_tx_q u)"
    by (intro exI [of _ "ev @ ev'"]) (simp add: add.commute)
qed simp

text \<open>Operations that touch neither the queue, nor the events, nor the configuration.\<close>

definition keeps :: "wk \<Rightarrow> wk \<Rightarrow> bool" where
  "keeps w w' \<longleftrightarrow> k_tx_q w' = k_tx_q w \<and> k_events w' = k_events w \<and> k_cfg w' = k_cfg w
     \<and> k_scan_active w' = k_scan_active w \<and> k_radio_ok w' = k_radio_ok w \<and> k_thermal_level w' = k_thermal_level w
     \<and> k_powered_down w' = k_powered_down w \<and> k_radio w' = k_radio w"

lemma keeps_refl [intro, simp]: "keeps w w"
  by (simp add: keeps_def)

lemma keeps_trans: "keeps u v \<Longrightarrow> keeps v w \<Longrightarrow> keeps u w"
  by (simp add: keeps_def)

lemma keeps_evolves: "keeps w w' \<Longrightarrow> evolves w w'"
  by (simp add: keeps_def evolves_def)

lemma keeps_upd_st [simp]: "keeps w (upd_st f v) = keeps w v" "keeps (upd_st f w) v = keeps w v"
  by (simp_all add: keeps_def upd_st_def)

lemma upd_st_sel [simp]:
  "k_radio (upd_st f w) = k_radio w" "k_radio_ok (upd_st f w) = k_radio_ok w"
  "k_power_gpio (upd_st f w) = k_power_gpio w" "k_thermal_level (upd_st f w) = k_thermal_level w"
  "k_powered_down (upd_st f w) = k_powered_down w" "k_cfg (upd_st f w) = k_cfg w"
  "k_scan (upd_st f w) = k_scan w" "k_scan_active (upd_st f w) = k_scan_active w"
  "k_pre_scan_freq (upd_st f w) = k_pre_scan_freq w" "k_scan_idx (upd_st f w) = k_scan_idx w"
  "k_scan_until (upd_st f w) = k_scan_until w" "k_scan_frames (upd_st f w) = k_scan_frames w"
  "k_scan_consensus (upd_st f w) = k_scan_consensus w" "k_scan_best_rssi (upd_st f w) = k_scan_best_rssi w"
  "k_tx_q (upd_st f w) = k_tx_q w" "k_st (upd_st f w) = f (k_st w)"
  "k_burst_ctr (upd_st f w) = k_burst_ctr w" "k_events (upd_st f w) = k_events w"
  by (simp_all add: upd_st_def)

lemma evolves_upd_st [simp]: "evolves w (upd_st f v) = evolves w v" "evolves (upd_st f w) v = evolves w v"
  by (simp_all add: evolves_def)

lemma emit_sel [simp]: "k_events (emit c w) = k_events w @ [c]" "k_tx_q (emit c w) = k_tx_q w"
  "k_cfg (emit c w) = k_cfg w" "k_scan (emit c w) = k_scan w" "k_scan_idx (emit c w) = k_scan_idx w"
  "k_radio_ok (emit c w) = k_radio_ok w" "k_pre_scan_freq (emit c w) = k_pre_scan_freq w"
  "k_thermal_level (emit c w) = k_thermal_level w" "k_scan_active (emit c w) = k_scan_active w"
  by (simp_all add: emit_def)

section \<open>Every operation\<close>

lemma armReceive_sel [simp, frame]:
  "k_tx_q (fst (armReceive a x)) = k_tx_q (fst x)" "k_events (fst (armReceive a x)) = k_events (fst x)"
  "k_cfg (fst (armReceive a x)) = k_cfg (fst x)" "k_radio_ok (fst (armReceive a x)) = k_radio_ok (fst x)"
  "k_scan_active (fst (armReceive a x)) = k_scan_active (fst x)" "k_scan (fst (armReceive a x)) = k_scan (fst x)"
  "k_thermal_level (fst (armReceive a x)) = k_thermal_level (fst x)"
  "k_powered_down (fst (armReceive a x)) = k_powered_down (fst x)"
  "k_scan_idx (fst (armReceive a x)) = k_scan_idx (fst x)" "k_scan_until (fst (armReceive a x)) = k_scan_until (fst x)"
  "k_pre_scan_freq (fst (armReceive a x)) = k_pre_scan_freq (fst x)" "k_radio (fst (armReceive a x)) = k_radio (fst x)"
  "k_power_gpio (fst (armReceive a x)) = k_power_gpio (fst x)" "k_burst_ctr (fst (armReceive a x)) = k_burst_ctr (fst x)"
  "k_scan_frames (fst (armReceive a x)) = k_scan_frames (fst x)"
  "k_scan_consensus (fst (armReceive a x)) = k_scan_consensus (fst x)"
  by (simp_all add: armReceive_def split: prod.splits)

lemma evolves_arm [simp]: "evolves w (fst (armReceive a x)) = evolves w (fst x)"
  by (simp add: evolves_def)

lemma worker_init_evolves: "evolves w (fst (snd (worker_init a g (w, e))))"
  by (auto simp: worker_init_def Let_def split: prod.splits) (auto simp: evolves_def)

lemma max_pwr_le: "sint (if lvl \<ge> (1 :: int) then kThrottledTxPowerDbm else kMaxSafeBenchTxPowerDbm) \<le> 10"
  by (simp add: const_vals)

lemma applyConfig_evolves: "evolves w (fst (snd (applyConfig a c (w, e))))"
proof -
  let ?m = "if k_thermal_level w \<ge> 1 then kThrottledTxPowerDbm else kMaxSafeBenchTxPowerDbm"
  define d where "d = (if sint (tx_power_dbm c) > sint ?m then c\<lparr>tx_power_dbm := ?m\<rparr> else c)"
  have "sint (tx_power_dbm d) \<le> sint ?m" by (auto simp: d_def)
  with max_pwr_le [of "k_thermal_level w"] have "sint (tx_power_dbm d) \<le> 10" by (rule order_trans [rotated])
  then have "evolves w (w\<lparr>k_scan_active := False, k_cfg := d\<rparr>)" by (simp add: evolves_def)
  then show ?thesis
    unfolding applyConfig_def Let_def prod.case d_def [symmetric] by (auto split: prod.splits)
qed

lemma startScan_evolves: "evolves w (fst (startScan a p (w, e)))"
  by (auto simp: startScan_def Let_def split: prod.splits) (auto simp: evolves_def)

lemma scanTick_evolves: "evolves w (fst (scanTick a now (w, e)))"
  by (auto simp: scanTick_def Let_def split: prod.splits) (auto simp: evolves_def)

lemma set_level_evolves: "evolves w (fst (set_level a nl (w, e)))"
proof -
  have cut: "evolves w (fst (thermal_cutoff a (w\<lparr>k_thermal_level := l\<rparr>, e)))" for l e
    by (auto simp: thermal_cutoff_def Let_def evolves_def)
  have thr: "evolves w (fst (thermal_throttle a (w\<lparr>k_thermal_level := l\<rparr>, e)))" for l e
    by (auto simp: thermal_throttle_def) (auto simp: evolves_def)
  have rec: "evolves w (fst (thermal_recover a prev (w\<lparr>k_thermal_level := l\<rparr>, e)))" for l e prev
  proof (cases "k_powered_down w")
    case True
    obtain ok w1 e1 where i: "worker_init a (k_power_gpio w) (w\<lparr>k_thermal_level := l\<rparr>, e) = (ok, w1, e1)"
      by (metis surj_pair)
    have "evolves w (w\<lparr>k_thermal_level := l\<rparr>)" by (simp add: evolves_def)
    also have "evolves \<dots> w1" using worker_init_evolves [of "w\<lparr>k_thermal_level := l\<rparr>" a "k_power_gpio w" e] i by simp
    finally have w1: "evolves w w1" .
    have "evolves w1 (w1\<lparr>k_powered_down := False\<rparr>)" by (simp add: evolves_def)
    also have "evolves \<dots> (fst (snd (applyConfig a (k_cfg w) (w1\<lparr>k_powered_down := False\<rparr>, e1))))"
      by (rule applyConfig_evolves)
    finally show ?thesis
      using True i w1 by (simp add: thermal_recover_def Let_def evolves_trans)
  qed (auto simp: thermal_recover_def; auto simp: evolves_def)
  show ?thesis using cut thr rec
    by (simp add: set_level_def Let_def) (simp add: evolves_def)
qed

lemma fan_dvfs_sel [simp, frame]:
  "k_tx_q (fst (fan_ctl a t x)) = k_tx_q (fst x)" "k_events (fst (fan_ctl a t x)) = k_events (fst x)"
  "k_cfg (fst (fan_ctl a t x)) = k_cfg (fst x)" "k_thermal_level (fst (fan_ctl a t x)) = k_thermal_level (fst x)"
  "k_tx_q (fst (dvfs_ctl a t x)) = k_tx_q (fst x)" "k_events (fst (dvfs_ctl a t x)) = k_events (fst x)"
  "k_cfg (fst (dvfs_ctl a t x)) = k_cfg (fst x)" "k_thermal_level (fst (dvfs_ctl a t x)) = k_thermal_level (fst x)"
  by (simp_all add: fan_ctl_def dvfs_ctl_def Let_def split: prod.splits)

lemma evolves_fan_dvfs [simp]:
  "evolves w (fst (fan_ctl a t x)) = evolves w (fst x)" "evolves w (fst (dvfs_ctl a t x)) = evolves w (fst x)"
  by (simp_all add: evolves_def)

text \<open>The two preparations of the sensor path (board power management, sensor device), then the reading.\<close>

definition sensor_prep :: "'e api \<Rightarrow> wk \<times> 'e \<Rightarrow> wk \<times> 'e" where
  "sensor_prep a = (\<lambda>(w, e).
     let x = (if k_pm_initialized w then (w, e)
              else (w\<lparr>k_dvfs_stage := 0, k_pm_initialized := True\<rparr>, a_pm_governor_auto a True (a_pm_shutdown a e)))
     in if k_fd_ts (fst x) < 0 then ((fst x)\<lparr>k_fd_ts := fst (a_open_ts a (snd x))\<rparr>, snd (a_open_ts a (snd x))) else x)"

lemma sensor_level_alt:
  "sensor_level a x =
     (let (w, e) = sensor_prep a x in
      if k_fd_ts w < 0 then (None, w, e)
      else
        let ((n, v), e) = a_read_ts a (k_fd_ts w) e;
            code = unat (v AND 0xFFF);
            t = ts_celsius code
        in if n > 0 \<and> 0 < code \<and> code < 4095 \<and> t > -20 \<and> t < 150 then
             (let (w, e) = dvfs_ctl a t (fan_ctl a t (w, e)) in (Some (next_level (k_thermal_level w) t), w, e))
           else (None, w, e))"
  by (cases x) (simp add: sensor_level_def sensor_prep_def Let_def case_prod_beta)

lemma sensor_level_cases:
  obtains "snd (sensor_level a x) = sensor_prep a x"
  | n v e where "a_read_ts a (k_fd_ts (fst (sensor_prep a x))) (snd (sensor_prep a x)) = ((n, v), e)"
      and "snd (sensor_level a x) = (fst (sensor_prep a x), e)"
  | n v e t where "a_read_ts a (k_fd_ts (fst (sensor_prep a x))) (snd (sensor_prep a x)) = ((n, v), e)"
      and "snd (sensor_level a x) = dvfs_ctl a t (fan_ctl a t (fst (sensor_prep a x), e))"
proof -
  obtain w e where p: "sensor_prep a x = (w, e)" by fastforce
  obtain n v e' where r: "a_read_ts a (k_fd_ts w) e = ((n, v), e')" by (metis surj_pair)
  have s: "snd (let (w, e) = y in (f w, w, e)) = y" for y :: "wk \<times> 'a" and f :: "wk \<Rightarrow> int option"
    by (cases y) simp
  show ?thesis
    using that unfolding sensor_level_alt p Let_def prod.case r fst_conv snd_conv
    by (cases "k_fd_ts w < 0"; cases "n > 0 \<and> 0 < unat (v AND 0xFFF) \<and> unat (v AND 0xFFF) < 4095
        \<and> ts_celsius (unat (v AND 0xFFF)) > -20 \<and> ts_celsius (unat (v AND 0xFFF)) < 150")
       (auto simp: s [unfolded Let_def])
qed

lemma sensor_prep_evolves: "evolves w (fst (sensor_prep a (w, e)))"
  by (simp add: sensor_prep_def Let_def) (simp add: evolves_def)

lemma sensor_level_evolves: "evolves w (fst (snd (sensor_level a (w, e))))"
  by (cases rule: sensor_level_cases [of a "(w, e)"]) (simp_all add: sensor_prep_evolves)

lemma thermalTick_evolves: "evolves w (fst (thermalTick a now (w, e)))"
proof (cases "k_last_thermal_ms w \<noteq> 0 \<and> now - k_last_thermal_ms w < 4000")
  case False
  let ?w = "w\<lparr>k_last_thermal_ms := now\<rparr>"
  have 0: "evolves w ?w" by (simp add: evolves_def)
  obtain os e1 where os: "os_level a e = (os, e1)" by fastforce
  obtain nl w2 e2 where sl: "sensor_level a (?w, e1) = (nl, w2, e2)" by (metis surj_pair)
  have w2: "evolves w w2" using 0 sensor_level_evolves [of ?w a e1] sl by (simp add: evolves_trans)
  have "evolves w (fst (set_level a l (?w, e1)))" "evolves w (fst (set_level a l (w2, e2)))" for l
    by (rule evolves_trans [OF 0 set_level_evolves], rule evolves_trans [OF w2 set_level_evolves])
  then show ?thesis
    using False os sl w2 by (simp add: thermalTick_def Let_def split: option.splits)
qed (simp add: thermalTick_def)

section \<open>Transmission and reception\<close>

lemma send_packets_keeps:
  "send_packets k a payload crc bid n idx pkt (w, e) = Some (err, w', e') \<Longrightarrow> keeps w w'"
proof (induction k arbitrary: idx pkt w e)
  case (Suc k)
  from Suc.prems show ?case
    by (auto split: bind_splits if_splits prod.splits dest!: Suc.IH)
qed simp

lemma transmitBurst_keeps: "transmitBurst a payload (w, e) = Some (err, w', e') \<Longrightarrow> keeps w w'"
  unfolding transmitBurst_def Let_def prod.case
  by (auto split: if_splits prod.splits dest!: send_packets_keeps) (simp add: keeps_def)

text \<open>Serving the queue swaps a queued frame for its terminal.\<close>

lemma serviceTxQueue_evolves: "serviceTxQueue a (w, e) = Some (w', e') \<Longrightarrow> evolves w w'"
proof (cases "role (k_cfg w) = 2 \<or> k_scan_active w \<or> k_thermal_level w \<ge> 2 \<or> k_tx_q w = []")
  case False
  assume run: "serviceTxQueue a (w, e) = Some (w', e')"
  obtain frame rest where q: "k_tx_q w = frame # rest" using False by (cases "k_tx_q w") auto
  let ?w1 = "upd_st (\<lambda>c. c\<lparr>pending_tx_valid := (if rest \<noteq> [] then 1 else 0), burst_mode := 2\<rparr>) (w\<lparr>k_tx_q := rest\<rparr>)"
  obtain err w2 e2 where tb: "transmitBurst a frame (?w1, r_standby a e) = Some (err, w2, e2)"
    and w': "w' = emit (OnTerminal (if err = None then kOk else kDropped))
               (fst (armReceive a (upd_st (\<lambda>c. c\<lparr>burst_mode := 0\<rparr>) w2, e2)))"
    using run False q unfolding serviceTxQueue_def prod.case Let_def
    by (auto split: bind_splits prod.splits)
  have "k_tx_q w2 = rest" "k_events w2 = k_events w" "k_cfg w2 = k_cfg w"
    using transmitBurst_keeps [OF tb] by (simp_all add: keeps_def)
  then show ?thesis using q by (simp add: w' evolves_def)
qed (auto simp: serviceTxQueue_def split: list.splits if_splits)

lemma tally_keeps: "keeps w (tally_scan p r w)"
  by (simp add: tally_scan_def keeps_def)

lemma rx_ready_nothing: "rx_ready a irq (L, e) = (b, L', e') \<Longrightarrow> l_queue L' = l_queue L"
  by (auto simp: rx_ready_def Let_def split: prod.splits if_splits)

lemma count_error_keeps [simp]: "keeps w (count_error irq al w')  = keeps w w'"
  by (simp add: count_error_def)

lemma keeps_arm [simp]: "keeps w (fst (armReceive a x)) = keeps w (fst x)"
  by (simp add: keeps_def)

lemma keeps_tally [simp]: "keeps w (tally_scan p r w') = keeps w w'"
  by (simp add: tally_scan_def keeps_def)

lemma rx_fetch_keeps: "keeps w (fst (snd (snd (rx_fetch a (L, w, e)))))"
proof -
  obtain irq e1 where 1: "r_get_clear_IrqStatus a e = (irq, e1)" by fastforce
  obtain b L1 e2 where 2: "rx_ready a irq (L, e1) = (b, L1, e2)" by (metis surj_pair)
  obtain lvl e3 where 3: "r_getRxFifoLevel a e2 = (lvl, e3)" by fastforce
  obtain raw e4 where 4: "r_rssi_raw a e3 = (raw, e4)" by fastforce
  obtain pkt st e5 where 5: "r_readData a (unat kPacketPayload) e4 = ((pkt, st), e5)" by (metis surj_pair)
  show ?thesis
    unfolding rx_fetch_def Let_def prod.case 1 2 3 4 5 by simp
qed

lemma evolves_emit_rx: "evolves w w' \<Longrightarrow> evolves w (emit_rx q w')"
  by (erule evolves_trans) (simp add: evolves_def emit_rx_def)

lemma rx_tail_evolves: "evolves u w \<Longrightarrow> evolves u (fst (snd (rx_tail a (L, w, e))))"
proof -
  assume uw: "evolves u w"
  obtain now e1 where 1: "worker_nowMs a e = (now, e1)" by fastforce
  show ?thesis
    unfolding rx_tail_def Let_def prod.case 1 using uw by (simp add: case_prod_beta evolves_emit_rx)
qed

lemma rx_packet_evolves: "evolves u w \<Longrightarrow> evolves u (fst (snd (rx_packet a pkt rssi (L, w, e))))"
proof -
  assume uw: "evolves u w"
  obtain fb hdr where 0: "decode_header pkt header0 = (fb, hdr)" by fastforce
  obtain now e1 where 1: "worker_nowMs a e = (now, e1)" by fastforce
  obtain lvl e2 where 2: "r_getRxFifoLevel a e = (lvl, e2)" by fastforce
  obtain now' e3 where 3: "worker_nowMs a e2 = (now', e3)" by fastforce
  show ?thesis
    unfolding rx_packet_def Let_def prod.case 0 1 2 3 using uw
    by (simp add: case_prod_beta rx_tail_evolves evolves_emit_rx)
qed

lemma rx_loop_evolves: "rx_loop k a (L, w, e) = Some (w', e') \<Longrightarrow> evolves w w'"
proof (induction k arbitrary: L w e)
  case (Suc k)
  obtain r w1 e1 where step: "rx_step a (L, w, e) = (r, w1, e1)" by (metis surj_pair)
  obtain got L2 w2 e2 where fetch: "rx_fetch a (L, w, e) = (got, L2, w2, e2)" by (metis surj_pair)
  have w2: "evolves w w2" using keeps_evolves [OF rx_fetch_keeps [of w a L e]] fetch by simp
  have w1: "evolves w w1"
  proof (cases got)
    case None
    then show ?thesis using step fetch rx_tail_evolves [OF w2, of a L2 e2] by (simp add: rx_step_def)
  next
    case (Some x)
    then show ?thesis using step fetch rx_packet_evolves [OF w2, of a "fst x" "snd x" L2 e2]
      by (simp add: rx_step_def case_prod_beta)
  qed
  show ?case
  proof (cases r)
    case Leave
    then show ?thesis using Suc.prems step w1 by simp
  next
    case (Again L')
    then have "evolves w1 w'" using Suc.prems step by (intro Suc.IH [of L' w1 e1]) simp
    with w1 show ?thesis by (rule evolves_trans)
  qed
qed simp

lemma worker_pollOnce_evolves:
  assumes "worker_pollOnce a (w, e) = Some (w', e')"
  shows "evolves w w'"
proof -
  obtain now e1 where 1: "worker_nowMs a e = (now, e1)" by fastforce
  obtain w2 e2 where 2: "thermalTick a now (w, e1) = (w2, e2)" by fastforce
  obtain w3 e3 where 3: "(if k_scan_active w2 then scanTick a now (w2, e2) else (w2, e2)) = (w3, e3)" by fastforce
  have w2: "evolves w w2" using thermalTick_evolves [of w a now e1] 2 by simp
  have "evolves w2 w3" using scanTick_evolves [of w2 a now e2] 3 by (auto split: if_splits)
  with w2 have w3: "evolves w w3" by (rule evolves_trans)
  have tx: "evolves w w''" if "serviceTxQueue a (v, f) = Some (w'', f')" "evolves w v" for v f w'' f'
    by (rule evolves_trans [OF that(2) serviceTxQueue_evolves [OF that(1)]])
  have rx: "evolves w v" if "rx_loop k a (rxl0, w3, e3) = Some (v, f)" for k v f
    using evolves_trans [OF w3 rx_loop_evolves [OF that]] .
  show ?thesis
    using assms unfolding worker_pollOnce_def Let_def prod.case 1 2 3
    using w2 w3 tx rx by (auto split: if_splits bind_splits)
qed

section \<open>The worker as a state machine\<close>

text \<open>
  States are the frames accepted so far, the worker and its environment.  Callers may invoke any
  operation at any time, and chip and board may change on their own.
\<close>

inductive wstep :: "'e api \<Rightarrow> bytes list \<times> wk \<times> 'e \<Rightarrow> bytes list \<times> wk \<times> 'e \<Rightarrow> bool" for a where
  accept: "enqueueTx p w = (kOk, w') \<Longrightarrow> wstep a (fs, w, e) (fs @ [p], w', e)"
| refuse: "enqueueTx p w = (t, w') \<Longrightarrow> t \<noteq> kOk \<Longrightarrow> wstep a (fs, w, e) (fs, w', e)"
| config: "applyConfig a c (w, e) = (err, w', e') \<Longrightarrow> wstep a (fs, w, e) (fs, w', e')"
| scan: "startScan a p (w, e) = (w', e') \<Longrightarrow> wstep a (fs, w, e) (fs, w', e')"
| counters: "snapshot t w = (c, w') \<Longrightarrow> wstep a (fs, w, e) (fs, w', e)"
| poll: "worker_pollOnce a (w, e) = Some (w', e') \<Longrightarrow> wstep a (fs, w, e) (fs, w', e')"
| outside: "wstep a (fs, w, e) (fs, w, e')"

inductive_cases wstepE: "wstep a (fs, w, e) (fs', w', e')"

inductive wreach :: "'e api \<Rightarrow> bytes list \<times> wk \<times> 'e \<Rightarrow> bool" for a where
  boot: "worker_init a 44 (wk0, e) = (ok, w, e') \<Longrightarrow> wreach a ([], w, e')"
| step: "wreach a x \<Longrightarrow> wstep a x y \<Longrightarrow> wreach a y"

definition wk_inv :: "bytes list \<Rightarrow> wk \<Rightarrow> bool" where
  "wk_inv fs w \<longleftrightarrow> k_tx_q w = drop (terminals (k_events w)) fs \<and> terminals (k_events w) \<le> length fs
     \<and> length (k_tx_q w) \<le> 16 \<and> sint (tx_power_dbm (k_cfg w)) \<le> 10"

lemma wk_inv_evolves: "wk_inv fs w \<Longrightarrow> evolves w w' \<Longrightarrow> wk_inv fs w'"
  by (auto simp: wk_inv_def evolves_def add.commute)

lemma enqueue_cases:
  assumes "enqueueTx p w = (t, w')"
  shows "t = kOk \<and> length (k_tx_q w) < 16 \<and> k_tx_q w' = k_tx_q w @ [p] \<and> k_events w' = k_events w \<and> k_cfg w' = k_cfg w
    \<or> t = kBusy \<and> k_tx_q w' = k_tx_q w \<and> k_events w' = k_events w \<and> k_cfg w' = k_cfg w"
  using assms by (auto simp: enqueueTx_def not_le split: if_splits)

lemma wstep_inv: "wstep a (fs, w, e) (fs', w', e') \<Longrightarrow> wk_inv fs w \<Longrightarrow> wk_inv fs' w'"
proof (erule wstepE)
  fix p assume "wk_inv fs w" "enqueueTx p w = (kOk, w')" "fs' = fs @ [p]"
  then show ?thesis using enqueue_cases [of p w kOk w'] by (auto simp: wk_inv_def)
next
  fix p t assume "wk_inv fs w" "enqueueTx p w = (t, w')" "t \<noteq> kOk" "fs' = fs"
  then show ?thesis using enqueue_cases [of p w t w'] by (auto simp: wk_inv_def)
next
  fix c err assume "wk_inv fs w" "applyConfig a c (w, e) = (err, w', e')" "fs' = fs"
  then show ?thesis using wk_inv_evolves applyConfig_evolves [of w a c e] by simp
next
  fix p assume "wk_inv fs w" "startScan a p (w, e) = (w', e')" "fs' = fs"
  then show ?thesis using wk_inv_evolves startScan_evolves [of w a p e] by simp
next
  fix t c assume "wk_inv fs w" "snapshot t w = (c, w')" "fs' = fs"
  then show ?thesis by (auto simp: snapshot_def wk_inv_def Let_def)
next
  assume "wk_inv fs w" "worker_pollOnce a (w, e) = Some (w', e')" "fs' = fs"
  then show ?thesis using wk_inv_evolves [of fs w w'] worker_pollOnce_evolves [of a w e w' e'] by simp
qed simp_all

lemma wreach_inv: "wreach a (fs, w, e) \<Longrightarrow> wk_inv fs w"
proof (induction "(fs, w, e)" arbitrary: fs w e rule: wreach.induct)
  case (boot e0 ok)
  have "wk_inv [] wk0" by (simp add: wk_inv_def wk0_def config0_def)
  then show ?case using wk_inv_evolves worker_init_evolves [of wk0 a 44 e0] boot by simp
next
  case (step x)
  obtain fs0 w0 e0 where "x = (fs0, w0, e0)" by (metis surj_pair)
  then show ?case using step wstep_inv [of a fs0 w0 e0 fs w e] by simp
qed


end
