(* ===== verification/Air.thy ===== *)
theory Air
  imports WorkerInv
begin

text \<open>
  Transmission of a burst over the air.  First the timing argument: with a clock that advances while
  the worker sleeps, every TX_DONE wait ends within its 25 ms whatever the chip answers, so a burst
  transmission always returns.  Then, with a chip that keeps its documented TX contract, a burst is
  put on the air completely and in order.
\<close>

section \<open>Milliseconds\<close>

definition ms :: "nat \<Rightarrow> nat" where
  "ms ns = ns div 1000000"

lemma clock_ms: "ns div 1000000000 * 1000 + ns mod 1000000000 div 1000000 = ms ns"
proof -
  have "ns = ns mod 1000000000 + (ns div 1000000000 * 1000) * 1000000" by simp
  then have "ms ns = (ns mod 1000000000 + (ns div 1000000000 * 1000) * 1000000) div 1000000" by (simp add: ms_def)
  also have "\<dots> = ns div 1000000000 * 1000 + ns mod 1000000000 div 1000000" by (rule div_mult_self1) simp
  finally show ?thesis by simp
qed

lemma ms_mono: "x \<le> y \<Longrightarrow> ms x \<le> ms y"
  by (simp add: ms_def div_le_mono)

text \<open>The wrapped comparison is the real one as long as the two times are less than 24 days apart.\<close>

lemma unat_neg32:
  assumes "0 < y" and "y \<le> 2 ^ 31"
  shows "unat (- of_nat y :: u32) = 4294967296 - y"
proof -
  have z: "(of_nat 4294967296 :: u32) = 0" by simp
  have "(of_nat (4294967296 - y) :: u32) = of_nat 4294967296 - of_nat y"
    by (rule of_nat_diff) (use assms in simp)
  then have "(of_nat (4294967296 - y) :: u32) = - of_nat y" unfolding z by simp
  then have "unat (- of_nat y :: u32) = unat (of_nat (4294967296 - y) :: u32)" by simp
  also have "\<dots> = (4294967296 - y) mod 4294967296" by (simp add: unat_of_nat)
  also have "\<dots> = 4294967296 - y" by (rule mod_less) (use assms in simp)
  finally show ?thesis .
qed

lemma before_of_nat:
  assumes "x < d + 2 ^ 31" and "d \<le> x + 2 ^ 31"
  shows "before (of_nat x) (of_nat d) \<longleftrightarrow> x < d"
proof (cases "x < d")
  case True
  have "(of_nat (d - x) :: u32) = of_nat d - of_nat x" by (rule of_nat_diff) (use True in simp)
  then have eq: "(of_nat x - of_nat d :: u32) = - of_nat (d - x)" by simp
  have "unat (- of_nat (d - x) :: u32) = 4294967296 - (d - x)"
    by (rule unat_neg32) (use True assms in simp_all)
  moreover have "2 ^ 31 \<le> 4294967296 - (d - x)" using assms(2) by simp
  ultimately show ?thesis using True unfolding before_iff_unat eq by simp
next
  case False
  have eq: "(of_nat x - of_nat d :: u32) = of_nat (x - d)" by (rule of_nat_diff [symmetric]) (use False in simp)
  have lt: "x - d < 2 ^ 31" using False assms(1) by simp
  have "unat (of_nat (x - d) :: u32) = (x - d) mod 4294967296" by (simp add: unat_of_nat)
  also have "\<dots> = x - d" by (rule mod_less) (use lt in simp)
  finally show ?thesis using False lt unfolding before_iff_unat eq by simp
qed

section \<open>A clock that advances\<close>

text \<open>
  \<open>t e\<close> is the monotonic time in nanoseconds.  Reading the IRQ status takes at most a second; the
  100 microsecond pause takes at least its length and at most a second more.
\<close>

definition ticking :: "'e api \<Rightarrow> ('e \<Rightarrow> nat) \<Rightarrow> bool" where
  "ticking a t \<longleftrightarrow>
     (\<forall>e. a_clock a e = ((t e div 1000000000, t e mod 1000000000), e))
   \<and> (\<forall>e. t e \<le> t (snd (r_get_clear_IrqStatus a e)) \<and> t (snd (r_get_clear_IrqStatus a e)) \<le> t e + 1000000000)
   \<and> (\<forall>e. t e + 100000 \<le> t (a_busy_wait a 2700 e) \<and> t (a_busy_wait a 2700 e) \<le> t e + 1000000000)
   \<and> a_fuel a \<ge> 262"

lemma nowMs_ticking: "ticking a t \<Longrightarrow> worker_nowMs a e = (of_nat (ms (t e)), e)"
  by (simp add: ticking_def worker_nowMs_def clock_ms del: of_nat_add of_nat_mult)

lemma sleep100 [simp]: "sleepUs a 100 e = a_busy_wait a 2700 e"
  by (simp add: sleepUs_def)

lemma poll_tx_returns:
  assumes "ticking a t"
  shows "d * 1000000 \<le> t e + k * 100000 \<Longrightarrow> ms (t e) \<le> d + 3000 \<Longrightarrow> d \<le> ms (t e) + 3000 \<Longrightarrow>
    runs (poll_tx (Suc k) a (of_nat d) e)"
proof (induction k arbitrary: e)
  case 0
  then have "d \<le> ms (t e)" by (simp add: ms_def)
  then have "\<not> before (of_nat (ms (t e))) (of_nat d)" using 0 by (subst before_of_nat) auto
  then show ?case using nowMs_ticking [OF assms, of e] by simp
next
  case (Suc k)
  show ?case
  proof (cases "ms (t e) < d")
    case False
    then have "\<not> before (of_nat (ms (t e))) (of_nat d)" using Suc.prems by (subst before_of_nat) auto
    then show ?thesis using nowMs_ticking [OF assms, of e] by simp
  next
    case True
    obtain irq e1 where i: "r_get_clear_IrqStatus a e = (irq, e1)" by fastforce
    let ?e2 = "a_busy_wait a 2700 e1"
    have t1: "t e \<le> t e1" "t e1 \<le> t e + 1000000000" using assms i unfolding ticking_def by (metis snd_conv)+
    have t2: "t e1 + 100000 \<le> t ?e2" "t ?e2 \<le> t e1 + 1000000000" using assms unfolding ticking_def by auto
    have "d * 1000000 \<le> t ?e2 + k * 100000" using Suc.prems(1) t1 t2 by simp
    moreover have "ms (t ?e2) \<le> d + 3000" "d \<le> ms (t ?e2) + 3000"
      using t1 t2 True Suc.prems(3) unfolding ms_def by linarith+
    ultimately have "runs (poll_tx (Suc k) a (of_nat d) ?e2)" by (rule Suc.IH)
    then show ?thesis
      using nowMs_ticking [OF assms, of e] i by (simp add: poll_tx.simps(2) [of "Suc k"] Let_def)
  qed
qed

lemma poll_tx_fuel:
  assumes "ticking a t"
  shows "runs (poll_tx (a_fuel a) a (of_nat (ms (t e)) + 25) e)"
proof -
  obtain k where k: "a_fuel a = Suc k" "261 \<le> k"
    using assms by (cases "a_fuel a") (auto simp: ticking_def)
  have "(ms (t e) + 25) * 1000000 \<le> t e + k * 100000"
    using k(2) by (simp add: ms_def)
  then show ?thesis
    using poll_tx_returns [OF assms, of "ms (t e) + 25" e k] k by simp
qed

lemma send_attempts_runs: "ticking a t \<Longrightarrow> runs (send_attempts n retry a pkt e)"
proof (induction n arbitrary: retry e)
  case (Suc n)
  obtain st e1 where st: "r_startTransmit a pkt (if retry then sleepUs a 500 (r_standby a e) else e) = (st, e1)"
    by fastforce
  show ?case
    using poll_tx_fuel [OF Suc.prems, of e1] Suc.IH [OF Suc.prems]
    by (auto simp: st Let_def nowMs_ticking [OF Suc.prems] intro!: runs_bind)
qed simp

lemma rd_whole [simp]: "rd_slice 0 (length b) b = Some b"
  by (simp add: rd_slice_def)

lemma send_packets_runs:
  assumes "ticking a t" and "length payload \<le> 24576" and "unat idx + k \<le> unat (burst_total (length payload))"
    and "length pkt = 511"
  shows "runs (send_packets k a payload crc bid n_total idx pkt (w, e))"
  using assms(3,4)
proof (induction k arbitrary: idx pkt w e)
  case (Suc k)
  have lt: "unat idx < unat (burst_total (length payload))" using Suc.prems by simp
  have enc: "encode_packet pkt bid idx n_total payload (of_nat (length payload)) crc =
      Some (air_packet \<lparr>h_magic = kMagic, h_burst_id = bid, h_packet_idx = idx, h_total_packets = n_total,
            h_total_payload_len = of_nat (length payload), h_payload_crc32 = crc\<rparr> (chunk 495 (unat idx) payload), 511)"
    (is "_ = Some (?p, _)")
    using Suc.prems(2) assms(2) burst_total_covers [OF assms(2) lt] by (intro encode_packet_eq) (simp_all add: unat_of_nat)
  have len: "length ?p = 511" by (simp add: air_packet_def chunk_def)
  have inc: "unat (idx + 1) = Suc (unat idx)"
    using lt burst_total_le [OF assms(2)] by (simp add: unat_word_ariths)
  have rec: "runs (send_packets k a payload crc bid n_total (idx + 1) ?p (w', e'))" for w' e'
    using Suc.prems(1) inc len by (intro Suc.IH) simp_all
  have rd: "rd_slice 0 511 ?p = Some ?p" using rd_whole [of ?p] len by simp
  show ?case
    using send_attempts_runs [OF assms(1)] rec by (auto simp: enc rd intro!: runs_bind)
qed simp

lemma burst_total_small:
  assumes "\<not> (burst_total n = 0 \<or> burst_total n > kMaxPackets \<or> n > unat kMaxTotalPayload)"
  shows "n \<le> 24576"
  using assms by (simp add: kMaxTotalPayload_def not_less)

text \<open>
  C6: a burst transmission always returns and stays inside its buffers.  Whatever payload is handed
  over (of any length) and whatever the chip answers, as long as the clock advances,
  \<open>transmitBurst\<close> finishes: each wait for TX_DONE ends at its 25 ms deadline after at most 262 polls,
  there are at most three attempts per packet and 50 packets, and the packet encoder never leaves the
  payload or the 511-byte packet buffer.
\<close>

theorem transmitBurst_returns:
  assumes "ticking a t"
  shows "\<exists>err w' e'. transmitBurst a payload (w, e) = Some (err, w', e')"
proof -
  obtain sec nsec e1 where c: "a_clock a e = ((sec, nsec), e1)" by (metis surj_pair)
  have "runs (transmitBurst a payload (w, e))"
    unfolding transmitBurst_def Let_def prod.case c
    by (auto simp: burst_total_small intro!: send_packets_runs [OF assms])
  then show ?thesis by (auto simp: runs_def)
qed

section \<open>A chip that keeps its TX contract\<close>

text \<open>
  \<open>sent e\<close> is what has been on the air, \<open>done_at e\<close> when the running transmission ends.  The chip
  accepts every packet, finishes it within 20 ms and then raises TX_DONE; polling the status takes at
  most 100 microseconds, a 100 microsecond pause at most a millisecond.
\<close>

definition tx_chip :: "'e api \<Rightarrow> ('e \<Rightarrow> nat) \<Rightarrow> ('e \<Rightarrow> nat) \<Rightarrow> ('e \<Rightarrow> bytes list) \<Rightarrow> bool" where
  "tx_chip a t done_at sent \<longleftrightarrow> ticking a t
   \<and> (\<forall>p e. fst (r_startTransmit a p e) = 0 \<and> sent (snd (r_startTransmit a p e)) = sent e @ [p]
        \<and> done_at (snd (r_startTransmit a p e)) \<le> t (snd (r_startTransmit a p e)) + 20000000)
   \<and> (\<forall>e. sent (snd (r_get_clear_IrqStatus a e)) = sent e
        \<and> done_at (snd (r_get_clear_IrqStatus a e)) = done_at e
        \<and> t (snd (r_get_clear_IrqStatus a e)) \<le> t e + 100000
        \<and> fst (r_get_clear_IrqStatus a e) AND IRQ_TIMEOUT = 0
        \<and> (fst (r_get_clear_IrqStatus a e) AND IRQ_TX_DONE \<noteq> 0 \<longleftrightarrow> done_at e \<le> t e))
   \<and> (\<forall>e. t (a_busy_wait a 2700 e) \<le> t e + 1000000 \<and> done_at (a_busy_wait a 2700 e) = done_at e)
   \<and> (\<forall>n e. sent (a_busy_wait a n e) = sent e) \<and> (\<forall>e. sent (r_finishTransmit a e) = sent e)"

lemma poll_tx_done:
  assumes "tx_chip a t done_at sent"
  shows "poll_tx k a (of_nat d) e = Some (r, e') \<Longrightarrow> t e < d * 1000000 \<Longrightarrow> d \<le> ms (t e) + 3000 \<Longrightarrow>
    done_at e + 2000000 \<le> d * 1000000 \<Longrightarrow> r \<and> sent e' = sent e"
proof (induction k arbitrary: e)
  case (Suc k)
  have tick: "ticking a t" using assms by (simp add: tx_chip_def)
  obtain irq e1 where i: "r_get_clear_IrqStatus a e = (irq, e1)" by fastforce
  have irq: "sent e1 = sent e" "done_at e1 = done_at e" "t e1 \<le> t e + 100000" "t e \<le> t e1"
      "irq AND IRQ_TIMEOUT = 0" "irq AND IRQ_TX_DONE \<noteq> 0 \<longleftrightarrow> done_at e \<le> t e"
    using assms tick i unfolding tx_chip_def ticking_def by (metis fst_conv snd_conv)+
  have lt: "ms (t e) < d" using Suc.prems(2) by (simp add: ms_def)
  have "before (of_nat (ms (t e))) (of_nat d)" using lt Suc.prems(3) by (subst before_of_nat) auto
  then have step: "poll_tx (Suc k) a (of_nat d) e =
      (if irq AND IRQ_TX_DONE \<noteq> 0 then Some (True, e1) else poll_tx k a (of_nat d) (a_busy_wait a 2700 e1))"
    using nowMs_ticking [OF tick, of e] i irq(5) by (simp add: Let_def)
  show ?case
  proof (cases "done_at e \<le> t e")
    case True
    then show ?thesis using Suc.prems(1) step irq(1,6) by simp
  next
    case False
    let ?e2 = "a_busy_wait a 2700 e1"
    have w: "t ?e2 \<le> t e1 + 1000000" "t e1 + 100000 \<le> t ?e2" "done_at ?e2 = done_at e1" "sent ?e2 = sent e1"
      using assms tick unfolding tx_chip_def ticking_def by blast+
    have "poll_tx k a (of_nat d) ?e2 = Some (r, e')" using Suc.prems(1) step irq(6) False by simp
    moreover have "t ?e2 < d * 1000000" using w irq False Suc.prems(4) by simp
    moreover have "d \<le> ms (t ?e2) + 3000" using Suc.prems(3) ms_mono [of "t e" "t ?e2"] w irq by simp
    moreover have "done_at ?e2 + 2000000 \<le> d * 1000000" using w irq Suc.prems(4) by simp
    ultimately have "r \<and> sent e' = sent ?e2" by (rule Suc.IH)
    then show ?thesis using w irq by simp
  qed
qed simp

lemma send_attempts_done:
  assumes "tx_chip a t done_at sent"
  shows "\<exists>e'. send_attempts (Suc n) False a pkt e = Some (True, e') \<and> sent e' = sent e @ [pkt]"
proof -
  have tick: "ticking a t" using assms by (simp add: tx_chip_def)
  obtain st e1 where s: "r_startTransmit a pkt e = (st, e1)" by fastforce
  have st: "st = 0" "sent e1 = sent e @ [pkt]" "done_at e1 \<le> t e1 + 20000000"
    using assms s unfolding tx_chip_def by (metis fst_conv snd_conv)+
  obtain r e2 where p: "poll_tx (a_fuel a) a (of_nat (ms (t e1) + 25)) e1 = Some (r, e2)"
    using poll_tx_fuel [OF tick, of e1] by (auto simp: runs_def)
  have lo: "t e1 < (ms (t e1) + 1) * 1000000"
    using dividend_less_times_div [of 1000000 "t e1"] by (simp add: ms_def algebra_simps)
  have "r \<and> sent e2 = sent e1"
    by (rule poll_tx_done [OF assms p]) (use st(3) lo in simp_all)
  moreover have "sent (r_finishTransmit a e2) = sent e2" using assms unfolding tx_chip_def by blast
  ultimately show ?thesis
    using s st p nowMs_ticking [OF tick, of e1] by (simp add: Let_def)
qed

text \<open>The packets of a burst as they go on the air.\<close>

definition burst_header :: "u16 \<Rightarrow> bytes \<Rightarrow> nat \<Rightarrow> header" where
  "burst_header bid payload i = \<lparr>h_magic = kMagic, h_burst_id = bid, h_packet_idx = of_nat i,
     h_total_packets = burst_total (length payload), h_total_payload_len = of_nat (length payload),
     h_payload_crc32 = crc32 payload\<rparr>"

definition burst_packets :: "u16 \<Rightarrow> bytes \<Rightarrow> bytes list" where
  "burst_packets bid payload = map (\<lambda>i. air_packet (burst_header bid payload i) (chunk 495 i payload))
     [0..<unat (burst_total (length payload))]"

lemma send_packets_done:
  assumes "tx_chip a t done_at sent" and "length payload \<le> 24576"
    and "unat idx + k \<le> unat (burst_total (length payload))" and "length pkt = 511"
  shows "\<exists>w' e'. send_packets k a payload (crc32 payload) bid (burst_total (length payload)) idx pkt (w, e)
      = Some (None, w', e')
    \<and> sent e' = sent e @ map (\<lambda>i. air_packet (burst_header bid payload i) (chunk 495 i payload)) [unat idx..<unat idx + k]
    \<and> packets_tx (k_st w') = packets_tx (k_st w) + of_nat k \<and> bursts_tx (k_st w') = bursts_tx (k_st w)"
  using assms(3,4)
proof (induction k arbitrary: idx pkt w e)
  case (Suc k)
  let ?n = "burst_total (length payload)"
  have lt: "unat idx < unat ?n" using Suc.prems by simp
  let ?p = "air_packet (burst_header bid payload (unat idx)) (chunk 495 (unat idx) payload)"
  have idx: "(of_nat (unat idx) :: u16) = idx" by simp
  have enc: "encode_packet pkt bid idx ?n payload (of_nat (length payload)) (crc32 payload) = Some (?p, 511)"
    unfolding burst_header_def idx
    using Suc.prems(2) assms(2) burst_total_covers [OF assms(2) lt]
    by (intro encode_packet_eq) (simp_all add: unat_of_nat)
  have len: "length ?p = 511" by (simp add: air_packet_def chunk_def)
  have inc: "unat (idx + 1) = Suc (unat idx)"
    using lt burst_total_le [OF assms(2)] by (simp add: unat_word_ariths)
  have rd: "rd_slice 0 511 ?p = Some ?p" using rd_whole [of ?p] len by simp
  obtain e1 where e1: "send_attempts 3 False a ?p e = Some (True, e1)" "sent e1 = sent e @ [?p]"
    using send_attempts_done [OF assms(1), of 2 ?p e] by (auto simp: numeral_3_eq_3 numeral_2_eq_2)
  let ?w = "upd_st (\<lambda>c. c\<lparr>packets_tx := packets_tx c + 1\<rparr>) w" and ?e = "sleepUs a 220 e1"
  have sl: "sent ?e = sent e1" using assms(1) by (simp add: tx_chip_def sleepUs_def)
  obtain w' e' where "send_packets k a payload (crc32 payload) bid ?n (idx + 1) ?p (?w, ?e) = Some (None, w', e')"
      "sent e' = sent ?e @ map (\<lambda>i. air_packet (burst_header bid payload i) (chunk 495 i payload))
         [unat (idx + 1)..<unat (idx + 1) + k]"
      "packets_tx (k_st w') = packets_tx (k_st ?w) + of_nat k" "bursts_tx (k_st w') = bursts_tx (k_st ?w)"
    using Suc.IH [of "idx + 1" ?p ?w ?e] Suc.prems(1) inc len by auto
  moreover have "[unat idx..<unat idx + Suc k] = unat idx # [unat (idx + 1)..<unat (idx + 1) + k]"
    unfolding inc by (simp add: upt_conv_Cons del: upt_Suc)
  ultimately show ?case
    using enc rd e1 sl by (auto simp del: upt_Suc)
qed simp

lemma burst_airs:
  assumes "tx_chip a t done_at sent" and "payload \<noteq> []" and "length payload \<le> 24576"
  shows "\<exists>bid w' e'. transmitBurst a payload (w, e) = Some (None, w', e') \<and> bid \<noteq> 0
    \<and> sent e' = sent e @ burst_packets bid payload
    \<and> packets_tx (k_st w') = packets_tx (k_st w) + ucast (burst_total (length payload))
    \<and> bursts_tx (k_st w') = bursts_tx (k_st w) + 1"
proof -
  have tick: "ticking a t" using assms by (simp add: tx_chip_def)
  let ?n = "burst_total (length payload)"
  have clk: "a_clock a e = ((t e div 1000000000, t e mod 1000000000), e)"
    using tick by (simp add: ticking_def)
  let ?bid = "burst_id_of (t e div 1000000000) (t e mod 1000000000) (k_burst_ctr w)"
  let ?w = "upd_st (\<lambda>c. c\<lparr>bursts_tx := bursts_tx c + 1\<rparr>) (w\<lparr>k_burst_ctr := k_burst_ctr w + 1\<rparr>)"
  have pos: "0 < unat ?n"
    using assms(2,3) by (cases payload) (simp_all add: unat_burst_total div_greater_zero_iff)
  have le: "unat ?n \<le> 50" by (rule burst_total_le [OF assms(3)])
  then have ok: "\<not> (?n = 0 \<or> ?n > kMaxPackets \<or> length payload > unat kMaxTotalPayload)"
    using assms(3) pos by (auto simp: const_vals word_less_nat_alt)
  have nz: "?bid \<noteq> 0" by (simp add: burst_id_of_def Let_def)
  obtain w' e' where "send_packets (unat ?n) a payload (crc32 payload) ?bid ?n 0 (replicate 511 0) (?w, e) = Some (None, w', e')"
      "sent e' = sent e @ burst_packets ?bid payload"
      "packets_tx (k_st w') = packets_tx (k_st ?w) + of_nat (unat ?n)" "bursts_tx (k_st w') = bursts_tx (k_st ?w)"
    using send_packets_done [OF assms(1,3), of 0 "unat ?n" "replicate 511 0" ?bid ?w e]
    by (auto simp: burst_packets_def)
  then show ?thesis
    using ok clk nz by (intro exI [of _ ?bid] exI [of _ w'] exI [of _ e'])
      (simp add: transmitBurst_def)
qed

text \<open>
  C8: a burst is transmitted completely and in order.  With a chip that accepts packets and reports
  TX_DONE within 20 ms, \<open>transmitBurst\<close> of a payload of 1 to 24576 bytes succeeds, and exactly the
  packets of the payload (first to last, each once, 511 bytes, under one nonzero burst id) have been
  put on the air; the packet counter grows by their number and the burst counter by one.
\<close>

theorem transmitBurst_complete:
  assumes "tx_chip a t done_at sent" and "payload \<noteq> []" and "length payload \<le> 24576"
  shows "\<exists>bid w' e'. transmitBurst a payload (w, e) = Some (None, w', e') \<and> bid \<noteq> 0
    \<and> sent e' = sent e @ burst_packets bid payload
    \<and> packets_tx (k_st w') = packets_tx (k_st w) + ucast (burst_total (length payload))
    \<and> bursts_tx (k_st w') = bursts_tx (k_st w) + 1"
  by (rule burst_airs [OF assms])

end
