(* ===== verification/Reception.thy ===== *)
theory Reception
  imports Air
begin

text \<open>
  Reception of a burst: with a chip that keeps its RX FIFO contract the receive loop of
  \<open>pollOnce\<close> delivers the packets of a burst to the serial server completely and in order, and what one
  node transmits another one delivers: the payload can be put together from the delivered packets.
\<close>

section \<open>A chip that keeps its RX contract\<close>

text \<open>
  \<open>fifo e\<close> is the sequence of packets received and not yet read.  No error is flagged, RX_DONE only
  while a packet is waiting (it may be lost for later packets of a burst: the loop then looks at
  the FIFO level), the level is a whole packet while one is waiting, and reading pops the oldest.
\<close>

definition rx_chip :: "'e api \<Rightarrow> ('e \<Rightarrow> bytes list) \<Rightarrow> bool" where
  "rx_chip a fifo \<longleftrightarrow>
     (\<forall>e. snd (a_clock a e) = e)
   \<and> (\<forall>e. fifo (snd (r_get_clear_IrqStatus a e)) = fifo e
        \<and> fst (r_get_clear_IrqStatus a e) AND (IRQ_CRC_ERROR OR IRQ_LEN_ERROR OR IRQ_LORA_HEADER_ERROR OR IRQ_TIMEOUT) = 0
        \<and> fst (r_get_clear_IrqStatus a e) AND (IRQ_CRC_ERROR OR IRQ_LEN_ERROR OR IRQ_LORA_HEADER_ERROR) = 0)
   \<and> (\<forall>e. fifo (snd (r_getRxFifoLevel a e)) = fifo e
        \<and> (fifo e \<noteq> [] \<longrightarrow> fst (r_getRxFifoLevel a e) \<ge> 511) \<and> (fifo e = [] \<longrightarrow> fst (r_getRxFifoLevel a e) = 0))
   \<and> (\<forall>e. fifo (snd (r_rssi_raw a e)) = fifo e)
   \<and> (\<forall>e p ps. fifo e = p # ps \<longrightarrow>
        fst (r_readData a 511 e) = (p, 0) \<and> fifo (snd (r_readData a 511 e)) = ps)"

lemma nowMs_rx: "rx_chip a fifo \<Longrightarrow> snd (worker_nowMs a e) = e"
  by (simp add: rx_chip_def worker_nowMs_def case_prod_beta)

text \<open>What fetching a packet leaves alone, beside what \<open>keeps\<close> says.\<close>

definition rx_keeps :: "wk \<Rightarrow> wk \<Rightarrow> bool" where
  "rx_keeps w w' \<longleftrightarrow> keeps w w' \<and> bursts_rx (k_st w') = bursts_rx (k_st w)"

lemma rx_fetch_packet:
  assumes "rx_chip a fifo" and "fifo e = p # ps"
    and "l_check_fifo L \<or> fst (r_get_clear_IrqStatus a e) AND IRQ_RX_DONE \<noteq> 0"
  shows "\<exists>r L' w' e'. rx_fetch a (L, w, e) = (Some (p, r), L', w', e') \<and> fifo e' = ps
    \<and> l_queue L' = l_queue L \<and> rx_keeps w w'"
proof -
  obtain irq e1 where i: "r_get_clear_IrqStatus a e = (irq, e1)" by fastforce
  have irq: "fifo e1 = fifo e"
      "irq AND (IRQ_CRC_ERROR OR IRQ_LEN_ERROR OR IRQ_LORA_HEADER_ERROR OR IRQ_TIMEOUT) = 0"
      "irq AND (IRQ_CRC_ERROR OR IRQ_LEN_ERROR OR IRQ_LORA_HEADER_ERROR) = 0"
    using assms(1) i unfolding rx_chip_def by (metis fst_conv snd_conv)+
  have lvl: "fifo (snd (r_getRxFifoLevel a f)) = p # ps \<and> fst (r_getRxFifoLevel a f) \<ge> 511"
    if "fifo f = p # ps" for f
    using assms(1) that unfolding rx_chip_def by (metis list.distinct(1))
  obtain L1 e2 where rdy: "rx_ready a irq (L, e1) = (True, L1, e2)" "fifo e2 = p # ps" "l_queue L1 = l_queue L"
  proof (cases "irq AND IRQ_RX_DONE \<noteq> 0")
    case True
    then show ?thesis using that [of "L\<lparr>l_check_fifo := False\<rparr>" e1] irq(1) assms(2)
      by (simp add: rx_ready_def Let_def)
  next
    case False
    then have c: "l_check_fifo L" using assms(3) i by simp
    obtain l f where l: "r_getRxFifoLevel a e1 = (l, f)" by fastforce
    then have "fifo f = p # ps" "l \<ge> 511" using lvl [of e1] irq(1) assms(2) by simp_all
    then show ?thesis using that [of "L\<lparr>l_check_fifo := False\<rparr>" f] False c irq(2) l
      by (simp add: rx_ready_def Let_def kPacketPayload_def)
  qed
  obtain l e3 where l: "r_getRxFifoLevel a e2 = (l, e3)" by fastforce
  have e3: "fifo e3 = p # ps" "\<not> l < kPacketPayload"
    using lvl [OF rdy(2)] l by (simp_all add: kPacketPayload_def not_less)
  obtain raw e4 where r: "r_rssi_raw a e3 = (raw, e4)" by fastforce
  have e4: "fifo e4 = p # ps" using assms(1) r e3(1) unfolding rx_chip_def by (metis snd_conv)
  obtain x e5 where d: "r_readData a 511 e4 = (x, e5)" by fastforce
  have e5: "x = (p, 0)" "fifo e5 = ps" using assms(1) d e4 unfolding rx_chip_def by (metis fst_conv snd_conv)+
  have st: "bursts_rx (k_st (tally_scan q s v)) = bursts_rx (k_st v)" for q s v
    by (simp add: tally_scan_def)
  show ?thesis
    unfolding rx_fetch_def Let_def prod.case i rdy(1) l r unat_consts d e5
    using irq(3) e3(2) e5(2) rdy(3) by (simp add: rx_keeps_def st)
qed

definition mid_packet :: "bytes \<Rightarrow> bool" where
  "mid_packet p \<longleftrightarrow> (\<exists>h. decode_header p header0 = (True, h) \<and> unat (h_packet_idx h) + 1 < unat (h_total_packets h))"

definition last_packet :: "bytes \<Rightarrow> bool" where
  "last_packet p \<longleftrightarrow> (\<exists>h. decode_header p header0 = (True, h) \<and> \<not> unat (h_packet_idx h) + 1 < unat (h_total_packets h))"

lemma rx_packet_mid:
  assumes "rx_chip a fifo" and "mid_packet p"
  shows "\<exists>L' w'. rx_packet a p r (L, w, e) = (Again L', w', e) \<and> l_queue L' = l_queue L @ [(p, r)]
    \<and> l_check_fifo L' \<and> rx_keeps w w'"
proof -
  obtain now where n: "worker_nowMs a e = (now, e)" using nowMs_rx [OF assms(1), of e] by (metis prod.collapse)
  show ?thesis using assms(2) n
    by (auto simp: mid_packet_def rx_packet_def Let_def rx_keeps_def)
qed

lemma rx_packet_last:
  assumes "rx_chip a fifo" and "last_packet p" and "fifo e = []"
  shows "\<exists>w' e'. rx_packet a p r (L, w, e) = (Leave, w', e')
    \<and> k_events w' = k_events w @ map (\<lambda>(p, r). OnRx p r) (l_queue L @ [(p, r)])
    \<and> bursts_rx (k_st w') = bursts_rx (k_st w) + 1"
proof -
  obtain l e1 where l: "r_getRxFifoLevel a e = (l, e1)" by fastforce
  have "l = 0" using assms(1,3) l unfolding rx_chip_def by (metis fst_conv)
  then show ?thesis using assms(2) l
    by (auto simp: last_packet_def rx_packet_def Let_def rx_tail_def emit_rx_def kPacketPayload_def)
qed

lemma rx_loop_burst:
  assumes "rx_chip a fifo" and "\<forall>p \<in> set ps. mid_packet p" and "last_packet q"
    and "fifo e = ps @ [q]" and "l_check_fifo L \<or> fst (r_get_clear_IrqStatus a e) AND IRQ_RX_DONE \<noteq> 0"
    and "length ps < k"
  shows "\<exists>w' e' rs. rx_loop k a (L, w, e) = Some (w', e') \<and> length rs = Suc (length ps)
    \<and> k_events w' = k_events w @ map (\<lambda>(p, r). OnRx p r) (l_queue L @ zip (ps @ [q]) rs)
    \<and> bursts_rx (k_st w') = bursts_rx (k_st w) + 1"
  using assms(2,4-6)
proof (induction ps arbitrary: k L w e)
  case Nil
  then obtain m where k: "k = Suc m" by (cases k) auto
  obtain r L1 w1 e1 where f: "rx_fetch a (L, w, e) = (Some (q, r), L1, w1, e1)" "fifo e1 = []"
      "l_queue L1 = l_queue L" "rx_keeps w w1"
    using rx_fetch_packet [OF assms(1), of e q "[]" L w] Nil by auto
  obtain w2 e2 where p: "rx_packet a q r (L1, w1, e1) = (Leave, w2, e2)"
      "k_events w2 = k_events w1 @ map (\<lambda>(p, r). OnRx p r) (l_queue L1 @ [(q, r)])"
      "bursts_rx (k_st w2) = bursts_rx (k_st w1) + 1"
    using rx_packet_last [OF assms(1,3) f(2), of r L1 w1] by blast
  then show ?case using f k
    by (intro exI [of _ w2] exI [of _ e2] exI [of _ "[r]"]) (simp add: rx_step_def rx_keeps_def keeps_def)
next
  case (Cons p ps)
  then obtain m where k: "k = Suc m" by (cases k) auto
  obtain r L1 w1 e1 where f: "rx_fetch a (L, w, e) = (Some (p, r), L1, w1, e1)" "fifo e1 = ps @ [q]"
      "l_queue L1 = l_queue L" "rx_keeps w w1"
    using rx_fetch_packet [OF assms(1), of e p "ps @ [q]" L w] Cons.prems by auto
  obtain L2 w2 where p: "rx_packet a p r (L1, w1, e1) = (Again L2, w2, e1)"
      "l_queue L2 = l_queue L1 @ [(p, r)]" "l_check_fifo L2" "rx_keeps w1 w2"
    using rx_packet_mid [OF assms(1), of p r L1 w1 e1] Cons.prems(1) by auto
  have "\<exists>w' e' rs. rx_loop m a (L2, w2, e1) = Some (w', e') \<and> length rs = Suc (length ps)
    \<and> k_events w' = k_events w2 @ map (\<lambda>(p, r). OnRx p r) (l_queue L2 @ zip (ps @ [q]) rs)
    \<and> bursts_rx (k_st w') = bursts_rx (k_st w2) + 1"
    using Cons.prems k f(2) p(3) by (intro Cons.IH) simp_all
  then obtain w' e' rs where "rx_loop m a (L2, w2, e1) = Some (w', e')" "length rs = Suc (length ps)"
    "k_events w' = k_events w2 @ map (\<lambda>(p, r). OnRx p r) (l_queue L2 @ zip (ps @ [q]) rs)"
    "bursts_rx (k_st w') = bursts_rx (k_st w2) + 1" by blast
  then show ?case using f p k
    by (intro exI [of _ w'] exI [of _ e'] exI [of _ "r # rs"]) (simp add: rx_step_def rx_keeps_def keeps_def)
qed

section \<open>From node to node\<close>

lemma burst_packet_decode:
  assumes "payload \<noteq> []" "length payload \<le> 24576" "i < unat (burst_total (length payload))"
  shows "decode_header (air_packet (burst_header bid payload i) c) h0 = (True, burst_header bid payload i)"
proof -
  have "unat (burst_total (length payload)) \<le> 50" by (rule burst_total_le [OF assms(2)])
  then show ?thesis using assms
    by (intro decode_air_packet)
      (simp_all add: burst_header_def word_less_nat_alt word_le_nat_alt unat_of_nat)
qed

lemma burst_packets_split:
  assumes "payload \<noteq> []" "length payload \<le> 24576"
  shows "\<exists>ps q. burst_packets bid payload = ps @ [q] \<and> (\<forall>p \<in> set ps. mid_packet p) \<and> last_packet q"
proof -
  let ?n = "unat (burst_total (length payload))"
  have n: "0 < ?n" "?n \<le> 50"
    using assms burst_total_le [OF assms(2)]
    by (cases payload; simp add: unat_burst_total div_greater_zero_iff)+
  then obtain m where m: "?n = Suc m" by (cases ?n) auto
  have idx: "unat (h_packet_idx (burst_header bid payload i)) = i" if "i < ?n" for i
    using that n by (simp add: burst_header_def unat_of_nat)
  have tot: "h_total_packets (burst_header bid payload i) = burst_total (length payload)" for i
    by (simp add: burst_header_def)
  let ?p = "\<lambda>i. air_packet (burst_header bid payload i) (chunk 495 i payload)"
  have "mid_packet (?p i)" if "i < m" for i
    using burst_packet_decode [OF assms, of i bid] idx [of i] tot m that by (auto simp: mid_packet_def)
  moreover have "last_packet (?p m)"
    using burst_packet_decode [OF assms, of m bid] idx [of m] tot m by (auto simp: last_packet_def)
  moreover have "burst_packets bid payload = map ?p [0..<m] @ [?p m]"
    unfolding burst_packets_def m by simp
  ultimately show ?thesis by (intro exI [of _ "map ?p [0..<m]"] exI [of _ "?p m"]) auto
qed

lemma burst_packets_payload:
  assumes "length payload \<le> 24576"
  shows "take (length payload) (concat (map (drop 16) (burst_packets bid payload))) = payload"
proof -
  let ?n = "unat (burst_total (length payload))"
  have "drop 16 (air_packet h (chunk 495 i payload))
      = chunk 495 i payload @ replicate (495 - length (chunk 495 i payload)) 0" for h i
    by (simp add: air_packet_def)
  moreover have "length payload \<le> ?n * 495" using assms by (simp add: unat_burst_total)
  ultimately show ?thesis by (simp add: burst_packets_def comp_def concat_padded_chunks)
qed


end
