(* ===== verification/Transport.thy ===== *)
theory Transport
  imports WorkerTypes "HOL-Library.Monad_Syntax"
begin

text \<open>
  The byte transport of service/src/serial_server.cpp: the state of the \<open>SerialServer\<close> object, the
  operating-system and radio-worker calls it makes (the parameters of the model, collected in the
  record \<open>env\<close> over an arbitrary state of the outside world), and \<open>nowMs\<close>, \<open>readByte\<close> and
  \<open>writeAll\<close> for the three link types (UART device, TCP socket, shared-memory ring file).

  Operations return \<^const>\<open>None\<close> where the C++ code would leave a buffer or does not return within
  the fuel \<open>e_fuel\<close> of its retry loops; otherwise \<^const>\<open>Some\<close> of the result and the new state.
\<close>

section \<open>The outside world\<close>

text \<open>
  \<open>e_clock\<close> is \<open>clock_gettime(CLOCK_MONOTONIC)\<close> (seconds, nanoseconds); \<open>e_read fd n\<close> returns the
  result of \<open>read\<close>, the bytes it delivered and whether \<open>errno\<close> is EAGAIN, EWOULDBLOCK or EINTR;
  \<open>e_send\<close> the result of \<open>send\<close> and that same flag.  The \<open>w_\<close> fields are the methods of
  \<open>radio::RadioWorker\<close> that the server calls; \<open>w_applyConfig\<close> returns the error text, if any.
\<close>

record 's env =
  e_clock :: "'s \<Rightarrow> (nat \<times> nat) \<times> 's"
  e_nanosleep :: "nat \<Rightarrow> 's \<Rightarrow> 's"
  e_lseek :: "int \<Rightarrow> nat \<Rightarrow> 's \<Rightarrow> 's"
  e_seek_end :: "int \<Rightarrow> 's \<Rightarrow> nat \<times> 's"
  e_read :: "int \<Rightarrow> nat \<Rightarrow> 's \<Rightarrow> (int \<times> bytes \<times> bool) \<times> 's"
  e_write :: "int \<Rightarrow> bytes \<Rightarrow> 's \<Rightarrow> int \<times> 's"
  e_send :: "int \<Rightarrow> bytes \<Rightarrow> 's \<Rightarrow> (int \<times> bool) \<times> 's"
  e_open :: "string \<Rightarrow> 's \<Rightarrow> int \<times> 's"
  e_socket :: "'s \<Rightarrow> int \<times> 's"
  e_bind_listen :: "int \<Rightarrow> u16 \<Rightarrow> 's \<Rightarrow> bool \<times> 's"
  e_accept :: "int \<Rightarrow> 's \<Rightarrow> int \<times> 's"
  e_setup_client :: "int \<Rightarrow> 's \<Rightarrow> 's"
  e_setup_uart :: "int \<Rightarrow> u32 \<Rightarrow> 's \<Rightarrow> 's"
  e_close :: "int \<Rightarrow> 's \<Rightarrow> 's"
  e_fsync :: "int \<Rightarrow> 's \<Rightarrow> 's"
  e_fuel :: nat
  w_applyConfig :: "config \<Rightarrow> 's \<Rightarrow> (string option \<times> 's) option"
  w_startScan :: "scan_params \<Rightarrow> 's \<Rightarrow> 's option"
  w_enqueueTx :: "bytes \<Rightarrow> 's \<Rightarrow> terminal \<times> 's"
  w_snapshot :: "u32 \<Rightarrow> 's \<Rightarrow> counters \<times> 's"
  w_radioOk :: "'s \<Rightarrow> bool"

section \<open>State of the server\<close>

datatype pstate = kTag | kTxMagic | kSetWindow | kLenLo | kLenHi | kConfig | kPayload | kScanCount | kScanBody

record parsed_config =
  pc_frequency_hz :: u32
  pc_bandwidth_hz :: u32
  pc_coding_rate :: u8
  pc_tx_power_dbm :: i8
  pc_sync_word :: u32
  pc_role :: u8
  pc_body_len :: u8
  pc_rate_sel :: u8
  pc_payload_sel :: u8

text \<open>
  The members of \<open>SerialServer\<close>; \<open>s_tx_buf\<close> and \<open>s_qbuf\<close> are the function-local static buffers of
  the parser.  Arrays have their declared sizes: 4096, 17, 8, 24576 and 68 bytes.
\<close>

record srv =
  s_uart_path :: string
  s_baud :: u32
  s_fd :: int
  s_listen_fd :: int
  s_is_tcp :: bool
  s_is_ipc :: bool
  s_ipc_path :: string
  s_tcp_port :: u16
  s_ipc_rx_buf :: bytes
  s_ipc_rx_pos :: nat
  s_ipc_rx_len :: nat
  s_state :: pstate
  s_tag :: u8
  s_frame_len :: u16
  s_have :: nat
  s_skip_remain :: u16
  s_last_arrival_ms :: u32
  s_killed :: u32
  s_config_body :: bytes
  s_window_body :: bytes
  s_scan_count :: u8
  s_scan_have :: u8
  s_tx_buf :: bytes
  s_qbuf :: bytes
  s_last_stats_ms :: u32
  s_ready_sent :: bool
  s_slot_offset_ms :: u32
  s_slot_period_ms :: u32

text \<open>C's \<open>atoi\<close> on the digits it can read (\<open>uart_path\<close> suffixes), and \<open>rfind\<close> of a character.\<close>

definition is_digit :: "char \<Rightarrow> bool" where
  "is_digit c \<longleftrightarrow> 48 \<le> (of_char c :: nat) \<and> (of_char c :: nat) \<le> 57"

definition digits_val :: "string \<Rightarrow> nat" where
  "digits_val = foldl (\<lambda>n c. 10 * n + (of_char c - 48)) 0"

definition is_space :: "char \<Rightarrow> bool" where
  "is_space c \<longleftrightarrow> of_char c = (32 :: nat) \<or> 9 \<le> (of_char c :: nat) \<and> (of_char c :: nat) \<le> 13"

definition atoi :: "string \<Rightarrow> int" where
  "atoi str = (let t = dropWhile is_space str in
     case t of [] \<Rightarrow> 0
     | c # r \<Rightarrow> if c = CHR ''-'' then - int (digits_val (takeWhile is_digit r))
                else if c = CHR ''+'' then int (digits_val (takeWhile is_digit r))
                else int (digits_val (takeWhile is_digit t)))"

fun rfind_char :: "char \<Rightarrow> string \<Rightarrow> nat option" where
  "rfind_char c [] = None"
| "rfind_char c (x # xs) =
     (case rfind_char c xs of Some n \<Rightarrow> Some (Suc n) | None \<Rightarrow> if x = c then Some 0 else None)"

definition starts_with :: "string \<Rightarrow> string \<Rightarrow> bool" where
  "starts_with p t \<longleftrightarrow> take (length p) t = p"

text \<open>Member initialisers, then the constructor's dispatch on the path.\<close>

definition srv0 :: "string \<Rightarrow> u32 \<Rightarrow> srv" where
  "srv0 path baud = \<lparr>s_uart_path = path, s_baud = baud, s_fd = -1, s_listen_fd = -1, s_is_tcp = False,
     s_is_ipc = False, s_ipc_path = [], s_tcp_port = 0, s_ipc_rx_buf = replicate 4096 0,
     s_ipc_rx_pos = 0, s_ipc_rx_len = 0, s_state = kTag, s_tag = 0, s_frame_len = 0, s_have = 0,
     s_skip_remain = 0, s_last_arrival_ms = 0, s_killed = 0, s_config_body = replicate 17 0,
     s_window_body = replicate 8 0, s_scan_count = 0, s_scan_have = 0,
     s_tx_buf = replicate 24576 0, s_qbuf = replicate 68 0, s_last_stats_ms = 0,
     s_ready_sent = False, s_slot_offset_ms = 100, s_slot_period_ms = 1000\<rparr>"

definition default_port :: "u16 \<Rightarrow> u16" where
  "default_port p = (if p = 0 then 9200 else p)"

definition SerialServer :: "string \<Rightarrow> u32 \<Rightarrow> srv" where
  "SerialServer path baud =
     (let v = srv0 path baud in
      if starts_with ''ipc://'' path then
        (let p = drop 6 path
         in v\<lparr>s_is_ipc := True, s_ipc_path := (if p = [] then ''/tmp/slx_ipc.bin'' else p)\<rparr>)
      else if starts_with ''tcp://'' path then
        (let port = (case rfind_char (CHR '':'') path of
                       Some colon \<Rightarrow> if colon > 5 then of_int (atoi (drop (colon + 1) path)) else 0
                     | None \<Rightarrow> 0)
         in v\<lparr>s_is_tcp := True, s_tcp_port := default_port port\<rparr>)
      else if path \<noteq> [] \<and> path ! 0 = CHR '':'' then
        v\<lparr>s_is_tcp := True, s_tcp_port := default_port (of_int (atoi (drop 1 path)))\<rparr>
      else v)"

section \<open>Clock\<close>

definition nowMs :: "'s env \<Rightarrow> 's \<Rightarrow> u32 \<times> 's" where
  "nowMs env s = (let ((sec, nsec), s) = e_clock env s in (of_nat (sec * 1000 + nsec div 1000000), s))"

section \<open>Writing\<close>

definition kIpcTotalSize :: nat where [const_vals]: "kIpcTotalSize = 262144"
definition kIpcR2VBase :: nat where [const_vals]: "kIpcR2VBase = 0"
definition kIpcV2RBase :: nat where [const_vals]: "kIpcV2RBase = 65536"
definition kIpcRingCap :: u32 where [const_vals]: "kIpcRingCap = 65520"

text \<open>
  The shared-memory ring branch of \<open>writeAll\<close>.  \<open>len\<close> is a \<open>size_t\<close> (a natural number here),
  \<open>used + len\<close> is computed in 64 bits.
\<close>

definition ipc_writeAll :: "'s env \<Rightarrow> srv \<Rightarrow> bytes \<Rightarrow> 's \<Rightarrow> bool \<times> 's" where
  "ipc_writeAll env v buf s =
     (let fd = s_fd v; len = length buf;
          s = e_lseek env fd kIpcR2VBase s;
          ((n, d, _), s) = e_read env fd 8 s
      in if n \<noteq> 8 then (False, s)
         else let hdr0 = rd32 d 0; hdr1 = rd32 d 4;
             used = hdr0 - hdr1;
             reset = (used > kIpcRingCap \<or> len > unat kIpcRingCap);
             hdr1 = (if reset then hdr0 else hdr1);
             used = (if reset then 0 else used);
             s = (if unat used + len > unat kIpcRingCap
                  then snd (e_write env fd (le32 (hdr0 - (kIpcRingCap - of_nat len)))
                             (e_lseek env fd (kIpcR2VBase + 4) s))
                  else s);
             off = hdr0 mod kIpcRingCap;
             n = (of_nat len :: u32);
             first = (if off + n \<le> kIpcRingCap then n else kIpcRingCap - off);
             s = e_lseek env fd (kIpcR2VBase + 16 + unat off) s;
             s = snd (e_write env fd (take (unat first) buf) s);
             s = (if n > first
                  then snd (e_write env fd (take (unat (n - first)) (drop (unat first) buf))
                             (e_lseek env fd (kIpcR2VBase + 16) s))
                  else s);
             s = e_lseek env fd kIpcR2VBase s;
             s = snd (e_write env fd (le32 (hdr0 + n)) s)
           in (True, s))"

text \<open>The partial-write loop of the UART and TCP branch; \<open>buf\<close> is what is left to write.\<close>

fun write_loop :: "nat \<Rightarrow> 's env \<Rightarrow> srv \<Rightarrow> bytes \<Rightarrow> 's \<Rightarrow> (bool \<times> 's) option" where
  "write_loop 0 env v buf s = (if buf = [] then Some (True, s) else None)"
| "write_loop (Suc k) env v buf s =
     (if buf = [] then Some (True, s)
      else let ((n, again), s) =
                 (if s_is_tcp v then e_send env (s_fd v) buf s
                  else (let (n, s) = e_write env (s_fd v) buf s in ((n, False), s)))
           in if s_is_tcp v \<and> n < 0 \<and> again then write_loop k env v buf (e_nanosleep env 200000 s)
              else if n \<le> 0 then Some (False, s)
              else write_loop k env v (drop (nat n) buf) s)"

definition writeAll :: "'s env \<Rightarrow> srv \<Rightarrow> bytes \<Rightarrow> 's \<Rightarrow> (bool \<times> 's) option" where
  "writeAll env v buf s =
     (if s_fd v < 0 then Some (False, s)
      else if s_is_ipc v then Some (ipc_writeAll env v buf s)
      else write_loop (e_fuel env) env v buf s)"

section \<open>Reading\<close>

text \<open>\<open>read\<close> into a buffer at an offset: what was delivered overwrites that part of the buffer.\<close>

definition put_at :: "nat \<Rightarrow> bytes \<Rightarrow> bytes \<Rightarrow> bytes" where
  "put_at off d b = take off b @ d @ drop (off + length d) b"

text \<open>
  One pass of the ring branch of \<open>readByte\<close> (the block under the lock): \<^const>\<open>None\<close> in the first
  component when no byte was taken.
\<close>

definition ipc_take :: "'s env \<Rightarrow> srv \<Rightarrow> 's \<Rightarrow> u8 option \<times> srv \<times> 's" where
  "ipc_take env v s =
     (let fd = s_fd v;
          s = e_lseek env fd kIpcV2RBase s;
          ((n, d, _), s) = e_read env fd 8 s;
          hdr0 = rd32 d 0; hdr1 = rd32 d 4
      in if n = 8 \<and> hdr0 \<noteq> hdr1 then
           let avail = hdr0 - hdr1 in
           if avail > kIpcRingCap then
             (let s = e_lseek env fd (kIpcV2RBase + 4) s;
                  s = snd (e_write env fd (le32 hdr0) s)
              in (None, v, s))
           else
             (let tk = (if avail < 4096 then avail else 4096);
                  off = hdr1 mod kIpcRingCap;
                  first = (if off + tk \<le> kIpcRingCap then tk else kIpcRingCap - off);
                  s = e_lseek env fd (kIpcV2RBase + 16 + unat off) s;
                  ((_, d1, _), s) = e_read env fd (unat first) s;
                  rx = put_at 0 d1 (s_ipc_rx_buf v);
                  ((_, d2, _), s) =
                    (if tk > first
                     then e_read env fd (unat (tk - first)) (e_lseek env fd (kIpcV2RBase + 16) s)
                     else ((0, [], False), s));
                  rx = put_at (unat first) d2 rx;
                  s = e_lseek env fd (kIpcV2RBase + 4) s;
                  s = snd (e_write env fd (le32 (hdr1 + tk)) s)
              in (Some (rx ! 0), v\<lparr>s_ipc_rx_buf := rx, s_ipc_rx_pos := 1, s_ipc_rx_len := unat tk\<rparr>, s))
         else (None, v, s))"

fun ipc_read_loop :: "nat \<Rightarrow> 's env \<Rightarrow> u32 \<Rightarrow> u32 \<Rightarrow> srv \<Rightarrow> 's \<Rightarrow> ((int \<times> u8) \<times> srv \<times> 's) option" where
  "ipc_read_loop 0 env timeout deadline v s = None"
| "ipc_read_loop (Suc k) env timeout deadline v s =
     (let (r, v, s) = ipc_take env v s in
      case r of Some b \<Rightarrow> Some ((0, b), v, s)
      | None \<Rightarrow>
        if timeout = 0 then Some ((-1, 0), v, s)
        else let (now, s) = nowMs env s in
          if \<not> before now deadline then Some ((-1, 0), v, s)
          else ipc_read_loop k env timeout deadline v (e_nanosleep env 500000 s))"

fun fd_read_loop :: "nat \<Rightarrow> 's env \<Rightarrow> u32 \<Rightarrow> u32 \<Rightarrow> srv \<Rightarrow> 's \<Rightarrow> ((int \<times> u8) \<times> srv \<times> 's) option" where
  "fd_read_loop 0 env timeout deadline v s = None"
| "fd_read_loop (Suc k) env timeout deadline v s =
     (let ((n, d, again), s) = e_read env (s_fd v) 1 s in
      if n = 1 then Some ((0, d ! 0), v, s)
      else if s_is_tcp v \<and> n = 0 then Some ((-2, 0), v, s)
      else if s_is_tcp v \<and> n < 0 \<and> \<not> again then Some ((-2, 0), v, s)
      else if timeout = 0 then Some ((-1, 0), v, s)
      else let (now, s) = nowMs env s in
        if \<not> before now deadline then Some ((-1, 0), v, s)
        else fd_read_loop k env timeout deadline v (e_nanosleep env 200000 s))"

text \<open>The result code and the byte; the byte means something only with code 0.\<close>

definition readByte :: "'s env \<Rightarrow> u32 \<Rightarrow> srv \<Rightarrow> 's \<Rightarrow> ((int \<times> u8) \<times> srv \<times> 's) option" where
  "readByte env timeout v s =
     (if s_fd v < 0 then Some ((-2, 0), v, s)
      else if s_is_ipc v then
        (if s_ipc_rx_pos v < s_ipc_rx_len v
         then Some ((0, s_ipc_rx_buf v ! s_ipc_rx_pos v), v\<lparr>s_ipc_rx_pos := s_ipc_rx_pos v + 1\<rparr>, s)
         else let (now, s) = nowMs env s in ipc_read_loop (e_fuel env) env timeout (now + timeout) v s)
      else let (now, s) = nowMs env s in fd_read_loop (e_fuel env) env timeout (now + timeout) v s)"

end
