(* ===== verification/Frames.thy ===== *)
theory Frames
  imports Transport
begin

text \<open>
  The device-to-host frames of service/src/serial_server.cpp: the writers \<open>writeFrame\<close>,
  \<open>writeReady\<close>, \<open>writeError\<close>, \<open>writeStats\<close>, \<open>writeRx\<close>, \<open>writeDiag\<close> and the entry points the worker's
  callbacks use; and, as the abstract side, the frames as a datatype with its encoding and the
  decoder a host needs (docs/protocol.md section 2).  Lemmas: decoding inverts encoding on any
  sequence of frames; over any link that delivers what is written (locale \<open>sink\<close>), each writer
  appends exactly the encoding of its frame.
\<close>

section \<open>Writers\<close>

definition writeFrame :: "'s env \<Rightarrow> srv \<Rightarrow> char \<Rightarrow> bytes \<Rightarrow> 's \<Rightarrow> 's option" where
  "writeFrame env v tag payload s = do {
     (_, s) \<leftarrow> writeAll env v (ch tag # le16 (of_nat (length payload))) s;
     if payload \<noteq> [] then do { (_, s) \<leftarrow> writeAll env v payload s; Some s } else Some s }"

definition writeReady :: "'s env \<Rightarrow> srv \<Rightarrow> u16 \<Rightarrow> 's \<Rightarrow> 's option" where
  "writeReady env v max_payload s = do {
     (_, s) \<leftarrow> writeAll env v (ch (CHR ''G'') # le16 max_payload) s; Some s }"

definition writeError :: "'s env \<Rightarrow> srv \<Rightarrow> u8 \<Rightarrow> string \<Rightarrow> 's \<Rightarrow> 's option" where
  "writeError env v code msg s = (let m = take 64 (c_str msg) in do {
     (_, s) \<leftarrow> writeAll env v ([ch (CHR ''E''), code, of_nat (length m)] @ m) s; Some s })"

definition writeStats :: "'s env \<Rightarrow> srv \<Rightarrow> 's \<Rightarrow> 's option" where
  "writeStats env v s =
     (let (now, s) = nowMs env s;
          (c, s) = w_snapshot env now s;
          c = c\<lparr>parser_frames_killed := s_killed v\<rparr>
      in writeFrame env v (CHR ''S'') (serialize c) s)"

definition writeRx :: "'s env \<Rightarrow> srv \<Rightarrow> bytes \<Rightarrow> i16 \<Rightarrow> 's \<Rightarrow> 's option" where
  "writeRx env v pkt rssi s =
     (let len = length pkt in
      if len \<le> 512 then do {
        (_, s) \<leftarrow> writeAll env v (ch (CHR ''R'') # le16 (of_nat len) @ pkt @ le16 rssi) s; Some s }
      else do {
        (_, s) \<leftarrow> writeAll env v (ch (CHR ''R'') # le16 (of_nat len)) s;
        (_, s) \<leftarrow> writeAll env v pkt s;
        (_, s) \<leftarrow> writeAll env v (le16 rssi) s;
        Some s })"

definition writeDiag :: "'s env \<Rightarrow> srv \<Rightarrow> u8 \<Rightarrow> u32 \<Rightarrow> 's \<Rightarrow> 's option" where
  "writeDiag env v event_id val s = writeFrame env v (CHR ''D'') (event_id # le32 val @ [0]) s"

section \<open>Worker callbacks\<close>

definition onWorkerRx :: "'s env \<Rightarrow> srv \<Rightarrow> bytes \<Rightarrow> i16 \<Rightarrow> 's \<Rightarrow> 's option" where
  "onWorkerRx env v pkt rssi s = writeRx env v pkt rssi s"

definition onWorkerTerminal :: "'s env \<Rightarrow> srv \<Rightarrow> terminal \<Rightarrow> 's \<Rightarrow> 's option" where
  "onWorkerTerminal env v t s =
     (if t = kOk then writeReady env v 511 s
      else let code = terminal_code t
           in writeError env v code (if code = 5 then ''tx aborted'' else ''tx dropped'') s)"

definition onWorkerScan :: "'s env \<Rightarrow> srv \<Rightarrow> u32 \<Rightarrow> u32 \<Rightarrow> u32 \<Rightarrow> i8 \<Rightarrow> 's \<Rightarrow> 's option" where
  "onWorkerScan env v freq_hz frames consensus best_rssi s = do {
     s \<leftarrow> writeDiag env v 50 freq_hz s;
     s \<leftarrow> writeDiag env v 51 frames s;
     s \<leftarrow> writeDiag env v 52 consensus s;
     writeDiag env v 53 (of_int (sint best_rssi + 128)) s }"

text \<open>main.cpp binds the worker's callbacks to these.\<close>

fun on_callback :: "'s env \<Rightarrow> srv \<Rightarrow> callback \<Rightarrow> 's \<Rightarrow> 's option" where
  "on_callback env v (OnRx pkt rssi) s = onWorkerRx env v pkt rssi s"
| "on_callback env v (OnTerminal t) s = onWorkerTerminal env v t s"
| "on_callback env v (OnScan f n c r) s = onWorkerScan env v f n c r s"

section \<open>Frames, their encoding and the host's decoder\<close>

datatype frame =
    Ready u16
  | Err u8 bytes
  | StatsBody bytes
  | RxPkt bytes i16
  | Diag u8 u32

fun enc :: "frame \<Rightarrow> bytes" where
  "enc (Ready m) = 0x47 # le16 m"
| "enc (Err c m) = [0x45, c, of_nat (length m)] @ m"
| "enc (StatsBody b) = 0x53 # le16 (of_nat (length b)) @ b"
| "enc (RxPkt p r) = 0x52 # le16 (of_nat (length p)) @ p @ le16 r"
| "enc (Diag i x) = [0x44, 6, 0, i] @ le32 x @ [0]"

fun frame_ok :: "frame \<Rightarrow> bool" where
  "frame_ok (Err c m) \<longleftrightarrow> length m < 256"
| "frame_ok (StatsBody b) \<longleftrightarrow> length b = 68"
| "frame_ok (RxPkt p r) \<longleftrightarrow> length p < 65536"
| "frame_ok _ \<longleftrightarrow> True"

fun dec :: "bytes \<Rightarrow> (frame \<times> bytes) option" where
  "dec [] = None"
| "dec (t # r) =
     (if t = 0x47 then (if length r < 2 then None else Some (Ready (rd16 r 0), drop 2 r))
      else if t = 0x45 then
        (if length r < 2 \<or> length r < 2 + unat (r ! 1) then None
         else Some (Err (r ! 0) (take (unat (r ! 1)) (drop 2 r)), drop (2 + unat (r ! 1)) r))
      else if t = 0x53 then
        (if length r < 2 \<or> length r < 2 + unat (rd16 r 0) then None
         else Some (StatsBody (take (unat (rd16 r 0)) (drop 2 r)), drop (2 + unat (rd16 r 0)) r))
      else if t = 0x52 then
        (if length r < 2 \<or> length r < 4 + unat (rd16 r 0) then None
         else Some (RxPkt (take (unat (rd16 r 0)) (drop 2 r)) (rd16 r (2 + unat (rd16 r 0))),
                    drop (4 + unat (rd16 r 0)) r))
      else if t = 0x44 then
        (if length r < 8 then None else Some (Diag (r ! 2) (rd32 r 3), drop 8 r))
      else None)"

fun dec_all :: "nat \<Rightarrow> bytes \<Rightarrow> frame list option" where
  "dec_all k [] = Some []"
| "dec_all 0 bs = None"
| "dec_all (Suc k) bs = do { (f, r) \<leftarrow> dec bs; fs \<leftarrow> dec_all k r; Some (f # fs) }"

lemma rd16_at [simp, wire]: "rd16 (p @ le16 w @ r) (length p) = w"
  using rd16_append [of p "le16 w @ r" 0] by simp

lemma rd16_le16_eq [simp, wire]: "rd16 (le16 w) 0 = w"
  using rd16_le16 [of w "[]"] by simp

lemma dec_enc: "frame_ok f \<Longrightarrow> dec (enc f @ r) = Some (f, r)"
proof (cases f)
  case (RxPkt p rssi)
  assume "frame_ok f"
  moreover have "rd16 (le16 n @ p @ le16 rssi @ r) (2 + length p) = rssi" for n
    using rd16_append [of "le16 n @ p" "le16 rssi @ r" 0] by simp
  ultimately show ?thesis by (simp add: RxPkt)
next
  case (Diag i x)
  have "rd32 ([6, 0, i] @ le32 x @ q) 3 = x" for q
    using rd32_append [of "[6, 0, i]" "le32 x @ q" 0] by (simp add: numeral_3_eq_3)
  then show ?thesis by (simp add: Diag)
qed simp_all

lemma enc_ne [simp]: "enc f \<noteq> []"
  by (cases f) simp_all

lemma dec_all_Suc:
  "bs \<noteq> [] \<Longrightarrow> dec_all (Suc k) bs = do { (f, r) \<leftarrow> dec bs; fs \<leftarrow> dec_all k r; Some (f # fs) }"
  by (cases bs) (simp_all del: dec.simps)



section \<open>Writers over a link that delivers\<close>

text \<open>
  The contract of a byte link, seen from a server in link state \<open>v\<close>: writing a buffer of up to 1024
  bytes (no frame is longer) returns, appends it to what the host has received (\<open>out\<close>) and leaves
  the rest of the world (\<open>rest\<close>) as it is.
\<close>

locale sink =
  fixes env :: "'s env" and out :: "'s \<Rightarrow> bytes" and rest :: "'s \<Rightarrow> 'r" and up :: "srv \<Rightarrow> 's \<Rightarrow> bool"
  assumes delivers: "up v s \<Longrightarrow> length buf \<le> 1024 \<Longrightarrow>
    \<exists>r s'. writeAll env v buf s = Some (r, s') \<and> out s' = out s @ buf \<and> rest s' = rest s \<and> up v s'"
begin

definition sends :: "srv \<Rightarrow> ('s \<Rightarrow> 's option) \<Rightarrow> frame list \<Rightarrow> bool" where
  "sends v m fs \<longleftrightarrow> (\<forall>s. up v s \<longrightarrow> (\<exists>s'. m s = Some s' \<and> out s' = out s @ concat (map enc fs)
     \<and> rest s' = rest s \<and> up v s'))"

lemma sends_write:
  "enc f = buf \<Longrightarrow> length buf \<le> 1024 \<Longrightarrow> sends v (\<lambda>s. do { (_, s) \<leftarrow> writeAll env v buf s; Some s }) [f]"
  unfolding sends_def
proof (intro allI impI)
  fix s assume "up v s" "enc f = buf" "length buf \<le> 1024"
  with delivers [of v s buf]
  show "\<exists>s'. do { (_, s) \<leftarrow> writeAll env v buf s; Some s } = Some s' \<and>
      out s' = out s @ concat (map enc [f]) \<and> rest s' = rest s \<and> up v s'" by auto
qed

lemma sends_seq:
  assumes "sends v m fs" and "sends v m' gs"
  shows "sends v (\<lambda>s. do { s \<leftarrow> m s; m' s }) (fs @ gs)"
  unfolding sends_def
proof (intro allI impI)
  fix s assume "up v s"
  with assms(1) obtain s1 where "m s = Some s1" "out s1 = out s @ concat (map enc fs)" "rest s1 = rest s" "up v s1"
    unfolding sends_def by blast
  moreover from this assms(2) obtain s2
    where "m' s1 = Some s2" "out s2 = out s1 @ concat (map enc gs)" "rest s2 = rest s1" "up v s2"
    unfolding sends_def by blast
  ultimately show "\<exists>s'. do { s \<leftarrow> m s; m' s } = Some s' \<and>
      out s' = out s @ concat (map enc (fs @ gs)) \<and> rest s' = rest s \<and> up v s'" by simp
qed

lemma sends_writeFrame:
  assumes "enc f = ch tag # le16 (of_nat (length payload)) @ payload" and "length payload \<le> 1024"
  shows "sends v (writeFrame env v tag payload) [f]"
  unfolding sends_def
proof (intro allI impI)
  fix s assume "up v s"
  then obtain r s1 where 1: "writeAll env v (ch tag # le16 (of_nat (length payload))) s = Some (r, s1)"
    "out s1 = out s @ ch tag # le16 (of_nat (length payload))" "rest s1 = rest s" "up v s1"
    using delivers [of v s "ch tag # le16 (of_nat (length payload))"] by auto
  moreover from this(4) obtain r' s2 where "writeAll env v payload s1 = Some (r', s2)"
    "out s2 = out s1 @ payload" "rest s2 = rest s1" "up v s2"
    using delivers assms(2) by blast
  ultimately show "\<exists>s'. writeFrame env v tag payload s = Some s' \<and>
      out s' = out s @ concat (map enc [f]) \<and> rest s' = rest s \<and> up v s'"
    using assms by (cases "payload = []") (simp_all add: writeFrame_def)
qed

lemma sends_Ready: "sends v (writeReady env v m) [Ready m]"
  using sends_write by (simp add: writeReady_def [abs_def])

lemma sends_Error: "sends v (writeError env v c msg) [Err c (take 64 (c_str msg))]"
  using sends_write by (simp add: writeError_def [abs_def] Let_def)

lemma sends_Diag: "sends v (writeDiag env v i x) [Diag i x]"
  unfolding writeDiag_def [abs_def] by (rule sends_writeFrame) (simp_all add: le16_def byte_of_def)

lemma sends_Rx:
  assumes "length pkt \<le> 512"
  shows "sends v (writeRx env v pkt rssi) [RxPkt pkt rssi]"
  using assms sends_write by (simp add: writeRx_def [abs_def] Let_def)

lemma sends_Scan: "sends v (onWorkerScan env v f n c r)
    [Diag 50 f, Diag 51 n, Diag 52 c, Diag 53 (of_int (sint r + 128))]"
  unfolding onWorkerScan_def [abs_def]
  using sends_seq [OF sends_Diag sends_seq [OF sends_Diag sends_seq [OF sends_Diag sends_Diag]]] by simp

end

end
