(* ===== verification/Parser.thy ===== *)
theory Parser
  imports Burst Frames
begin

text \<open>
  Command side of service/src/serial_server.cpp: the handlers (\<open>handleConfig\<close>, \<open>handleScanQ\<close>,
  \<open>handleReset\<close>, \<open>handleTx\<close>, \<open>maybeEmitStats\<close>), the byte-at-a-time parser inside \<open>pollOnce\<close> with its
  100 ms idle resync, \<open>pollOnce\<close> itself and \<open>init\<close>.  A parser step is \<^const>\<open>None\<close> where it would
  write outside one of its buffers.
\<close>

section \<open>Handlers\<close>

definition parse_config :: "bytes \<Rightarrow> u8 \<Rightarrow> parsed_config" where
  "parse_config body len =
     (let c = \<lparr>pc_frequency_hz = rd32 body 0, pc_bandwidth_hz = rd32 body 4,
               pc_coding_rate = body ! 8, pc_tx_power_dbm = body ! 9, pc_sync_word = rd32 body 10,
               pc_role = body ! 14, pc_body_len = len, pc_rate_sel = 0, pc_payload_sel = 0\<rparr>
      in if len \<ge> 17 then c\<lparr>pc_rate_sel := body ! 15, pc_payload_sel := body ! 16\<rparr> else c)"

definition scan_of_config :: "parsed_config \<Rightarrow> scan_params" where
  "scan_of_config c =
     (let cnt = (if pc_coding_rate c = 0 then 27 else pc_coding_rate c);
          cnt = (if cnt > 64 then 64 else cnt);
          dwell = (ucast (pc_tx_power_dbm c) * 100 :: u32);
          dwell = (if dwell < 50 then 50 else dwell)
      in \<lparr>start_hz = pc_sync_word c, step_hz = pc_bandwidth_hz c, scan_ch_count = cnt, dwell_ms = dwell\<rparr>)"

definition handleConfig :: "'s env \<Rightarrow> srv \<Rightarrow> bytes \<Rightarrow> u8 \<Rightarrow> 's \<Rightarrow> 's option" where
  "handleConfig env v body len s =
     (let c = parse_config body len in
      if pc_frequency_hz c = 0xFFFFFFFF then do {
        s \<leftarrow> w_startScan env (scan_of_config c) s;
        writeReady env v 511 s }
      else do {
        (err, s) \<leftarrow> w_applyConfig env \<lparr>frequency_hz = pc_frequency_hz c,
                       tx_power_dbm = pc_tx_power_dbm c, role = pc_role c\<rparr> s;
        (case err of Some msg \<Rightarrow> writeError env v 3 msg s | None \<Rightarrow> writeReady env v 511 s) })"

definition handleScanQ :: "'s env \<Rightarrow> u8 \<Rightarrow> u32 \<Rightarrow> u32 list \<Rightarrow> 's \<Rightarrow> 's option" where
  "handleScanQ env cnt dwell freqs s =
     (if cnt = 0 \<or> cnt > 16 then Some s
      else w_startScan env \<lparr>start_hz = freqs ! 0, step_hz = 0, scan_ch_count = cnt,
                            dwell_ms = (if dwell < 50 then 50 else dwell)\<rparr> s)"

definition handleReset :: "'s env \<Rightarrow> srv \<Rightarrow> 's \<Rightarrow> 's option" where
  "handleReset env v s = do {
     (_, s) \<leftarrow> writeAll env v [ch (CHR ''G'')] s;
     Some (if \<not> s_is_tcp v \<and> s_fd v \<ge> 0 then e_fsync env (s_fd v) s else s) }"

definition handleTx :: "'s env \<Rightarrow> srv \<Rightarrow> bytes \<Rightarrow> 's \<Rightarrow> 's option" where
  "handleTx env v payload s =
     (let (t, s) = w_enqueueTx env payload s in
      if t = kBusy then writeError env v 4 ''tx queue full'' s
      else writeDiag env v 47 (of_nat (length payload)) s)"

definition maybeEmitStats :: "'s env \<Rightarrow> bool \<Rightarrow> srv \<times> 's \<Rightarrow> (srv \<times> 's) option" where
  "maybeEmitStats env force = (\<lambda>(v, s).
     let (now, s) = nowMs env s in
     if force \<or> now - s_last_stats_ms v \<ge> 10000 then
       (let v = v\<lparr>s_last_stats_ms := now\<rparr> in do { s \<leftarrow> writeStats env v s; Some (v, s) })
     else Some (v, s))"

section \<open>One byte\<close>

text \<open>The 100 ms idle rule applied before a byte is looked at; it records the arrival time.\<close>

definition resync :: "u32 \<Rightarrow> srv \<Rightarrow> srv" where
  "resync now v =
     (let v = (if (s_state v \<noteq> kTag \<or> s_skip_remain v > 0) \<and> now - s_last_arrival_ms v > 100
               then (let v = (if s_state v \<in> {kPayload, kConfig, kSetWindow, kLenHi}
                              then v\<lparr>s_killed := s_killed v + 1\<rparr> else v)
                     in v\<lparr>s_skip_remain := 0, s_state := kTag, s_have := 0\<rparr>)
               else v)
      in v\<lparr>s_last_arrival_ms := now\<rparr>)"

text \<open>\<open>buf[i] = b\<close>, undefined outside the array.\<close>

definition store :: "bytes \<Rightarrow> nat \<Rightarrow> u8 \<Rightarrow> bytes option" where
  "store buf i b = (if i < length buf then Some (buf[i := b]) else None)"

text \<open>The \<open>switch\<close> on the state.\<close>

definition on_tag :: "'s env \<Rightarrow> u8 \<Rightarrow> srv \<times> 's \<Rightarrow> (srv \<times> 's) option" where
  "on_tag env b = (\<lambda>(v, s).
     let v = v\<lparr>s_tag := b\<rparr> in
     if b = ch (CHR ''T'') then Some (v\<lparr>s_state := kTxMagic, s_have := 0\<rparr>, s)
     else if b = ch (CHR ''W'') then Some (v\<lparr>s_state := kSetWindow, s_have := 0\<rparr>, s)
     else if b = ch (CHR ''C'') then Some (v\<lparr>s_state := kLenLo, s_have := 0\<rparr>, s)
     else if b = ch (CHR ''S'') then maybeEmitStats env True (v, s)
     else if b = ch (CHR ''Q'') then Some (v\<lparr>s_state := kScanCount, s_have := 0\<rparr>, s)
     else if b = ch (CHR ''X'') then do { s \<leftarrow> handleReset env v s; Some (v, s) }
     else Some (v, s))"

definition on_len_hi :: "'s env \<Rightarrow> u8 \<Rightarrow> srv \<times> 's \<Rightarrow> (srv \<times> 's) option" where
  "on_len_hi env b = (\<lambda>(v, s).
     let v = v\<lparr>s_frame_len := s_frame_len v OR push_bit 8 (ucast b)\<rparr> in
     if s_tag v = ch (CHR ''C'') then
       (if s_frame_len v \<noteq> 15 \<and> s_frame_len v \<noteq> 17
        then do { s \<leftarrow> writeError env v 3 ''bad len'' s; Some (v\<lparr>s_state := kTag\<rparr>, s) }
        else Some (v\<lparr>s_state := kConfig, s_have := 0\<rparr>, s))
     else if s_tag v = ch (CHR ''T'') then
       (if s_frame_len v = 0 \<or> ucast (s_frame_len v) > kMaxTotalPayload
        then do { s \<leftarrow> writeError env v 2 ''bad tx len'' s;
                  Some (v\<lparr>s_skip_remain := s_frame_len v, s_state := kTag\<rparr>, s) }
        else Some (v\<lparr>s_state := kPayload, s_have := 0\<rparr>, s))
     else Some (v\<lparr>s_state := kTag\<rparr>, s))"

definition on_window :: "'s env \<Rightarrow> u8 \<Rightarrow> srv \<times> 's \<Rightarrow> (srv \<times> 's) option" where
  "on_window env b = (\<lambda>(v, s). do {
     w \<leftarrow> store (s_window_body v) (s_have v) b;
     let v = v\<lparr>s_window_body := w, s_have := s_have v + 1\<rparr>;
     if s_have v = 8 then do {
       let v = v\<lparr>s_slot_offset_ms := rd32 w 0, s_slot_period_ms := rd32 w 4\<rparr>;
       s \<leftarrow> writeReady env v 511 s;
       Some (v\<lparr>s_state := kTag\<rparr>, s) }
     else Some (v, s) })"

definition on_config :: "'s env \<Rightarrow> u8 \<Rightarrow> srv \<times> 's \<Rightarrow> (srv \<times> 's) option" where
  "on_config env b = (\<lambda>(v, s). do {
     c \<leftarrow> store (s_config_body v) (s_have v) b;
     let v = v\<lparr>s_config_body := c, s_have := s_have v + 1\<rparr>;
     if s_have v = unat (s_frame_len v) then do {
       s \<leftarrow> handleConfig env v c (ucast (s_frame_len v)) s;
       Some (v\<lparr>s_state := kTag\<rparr>, s) }
     else Some (v, s) })"

definition on_payload :: "'s env \<Rightarrow> u8 \<Rightarrow> srv \<times> 's \<Rightarrow> (srv \<times> 's) option" where
  "on_payload env b = (\<lambda>(v, s). do {
     t \<leftarrow> store (s_tx_buf v) (s_have v) b;
     let v = v\<lparr>s_tx_buf := t, s_have := s_have v + 1\<rparr>;
     if s_have v = unat (s_frame_len v) then do {
       payload \<leftarrow> rd_slice 0 (unat (s_frame_len v)) t;
       s \<leftarrow> handleTx env v payload s;
       Some (v\<lparr>s_state := kTag\<rparr>, s) }
     else Some (v, s) })"

definition on_scan_body :: "'s env \<Rightarrow> u8 \<Rightarrow> srv \<times> 's \<Rightarrow> (srv \<times> 's) option" where
  "on_scan_body env b = (\<lambda>(v, s). do {
     q \<leftarrow> store (s_qbuf v) (unat (s_scan_have v)) b;
     let v = v\<lparr>s_qbuf := q, s_scan_have := s_scan_have v + 1\<rparr>;
     if unat (s_scan_have v) = 4 + unat (s_scan_count v) * 4 then do {
       s \<leftarrow> handleScanQ env (s_scan_count v) (rd32 q 0)
              (map (\<lambda>i. rd32 q (4 + i * 4)) [0..<unat (s_scan_count v)]) s;
       Some (v\<lparr>s_state := kTag\<rparr>, s) }
     else Some (v, s) })"

definition parse_switch :: "'s env \<Rightarrow> u8 \<Rightarrow> srv \<times> 's \<Rightarrow> (srv \<times> 's) option" where
  "parse_switch env b = (\<lambda>(v, s).
     case s_state v of
       kTag \<Rightarrow> on_tag env b (v, s)
     | kTxMagic \<Rightarrow> Some (v\<lparr>s_state := (if b \<noteq> ch (CHR ''X'') then kTag else kLenLo)\<rparr>, s)
     | kSetWindow \<Rightarrow> on_window env b (v, s)
     | kLenLo \<Rightarrow> Some (v\<lparr>s_frame_len := ucast b, s_state := kLenHi\<rparr>, s)
     | kLenHi \<Rightarrow> on_len_hi env b (v, s)
     | kConfig \<Rightarrow> on_config env b (v, s)
     | kPayload \<Rightarrow> on_payload env b (v, s)
     | kScanCount \<Rightarrow> Some (v\<lparr>s_scan_count := b, s_scan_have := 0,
         s_state := (if 1 \<le> b \<and> b \<le> 16 then kScanBody else kTag)\<rparr>, s)
     | kScanBody \<Rightarrow> on_scan_body env b (v, s))"

text \<open>One received byte at time \<open>now\<close>: the loop body of \<open>pollOnce\<close> after \<open>readByte\<close> succeeded.\<close>

definition parse_byte :: "'s env \<Rightarrow> u32 \<Rightarrow> u8 \<Rightarrow> srv \<times> 's \<Rightarrow> (srv \<times> 's) option" where
  "parse_byte env now b = (\<lambda>(v, s).
     let v = resync now v in
     if s_skip_remain v > 0 then Some (v\<lparr>s_skip_remain := s_skip_remain v - 1\<rparr>, s)
     else do { x \<leftarrow> parse_switch env b (v, s); maybeEmitStats env False x })"

section \<open>Polling\<close>

text \<open>The receive loop; each pass consumes a byte, so the fuel bounds the bytes handled in one poll.\<close>

fun poll_loop :: "nat \<Rightarrow> 's env \<Rightarrow> srv \<times> 's \<Rightarrow> (srv \<times> 's) option" where
  "poll_loop 0 env x = None"
| "poll_loop (Suc k) env (v, s) = do {
     ((rc, b), v, s) \<leftarrow> readByte env 0 v s;
     if rc = -2 then
       Some (if s_fd v \<ge> 0 then (v\<lparr>s_fd := -1\<rparr>, e_close env (s_fd v) s) else (v, s))
     else if rc \<noteq> 0 then maybeEmitStats env False (v, s)
     else do {
       let (now, s) = nowMs env s;
       x \<leftarrow> parse_byte env now b (v, s);
       poll_loop k env x } }"

text \<open>READY followed by the first statistics frame, at start-up and for every TCP client.\<close>

definition announce :: "'s env \<Rightarrow> srv \<times> 's \<Rightarrow> (srv \<times> 's) option" where
  "announce env = (\<lambda>(v, s). do {
     s \<leftarrow> writeReady env v 511 s;
     let (now, s) = nowMs env s;
     let v = v\<lparr>s_ready_sent := True, s_last_stats_ms := now\<rparr>;
     s \<leftarrow> writeStats env v s;
     Some (v, s) })"

definition pollOnce :: "'s env \<Rightarrow> srv \<times> 's \<Rightarrow> (srv \<times> 's) option" where
  "pollOnce env = (\<lambda>(v, s).
     if s_is_tcp v \<and> s_fd v < 0 then
       (let (cfd, s) = e_accept env (s_listen_fd v) s in
        if cfd < 0 then Some (v, s)
        else do {
          let s = e_setup_client env cfd s;
          x \<leftarrow> announce env (v\<lparr>s_fd := cfd, s_state := kTag, s_skip_remain := 0, s_have := 0\<rparr>, s);
          poll_loop (e_fuel env) env x })
     else poll_loop (e_fuel env) env (v, s))"

section \<open>Start-up\<close>

text \<open>The loops that retry every 500 ms until the device, the socket or the port is available.\<close>

fun retry_open :: "nat \<Rightarrow> 's env \<Rightarrow> ('s \<Rightarrow> int \<times> 's) \<Rightarrow> 's \<Rightarrow> (int \<times> 's) option" where
  "retry_open 0 env try s = None"
| "retry_open (Suc k) env try s =
     (let (fd, s) = try s in
      if fd < 0 then retry_open k env try (e_nanosleep env 500000000 s) else Some (fd, s))"

fun retry_bind :: "nat \<Rightarrow> 's env \<Rightarrow> int \<Rightarrow> u16 \<Rightarrow> 's \<Rightarrow> 's option" where
  "retry_bind 0 env fd port s = None"
| "retry_bind (Suc k) env fd port s =
     (let (ok, s) = e_bind_listen env fd port s in
      if ok then Some s else retry_bind k env fd port (e_nanosleep env 500000000 s))"

fun zero_pages :: "nat \<Rightarrow> 's env \<Rightarrow> int \<Rightarrow> 's \<Rightarrow> 's" where
  "zero_pages 0 env fd s = s"
| "zero_pages (Suc k) env fd s = zero_pages k env fd (snd (e_write env fd (replicate 4096 0) s))"

definition open_link :: "'s env \<Rightarrow> srv \<times> 's \<Rightarrow> (srv \<times> 's) option" where
  "open_link env = (\<lambda>(v, s).
     if s_is_ipc v then do {
       (fd, s) \<leftarrow> retry_open (e_fuel env) env (e_open env (s_ipc_path v)) s;
       let v = v\<lparr>s_fd := fd\<rparr>;
       let (sz, s) = e_seek_end env fd s;
       let s = (if sz < kIpcTotalSize then zero_pages (kIpcTotalSize div 4096) env fd (e_lseek env fd 0 s) else s);
       let s = snd (e_write env fd (replicate 8 0) (e_lseek env fd kIpcR2VBase s));
       let s = snd (e_write env fd (replicate 8 0) (e_lseek env fd kIpcV2RBase s));
       Some (v, s) }
     else if s_is_tcp v then do {
       (fd, s) \<leftarrow> retry_open (e_fuel env) env (e_socket env) s;
       s \<leftarrow> retry_bind (e_fuel env) env fd (s_tcp_port v) s;
       Some (v\<lparr>s_listen_fd := fd\<rparr>, s) }
     else do {
       (fd, s) \<leftarrow> retry_open (e_fuel env) env (e_open env (s_uart_path v)) s;
       Some (v\<lparr>s_fd := fd\<rparr>, e_setup_uart env fd (s_baud v) s) })"

fun wait_radio :: "nat \<Rightarrow> 's env \<Rightarrow> 's \<Rightarrow> 's" where
  "wait_radio 0 env s = s"
| "wait_radio (Suc k) env s = (if w_radioOk env s then s else wait_radio k env (e_nanosleep env 100000000 s))"

definition init :: "'s env \<Rightarrow> srv \<times> 's \<Rightarrow> (srv \<times> 's) option" where
  "init env x = do {
     (v, s) \<leftarrow> open_link env x;
     let s = wait_radio 150 env s;
     if \<not> s_is_tcp v then announce env (v, s) else Some (v, s) }"

end
