(* ===== verification/ParserInv.thy ===== *)
theory ParserInv
  imports Parser
begin

text \<open>
  Memory safety of the command parser.  \<open>parser_inv\<close> ties the state of the parser to the sizes of its
  buffers; the constructor establishes it and every received byte keeps it, so that, over links and
  workers whose calls return, no byte sequence makes the parser write outside a buffer.
\<close>

section \<open>The invariant\<close>

definition parser_inv :: "srv \<Rightarrow> bool" where
  "parser_inv v \<longleftrightarrow>
     length (s_config_body v) = 17 \<and> length (s_window_body v) = 8
   \<and> length (s_tx_buf v) = 24576 \<and> length (s_qbuf v) = 68
   \<and> (s_state v = kSetWindow \<longrightarrow> s_have v < 8)
   \<and> (s_state v = kConfig \<longrightarrow> s_have v < unat (s_frame_len v) \<and> unat (s_frame_len v) \<le> 17)
   \<and> (s_state v = kPayload \<longrightarrow> s_have v < unat (s_frame_len v) \<and> unat (s_frame_len v) \<le> 24576)
   \<and> (s_state v = kScanBody \<longrightarrow> unat (s_scan_count v) \<le> 16
        \<and> unat (s_scan_have v) < 4 + 4 * unat (s_scan_count v))"

text \<open>The part of the invariant that does not depend on the state: the array sizes.\<close>

definition sized :: "srv \<Rightarrow> bool" where
  "sized v \<longleftrightarrow> length (s_config_body v) = 17 \<and> length (s_window_body v) = 8
     \<and> length (s_tx_buf v) = 24576 \<and> length (s_qbuf v) = 68"

lemma parser_inv_sized: "parser_inv v \<Longrightarrow> sized v"
  by (simp add: parser_inv_def sized_def)

lemma parser_inv_calm:
  "sized v \<Longrightarrow> s_state v \<in> {kTag, kTxMagic, kLenLo, kLenHi, kScanCount} \<Longrightarrow> parser_inv v"
  by (auto simp: parser_inv_def sized_def)

lemma sized_upd [simp]:
  "sized (v\<lparr>s_state := a\<rparr>) = sized v" "sized (v\<lparr>s_tag := b\<rparr>) = sized v"
  "sized (v\<lparr>s_have := n\<rparr>) = sized v" "sized (v\<lparr>s_frame_len := w\<rparr>) = sized v"
  "sized (v\<lparr>s_skip_remain := w\<rparr>) = sized v" "sized (v\<lparr>s_last_arrival_ms := t\<rparr>) = sized v"
  "sized (v\<lparr>s_killed := t\<rparr>) = sized v" "sized (v\<lparr>s_last_stats_ms := t\<rparr>) = sized v"
  "sized (v\<lparr>s_scan_count := b\<rparr>) = sized v" "sized (v\<lparr>s_scan_have := b\<rparr>) = sized v"
  "sized (v\<lparr>s_slot_offset_ms := t\<rparr>) = sized v" "sized (v\<lparr>s_slot_period_ms := t\<rparr>) = sized v"
  by (simp_all add: sized_def)

lemma parser_inv_stats [simp]: "parser_inv (v\<lparr>s_last_stats_ms := t\<rparr>) = parser_inv v"
  by (simp add: parser_inv_def)

lemma parser_inv_arrival [simp]: "parser_inv (v\<lparr>s_last_arrival_ms := t\<rparr>) = parser_inv v"
  by (simp add: parser_inv_def)

lemma parser_inv_skip [simp]: "parser_inv (v\<lparr>s_skip_remain := n\<rparr>) = parser_inv v"
  by (simp add: parser_inv_def)

lemma SerialServer_inv: "parser_inv (SerialServer path baud) \<and> s_state (SerialServer path baud) = kTag"
  by (simp add: SerialServer_def Let_def parser_inv_def srv0_def)

lemma resync_inv: "parser_inv v \<Longrightarrow> parser_inv (resync now v)"
  by (auto simp: resync_def Let_def intro!: parser_inv_calm dest: parser_inv_sized)

section \<open>Every byte keeps it\<close>

lemma maybeEmitStats_srv:
  "maybeEmitStats env f (v, s) = Some (v', s') \<Longrightarrow> v' = v \<or> (\<exists>t. v' = v\<lparr>s_last_stats_ms := t\<rparr>)"
  by (auto simp: maybeEmitStats_def Let_def split: prod.splits if_splits bind_splits)

lemma maybeEmitStats_inv: "maybeEmitStats env f (v, s) = Some (v', s') \<Longrightarrow> parser_inv v \<Longrightarrow> parser_inv v'"
  using maybeEmitStats_srv by fastforce

lemma store_Some [simp]: "store buf i b = Some c \<longleftrightarrow> i < length buf \<and> c = buf[i := b]"
  by (auto simp: store_def)

lemma on_tag_inv:
  assumes "on_tag env b (v, s) = Some (v', s')" and "parser_inv v" and "s_state v = kTag"
  shows "parser_inv v'"
proof -
  have sz: "sized (v\<lparr>s_tag := b\<rparr>)" using assms(2) by (simp add: parser_inv_sized)
  have "parser_inv (v\<lparr>s_tag := b\<rparr>)" using assms by (intro parser_inv_calm [OF sz]) simp
  moreover have "parser_inv (v\<lparr>s_tag := b, s_state := kSetWindow, s_have := 0\<rparr>)"
    using sz by (simp add: parser_inv_def sized_def)
  moreover have "parser_inv (v\<lparr>s_tag := b, s_state := st, s_have := 0\<rparr>)"
    if "st \<in> {kTxMagic, kLenLo, kScanCount}" for st
    using sz that by (intro parser_inv_calm) auto
  ultimately show ?thesis
    using assms(1) unfolding on_tag_def Let_def prod.case
    by (auto split: if_splits bind_splits dest!: maybeEmitStats_inv)
qed

lemma on_len_hi_inv:
  assumes "on_len_hi env b (v, s) = Some (v', s')" and "parser_inv v"
  shows "parser_inv v'"
proof -
  define v1 where "v1 = v\<lparr>s_frame_len := s_frame_len v OR push_bit 8 (ucast b)\<rparr>"
  have sz: "sized v1" using assms(2) by (simp add: v1_def parser_inv_sized)
  then have tag: "parser_inv (v1\<lparr>s_state := kTag\<rparr>)" "parser_inv (v1\<lparr>s_skip_remain := n, s_state := kTag\<rparr>)" for n
    by (intro parser_inv_calm; simp)+
  have cfg: "parser_inv (v1\<lparr>s_state := kConfig, s_have := 0\<rparr>)" if "s_frame_len v1 = 15 \<or> s_frame_len v1 = 17"
    using sz that by (auto simp: parser_inv_def sized_def)
  have pay: "parser_inv (v1\<lparr>s_state := kPayload, s_have := 0\<rparr>)"
    if "s_frame_len v1 \<noteq> 0" "\<not> ucast (s_frame_len v1) > kMaxTotalPayload"
    using sz that unat16_less [of "s_frame_len v1"]
    by (simp add: parser_inv_def sized_def kMaxTotalPayload_def word_less_nat_alt
        unsigned_ucast_eq unat_gt_0 take_bit_eq_mod)
  show ?thesis
    using assms(1) tag cfg pay unfolding on_len_hi_def Let_def prod.case v1_def [symmetric]
    by (auto split: if_splits bind_splits)
qed

lemma on_window_inv:
  "on_window env b (v, s) = Some (v', s') \<Longrightarrow> parser_inv v \<Longrightarrow> s_state v = kSetWindow \<Longrightarrow> parser_inv v'"
  by (auto simp: on_window_def Let_def parser_inv_def split: if_splits bind_splits)

lemma on_config_inv:
  "on_config env b (v, s) = Some (v', s') \<Longrightarrow> parser_inv v \<Longrightarrow> s_state v = kConfig \<Longrightarrow> parser_inv v'"
  by (auto simp: on_config_def Let_def parser_inv_def split: if_splits bind_splits)

lemma on_payload_inv:
  "on_payload env b (v, s) = Some (v', s') \<Longrightarrow> parser_inv v \<Longrightarrow> s_state v = kPayload \<Longrightarrow> parser_inv v'"
  by (auto simp: on_payload_def Let_def parser_inv_def split: if_splits bind_splits)

lemma unat_inc8: "unat (w :: u8) < 255 \<Longrightarrow> unat (w + 1) = Suc (unat w)"
  by (simp add: unat_word_ariths)

lemma on_scan_body_inv:
  assumes "on_scan_body env b (v, s) = Some (v', s')" and "parser_inv v" and "s_state v = kScanBody"
  shows "parser_inv v'"
proof -
  have "unat (s_scan_have v) < 255" using assms by (simp add: parser_inv_def)
  then have "unat (s_scan_have v + 1) = Suc (unat (s_scan_have v))" by (rule unat_inc8)
  then show ?thesis
    using assms by (auto simp: on_scan_body_def Let_def parser_inv_def split: if_splits bind_splits)
qed

lemma scan_count_inv:
  assumes "parser_inv v"
  shows "parser_inv (v\<lparr>s_scan_count := b, s_scan_have := 0, s_state := (if 1 \<le> b \<and> b \<le> 16 then kScanBody else kTag)\<rparr>)"
proof (cases "1 \<le> b \<and> b \<le> 16")
  case True
  then show ?thesis using assms by (simp add: parser_inv_def word_le_nat_alt)
next
  case False
  then show ?thesis using assms by (auto simp: parser_inv_def)
qed

lemma parse_switch_inv:
  assumes "parse_switch env b (v, s) = Some (v', s')" and "parser_inv v"
  shows "parser_inv v'"
proof (cases "s_state v")
  case kTag with assms show ?thesis by (auto simp: parse_switch_def intro: on_tag_inv)
next
  case kTxMagic with assms parser_inv_sized [OF assms(2)] show ?thesis
    by (cases "b = 0x58") (auto simp: parse_switch_def intro!: parser_inv_calm)
next
  case kSetWindow with assms show ?thesis by (auto simp: parse_switch_def intro: on_window_inv)
next
  case kLenLo with assms parser_inv_sized [OF assms(2)] show ?thesis
    by (auto simp: parse_switch_def intro!: parser_inv_calm)
next
  case kLenHi with assms show ?thesis by (auto simp: parse_switch_def intro: on_len_hi_inv)
next
  case kConfig with assms show ?thesis by (auto simp: parse_switch_def intro: on_config_inv)
next
  case kPayload with assms show ?thesis by (auto simp: parse_switch_def intro: on_payload_inv)
next
  case kScanCount with assms show ?thesis
    using scan_count_inv [of v b] by (simp add: parse_switch_def)
next
  case kScanBody with assms show ?thesis by (auto simp: parse_switch_def intro: on_scan_body_inv)
qed

lemma parse_byte_inv:
  assumes "parse_byte env now b (v, s) = Some (v', s')" and "parser_inv v"
  shows "parser_inv v'"
proof (cases "s_skip_remain (resync now v) > 0")
  case True
  then show ?thesis using assms resync_inv [of v now] by (auto simp: parse_byte_def Let_def)
next
  case False
  then obtain v1 s1 where "parse_switch env b (resync now v, s) = Some (v1, s1)"
    "maybeEmitStats env False (v1, s1) = Some (v', s')"
    using assms(1) by (auto simp: parse_byte_def Let_def split: bind_splits)
  then show ?thesis
    using assms(2) by (blast intro: maybeEmitStats_inv parse_switch_inv resync_inv)
qed

section \<open>No byte is refused\<close>

text \<open>The part of the server the transport works on; parsing does not change it.\<close>

definition transport :: "srv \<Rightarrow> int \<times> bool \<times> bool \<times> bytes \<times> nat \<times> nat" where
  "transport v = (s_fd v, s_is_tcp v, s_is_ipc v, s_ipc_rx_buf v, s_ipc_rx_pos v, s_ipc_rx_len v)"

lemma transport_upd [simp]:
  "transport (v\<lparr>s_state := st\<rparr>) = transport v" "transport (v\<lparr>s_tag := b\<rparr>) = transport v"
  "transport (v\<lparr>s_have := n\<rparr>) = transport v" "transport (v\<lparr>s_frame_len := w\<rparr>) = transport v"
  "transport (v\<lparr>s_skip_remain := w\<rparr>) = transport v" "transport (v\<lparr>s_last_arrival_ms := t\<rparr>) = transport v"
  "transport (v\<lparr>s_killed := t\<rparr>) = transport v" "transport (v\<lparr>s_last_stats_ms := t\<rparr>) = transport v"
  "transport (v\<lparr>s_scan_count := b\<rparr>) = transport v" "transport (v\<lparr>s_scan_have := b\<rparr>) = transport v"
  "transport (v\<lparr>s_slot_offset_ms := t\<rparr>) = transport v" "transport (v\<lparr>s_slot_period_ms := t\<rparr>) = transport v"
  "transport (v\<lparr>s_config_body := bs\<rparr>) = transport v" "transport (v\<lparr>s_window_body := bs\<rparr>) = transport v"
  "transport (v\<lparr>s_tx_buf := bs\<rparr>) = transport v" "transport (v\<lparr>s_qbuf := bs\<rparr>) = transport v"
  by (simp_all add: transport_def)

text \<open>
  Links and workers whose calls return: writes of up to 1024 bytes (no frame of the server is longer),
  \<open>applyConfig\<close> and \<open>startScan\<close>; first for a link in state \<open>T\<close>, then for every link.
\<close>

definition live_on :: "int \<times> bool \<times> bool \<times> bytes \<times> nat \<times> nat \<Rightarrow> 's env \<Rightarrow> bool" where
  "live_on T env \<longleftrightarrow> (\<forall>v buf s. transport v = T \<longrightarrow> length buf \<le> 1024 \<longrightarrow> runs (writeAll env v buf s))
     \<and> (\<forall>c s. runs (w_applyConfig env c s)) \<and> (\<forall>p s. runs (w_startScan env p s))"

definition live :: "'s env \<Rightarrow> bool" where
  "live env \<longleftrightarrow> (\<forall>T. live_on T env)"

lemma live_calls:
  assumes "live_on (transport v) env"
  shows "length buf \<le> 1024 \<Longrightarrow> runs (writeAll env v buf s)" "runs (w_applyConfig env c s)" "runs (w_startScan env p s)"
  using assms by (simp_all add: live_on_def)

lemma live_frames:
  assumes "live_on (transport v) env"
  shows "length buf \<le> 1024 \<Longrightarrow> runs (writeFrame env v tag buf s)" "runs (writeReady env v m s)" "runs (writeError env v c msg s)"
  unfolding writeFrame_def writeReady_def writeError_def Let_def
  by (auto intro!: live_calls [OF assms] runs_bind)

lemma live_handlers:
  assumes "live_on (transport v) env"
  shows "runs (writeStats env v s)" "runs (handleReset env v s)" "runs (handleTx env v buf s)"
    "runs (handleScanQ env n t fs s)" "runs (handleConfig env v buf w s)"
  unfolding writeStats_def handleReset_def handleTx_def handleScanQ_def handleConfig_def writeDiag_def Let_def
  by (auto intro!: runs_bind live_calls [OF assms] live_frames [OF assms] split: prod.splits option.splits)

lemma live_stats: "live_on (transport v) env \<Longrightarrow> runs (maybeEmitStats env f (v, s))"
  unfolding maybeEmitStats_def Let_def
  by (auto split: prod.splits intro!: runs_bind live_handlers)

lemma live_tag: "live_on (transport v) env \<Longrightarrow> runs (on_tag env b (v, s))"
  unfolding on_tag_def Let_def by (auto intro!: runs_bind live_handlers live_stats)

lemma live_len_hi: "live_on (transport v) env \<Longrightarrow> runs (on_len_hi env b (v, s))"
  unfolding on_len_hi_def Let_def by (auto intro!: runs_bind live_frames)

lemma live_bodies:
  assumes "live_on (transport v) env" and "parser_inv v"
  shows "s_state v = kSetWindow \<Longrightarrow> runs (on_window env b (v, s))"
    "s_state v = kConfig \<Longrightarrow> runs (on_config env b (v, s))"
    "s_state v = kPayload \<Longrightarrow> runs (on_payload env b (v, s))"
    "s_state v = kScanBody \<Longrightarrow> runs (on_scan_body env b (v, s))"
  using assms(2)
  unfolding on_window_def on_config_def on_payload_def on_scan_body_def Let_def prod.case
  by (auto simp: store_def rd_slice_def parser_inv_def
      intro!: runs_bind live_frames live_handlers live_handlers(4) [OF assms(1)] simp: assms(1))

lemma parse_switch_live: "live_on (transport v) env \<Longrightarrow> parser_inv v \<Longrightarrow> runs (parse_switch env b (v, s))"
  by (cases "s_state v") (simp_all add: parse_switch_def live_tag live_len_hi live_bodies)

lemma transport_resync [simp]: "transport (resync now v) = transport v"
  by (simp add: resync_def Let_def)

lemma transport_tick: "maybeEmitStats env f (v, s) = Some (v', s') \<Longrightarrow> transport v' = transport v"
  using maybeEmitStats_srv by fastforce

lemma transport_switch: "parse_switch env b (v, s) = Some (v', s') \<Longrightarrow> transport v' = transport v"
  by (cases "s_state v")
     (auto simp: parse_switch_def on_tag_def on_len_hi_def on_window_def on_config_def on_payload_def on_scan_body_def
        Let_def dest!: transport_tick split: if_splits bind_splits)

lemma parse_byte_live: "live_on (transport v) env \<Longrightarrow> parser_inv v \<Longrightarrow> runs (parse_byte env now b (v, s))"
  unfolding parse_byte_def Let_def prod.case
  by (auto intro!: runs_bind parse_switch_live resync_inv live_stats dest!: transport_switch)

section \<open>Byte streams\<close>

text \<open>Bytes with their arrival times, parsed one after the other.\<close>

fun feed :: "'s env \<Rightarrow> (u32 \<times> u8) list \<Rightarrow> srv \<times> 's \<Rightarrow> (srv \<times> 's) option" where
  "feed env [] x = Some x"
| "feed env ((t, b) # r) x = do { x \<leftarrow> parse_byte env t b x; feed env r x }"

lemma feed_append: "feed env (xs @ ys) x = do { x \<leftarrow> feed env xs x; feed env ys x }"
  by (induction env xs x rule: feed.induct) (auto split: bind_splits)

text \<open>
  C4: memory safety of the command parser.  From a freshly constructed server on an open link,
  whatever bytes arrive at whatever times, the parser never writes outside its buffers (17-byte CONFIG body, 8-byte
  window body, 24576-byte TX buffer, 68-byte scan buffer) nor passes a payload range outside the TX
  buffer on: parsing never gets stuck, over any link and worker whose own calls return.
\<close>

theorem parser_memory_safe:
  assumes "live env"
  shows "\<exists>v s'. feed env input ((SerialServer path baud)\<lparr>s_fd := fd\<rparr>, s) = Some (v, s') \<and> parser_inv v"
proof -
  have "\<exists>v' s'. feed env input (v, s) = Some (v', s') \<and> parser_inv v'" if "parser_inv v" for v s
    using that
  proof (induction input arbitrary: v s)
    case (Cons a r)
    obtain t b where a: "a = (t, b)" by fastforce
    have "live_on (transport v) env" using assms unfolding live_def by blast
    from parse_byte_live [OF this Cons.prems, of t b s] obtain v1 s1
      where 1: "parse_byte env t b (v, s) = Some (v1, s1)" by (auto simp: runs_def)
    from Cons.IH [OF parse_byte_inv [OF this Cons.prems], of s1] show ?case
      using a 1 by simp
  qed simp
  moreover have "parser_inv ((SerialServer path baud)\<lparr>s_fd := fd\<rparr>)"
    using SerialServer_inv by (simp add: parser_inv_def)
  ultimately show ?thesis by blast
qed

end
