(* ===== verification/Commands.thy ===== *)
theory Commands
  imports ParserInv
begin

text \<open>
  What the command parser promises: the host-to-device commands of docs/protocol.md section 1 as a
  datatype with their byte encodings (malformed commands included), their effect as one operation
  each (\<open>exec_cmd\<close>), and the refinement: parsing the bytes of a sequence of commands performs
  exactly these operations in order and is back at a frame boundary.  Between two bytes of a command
  only the 10 s statistics check (\<open>tick\<close>) runs.
\<close>

section \<open>Private state of the parser\<close>

text \<open>\<open>merge p v\<close> is the server \<open>v\<close> with the parser's private fields taken from \<open>p\<close>.\<close>

definition merge :: "srv \<Rightarrow> srv \<Rightarrow> srv" where
  "merge p v = v\<lparr>s_state := s_state p, s_tag := s_tag p, s_frame_len := s_frame_len p, s_have := s_have p,
     s_skip_remain := s_skip_remain p, s_last_arrival_ms := s_last_arrival_ms p,
     s_config_body := s_config_body p, s_window_body := s_window_body p, s_scan_count := s_scan_count p,
     s_scan_have := s_scan_have p, s_tx_buf := s_tx_buf p, s_qbuf := s_qbuf p\<rparr>"

lemma merge_self [simp]: "merge v v = v"
  by (simp add: merge_def)

lemma merge_sel [simp]:
  "s_state (merge p v) = s_state p" "s_tag (merge p v) = s_tag p" "s_frame_len (merge p v) = s_frame_len p"
  "s_have (merge p v) = s_have p" "s_skip_remain (merge p v) = s_skip_remain p"
  "s_last_arrival_ms (merge p v) = s_last_arrival_ms p" "s_config_body (merge p v) = s_config_body p"
  "s_window_body (merge p v) = s_window_body p" "s_scan_count (merge p v) = s_scan_count p"
  "s_scan_have (merge p v) = s_scan_have p" "s_tx_buf (merge p v) = s_tx_buf p" "s_qbuf (merge p v) = s_qbuf p"
  "s_fd (merge p v) = s_fd v" "s_is_tcp (merge p v) = s_is_tcp v" "s_is_ipc (merge p v) = s_is_ipc v"
  "s_killed (merge p v) = s_killed v" "s_last_stats_ms (merge p v) = s_last_stats_ms v"
  by (simp_all add: merge_def)

lemma merge_upd [simp]:
  "(merge p v)\<lparr>s_state := a\<rparr> = merge (p\<lparr>s_state := a\<rparr>) v"
  "(merge p v)\<lparr>s_tag := b\<rparr> = merge (p\<lparr>s_tag := b\<rparr>) v"
  "(merge p v)\<lparr>s_frame_len := w\<rparr> = merge (p\<lparr>s_frame_len := w\<rparr>) v"
  "(merge p v)\<lparr>s_have := n\<rparr> = merge (p\<lparr>s_have := n\<rparr>) v"
  "(merge p v)\<lparr>s_skip_remain := w\<rparr> = merge (p\<lparr>s_skip_remain := w\<rparr>) v"
  "(merge p v)\<lparr>s_last_arrival_ms := t\<rparr> = merge (p\<lparr>s_last_arrival_ms := t\<rparr>) v"
  "(merge p v)\<lparr>s_config_body := bs\<rparr> = merge (p\<lparr>s_config_body := bs\<rparr>) v"
  "(merge p v)\<lparr>s_window_body := bs\<rparr> = merge (p\<lparr>s_window_body := bs\<rparr>) v"
  "(merge p v)\<lparr>s_scan_count := b\<rparr> = merge (p\<lparr>s_scan_count := b\<rparr>) v"
  "(merge p v)\<lparr>s_scan_have := b\<rparr> = merge (p\<lparr>s_scan_have := b\<rparr>) v"
  "(merge p v)\<lparr>s_tx_buf := bs\<rparr> = merge (p\<lparr>s_tx_buf := bs\<rparr>) v"
  "(merge p v)\<lparr>s_qbuf := bs\<rparr> = merge (p\<lparr>s_qbuf := bs\<rparr>) v"
  "(merge p v)\<lparr>s_slot_offset_ms := t\<rparr> = merge p (v\<lparr>s_slot_offset_ms := t\<rparr>)"
  "(merge p v)\<lparr>s_slot_period_ms := t\<rparr> = merge p (v\<lparr>s_slot_period_ms := t\<rparr>)"
  "(merge p v)\<lparr>s_last_stats_ms := t\<rparr> = merge p (v\<lparr>s_last_stats_ms := t\<rparr>)"
  by (simp_all add: merge_def)

text \<open>Nothing that writes to the link looks at the private fields.\<close>

lemma ipc_writeAll_merge [simp]: "ipc_writeAll env (merge p v) buf s = ipc_writeAll env v buf s"
  by (simp add: ipc_writeAll_def)

lemma write_loop_merge [simp]: "write_loop k env (merge p v) buf s = write_loop k env v buf s"
proof (induction k arbitrary: buf s)
  case (Suc k)
  show ?case unfolding write_loop.simps Suc merge_sel by (rule refl)
qed simp

lemma writeAll_merge [simp]: "writeAll env (merge p v) buf s = writeAll env v buf s"
  by (simp add: writeAll_def)

lemma frames_merge [simp]:
  "writeFrame env (merge p v) tag buf s = writeFrame env v tag buf s"
  "writeReady env (merge p v) m s = writeReady env v m s"
  "writeError env (merge p v) c msg s = writeError env v c msg s"
  "writeDiag env (merge p v) i x s = writeDiag env v i x s"
  unfolding writeFrame_def writeReady_def writeError_def writeDiag_def writeAll_merge by simp_all

lemma handlers_merge [simp]:
  "writeStats env (merge p v) s = writeStats env v s"
  "handleReset env (merge p v) s = handleReset env v s"
  "handleTx env (merge p v) buf s = handleTx env v buf s"
  "handleConfig env (merge p v) buf w s = handleConfig env v buf w s"
  unfolding writeStats_def handleReset_def handleTx_def handleConfig_def frames_merge writeAll_merge merge_sel
  by simp_all

definition lift :: "srv \<Rightarrow> (srv \<times> 's) option \<Rightarrow> (srv \<times> 's) option" where
  "lift p m = map_option (apfst (merge p)) m"

lemma lift_simps [simp]: "lift p (Some (v, s)) = Some (merge p v, s)" "lift p None = None"
  by (simp_all add: lift_def)

lemma stats_merge [simp]: "maybeEmitStats env f (merge p v, s) = lift p (maybeEmitStats env f (v, s))"
  by (auto simp: maybeEmitStats_def Let_def split: prod.splits bind_splits)

section \<open>Quiet bytes\<close>

abbreviation tick :: "'s env \<Rightarrow> srv \<times> 's \<Rightarrow> (srv \<times> 's) option" where
  "tick env \<equiv> maybeEmitStats env False"

fun ticks :: "'s env \<Rightarrow> nat \<Rightarrow> srv \<times> 's \<Rightarrow> (srv \<times> 's) option" where
  "ticks env 0 x = Some x"
| "ticks env (Suc k) x = do { x \<leftarrow> tick env x; ticks env k x }"

lemma ticks_add: "ticks env (m + n) x = do { x \<leftarrow> ticks env m x; ticks env n x }"
  by (induction m arbitrary: x) (auto split: bind_splits)

text \<open>No idle gap is noticed before a byte that arrives at \<open>t\<close>.\<close>

definition on_time :: "u32 \<Rightarrow> srv \<Rightarrow> bool" where
  "on_time t p \<longleftrightarrow> s_skip_remain p = 0 \<and> (s_state p = kTag \<or> t - s_last_arrival_ms p \<le> 100)"

lemma parse_byte_on_time:
  "on_time t p \<Longrightarrow> parse_byte env t b (merge p v, s) =
     do { x \<leftarrow> parse_switch env b (merge (p\<lparr>s_last_arrival_ms := t\<rparr>) v, s); tick env x }"
  by (auto simp: parse_byte_def resync_def on_time_def Let_def not_less)

text \<open>\<open>quiet env p tbs p'\<close>: the bytes take the private state from \<open>p\<close> to \<open>p'\<close> and trigger ticks only.\<close>

definition quiet :: "'s env \<Rightarrow> srv \<Rightarrow> (u32 \<times> u8) list \<Rightarrow> srv \<Rightarrow> bool" where
  "quiet env p tbs p' \<longleftrightarrow>
     (\<forall>v s. feed env tbs (merge p v, s) = lift p' (ticks env (length tbs) (v, s)))"

lemma quiet_Nil: "quiet env p [] p"
  by (simp add: quiet_def)

lemma bind_lift: "Option.bind (lift p m) f = do { (v, s) \<leftarrow> m; f (merge p v, s) }"
  by (auto simp: lift_def split: option.splits bind_splits)

lemma lift_bind: "lift p (Option.bind m f) = do { x \<leftarrow> m; lift p (f x) }"
  by (auto split: bind_splits)

lemma quiet_append:
  assumes "quiet env p xs q" and "quiet env q ys r"
  shows "quiet env p (xs @ ys) r"
  using assms unfolding quiet_def
  by (simp add: feed_append ticks_add bind_lift lift_bind
      case_prod_eta [of "\<lambda>x. lift r (ticks env (length ys) x)"])

lemma quiet_step:
  assumes "on_time t p"
    and "\<And>v s. parse_switch env b (merge (p\<lparr>s_last_arrival_ms := t\<rparr>) v, s) = Some (merge q v, s)"
  shows "quiet env p [(t, b)] q"
proof -
  have "feed env [] = Some" "ticks env 0 = Some" by auto
  then show ?thesis using assms by (simp add: quiet_def parse_byte_on_time)
qed

lemma quiet_Cons:
  assumes "on_time t p"
    and "\<And>v s. parse_switch env b (merge (p\<lparr>s_last_arrival_ms := t\<rparr>) v, s) = Some (merge q v, s)"
    and "quiet env q ys r"
  shows "quiet env p ((t, b) # ys) r"
  using quiet_append [OF quiet_step [OF assms(1,2)] assms(3)] by simp

section \<open>Bodies\<close>

text \<open>
  The four states that collect a body, seen alike: the buffer, how much of it is filled, and how much
  the frame needs.
\<close>

definition in_body :: "srv \<Rightarrow> bool" where
  "in_body q \<longleftrightarrow> s_state q \<in> {kSetWindow, kConfig, kPayload, kScanBody}"

definition filled :: "srv \<Rightarrow> nat" where
  "filled q = (if s_state q = kScanBody then unat (s_scan_have q) else s_have q)"

definition body_buf :: "srv \<Rightarrow> bytes" where
  "body_buf q = (case s_state q of kSetWindow \<Rightarrow> s_window_body q | kConfig \<Rightarrow> s_config_body q
     | kPayload \<Rightarrow> s_tx_buf q | _ \<Rightarrow> s_qbuf q)"

definition need :: "srv \<Rightarrow> nat" where
  "need q = (case s_state q of kSetWindow \<Rightarrow> 8 | kScanBody \<Rightarrow> 4 + 4 * unat (s_scan_count q)
     | _ \<Rightarrow> unat (s_frame_len q))"

definition collected :: "srv \<Rightarrow> bytes" where
  "collected q = take (filled q) (body_buf q)"

definition push :: "u8 \<Rightarrow> srv \<Rightarrow> srv" where
  "push b q = (case s_state q of
       kSetWindow \<Rightarrow> q\<lparr>s_window_body := (s_window_body q)[s_have q := b], s_have := s_have q + 1\<rparr>
     | kConfig \<Rightarrow> q\<lparr>s_config_body := (s_config_body q)[s_have q := b], s_have := s_have q + 1\<rparr>
     | kPayload \<Rightarrow> q\<lparr>s_tx_buf := (s_tx_buf q)[s_have q := b], s_have := s_have q + 1\<rparr>
     | _ \<Rightarrow> q\<lparr>s_qbuf := (s_qbuf q)[unat (s_scan_have q) := b], s_scan_have := s_scan_have q + 1\<rparr>)"

lemma body_bounds:
  assumes "in_body q" and "parser_inv q"
  shows "filled q < need q" and "need q \<le> length (body_buf q)"
  using assms by (auto simp: in_body_def parser_inv_def filled_def need_def body_buf_def)

lemma filled_less_255: "parser_inv q \<Longrightarrow> s_state q = kScanBody \<Longrightarrow> unat (s_scan_have q) < 255"
  by (simp add: parser_inv_def)

lemma push_sel [simp]:
  "s_state (push b q) = s_state q" "s_frame_len (push b q) = s_frame_len q" "s_tag (push b q) = s_tag q"
  "s_scan_count (push b q) = s_scan_count q" "s_skip_remain (push b q) = s_skip_remain q"
  "s_last_arrival_ms (push b q) = s_last_arrival_ms q" "need (push b q) = need q"
  by (simp_all add: push_def need_def split: pstate.splits)

lemma push_filled:
  assumes "in_body q" and "parser_inv q"
  shows "filled (push b q) = Suc (filled q)" and "collected (push b q) = collected q @ [b]"
proof -
  have l: "filled q < length (body_buf q)" using body_bounds [OF assms] by linarith
  show f: "filled (push b q) = Suc (filled q)"
    using assms unat_inc8 [OF filled_less_255 [OF assms(2)]]
    by (auto simp: in_body_def filled_def push_def)
  have "body_buf (push b q) = (body_buf q)[filled q := b]"
    using assms(1) by (auto simp: in_body_def body_buf_def filled_def push_def)
  with f l show "collected (push b q) = collected q @ [b]"
    by (simp add: collected_def take_Suc_conv_app_nth)
qed

lemma push_inv:
  assumes "in_body q" and "parser_inv q" and "Suc (filled q) < need q"
  shows "parser_inv (push b q)"
  using assms unat_inc8 [OF filled_less_255 [OF assms(2)]]
  by (auto simp: in_body_def filled_def push_def need_def parser_inv_def)

lemma push_switch:
  assumes "in_body q" and "parser_inv q" and "Suc (filled q) < need q"
  shows "parse_switch env b (merge q v, s) = Some (merge (push b q) v, s)"
  using assms unat_inc8 [OF filled_less_255 [OF assms(2)]]
  by (auto simp: in_body_def parse_switch_def on_window_def on_config_def on_payload_def on_scan_body_def
      store_def filled_def push_def need_def parser_inv_def Let_def mult.commute)

fun paced :: "u32 \<Rightarrow> u32 list \<Rightarrow> bool" where
  "paced t [] \<longleftrightarrow> True"
| "paced t (u # us) \<longleftrightarrow> u - t \<le> 100 \<and> paced u us"

lemma paced_append: "paced t (xs @ ys) \<longleftrightarrow> paced t xs \<and> paced (last (t # xs)) ys"
  by (induction xs arbitrary: t) auto

definition same_frame :: "srv \<Rightarrow> srv \<Rightarrow> bool" where
  "same_frame q q' \<longleftrightarrow> s_state q' = s_state q \<and> s_frame_len q' = s_frame_len q \<and> s_tag q' = s_tag q
     \<and> s_scan_count q' = s_scan_count q \<and> s_skip_remain q' = s_skip_remain q"

lemma in_body_cong: "same_frame q q' \<Longrightarrow> in_body q' = in_body q" "same_frame q q' \<Longrightarrow> need q' = need q"
  by (auto simp: same_frame_def in_body_def need_def split: pstate.splits)

lemma arrival_sel [simp]:
  "in_body (q\<lparr>s_last_arrival_ms := t\<rparr>) = in_body q" "filled (q\<lparr>s_last_arrival_ms := t\<rparr>) = filled q"
  "need (q\<lparr>s_last_arrival_ms := t\<rparr>) = need q" "collected (q\<lparr>s_last_arrival_ms := t\<rparr>) = collected q"
  by (auto simp: in_body_def filled_def need_def collected_def body_buf_def split: pstate.splits)

text \<open>All but the last byte of a body are collected quietly.\<close>

lemma quiet_body:
  assumes "in_body q" and "parser_inv q" and "s_skip_remain q = 0"
    and "filled q + length bs < need q" and "paced (s_last_arrival_ms q) ts" and "length ts = length bs"
  shows "\<exists>q'. quiet env q (zip ts bs) q' \<and> same_frame q q' \<and> parser_inv q'
    \<and> collected q' = collected q @ bs \<and> filled q' = filled q + length bs
    \<and> s_last_arrival_ms q' = last (s_last_arrival_ms q # ts)"
  using assms
proof (induction bs arbitrary: q ts)
  case Nil
  then show ?case using quiet_Nil [of env q] by (auto simp: same_frame_def)
next
  case (Cons b bs)
  then obtain t us where ts: "ts = t # us" and us: "length us = length bs"
    by (cases ts) auto
  let ?q = "q\<lparr>s_last_arrival_ms := t\<rparr>"
  let ?r = "push b ?q"
  have body: "in_body ?q" "parser_inv ?q" "Suc (filled ?q) < need ?q"
    using Cons.prems by simp_all
  have on: "on_time t q" using Cons.prems ts by (simp add: on_time_def)
  have "\<exists>q'. quiet env ?r (zip us bs) q' \<and> same_frame ?r q' \<and> parser_inv q'
      \<and> collected q' = collected ?r @ bs \<and> filled q' = filled ?r + length bs
      \<and> s_last_arrival_ms q' = last (s_last_arrival_ms ?r # us)"
    using Cons.prems ts us body push_inv [OF body] push_filled [OF body(1,2), of b]
    by (intro Cons.IH) (simp_all add: in_body_def)
  then obtain q' where q': "quiet env ?r (zip us bs) q'" "same_frame ?r q'" "parser_inv q'"
      "collected q' = collected ?r @ bs" "filled q' = filled ?r + length bs"
      "s_last_arrival_ms q' = last (s_last_arrival_ms ?r # us)" by blast
  have "quiet env q ((t, b) # zip us bs) q'"
    using on push_switch [OF body] q'(1) by (rule quiet_Cons)
  moreover have "same_frame q q'" using q'(2) by (simp add: same_frame_def)
  ultimately show ?case
    using q' ts push_filled [OF body(1,2), of b] by (intro exI [of _ q']) simp
qed

end
