(* ===== verification/CommandRefinement.thy ===== *)
theory CommandRefinement
  imports Commands
begin

text \<open>
  Commands as the host sends them and the refinement of the byte parser by their execution, one
  operation per command; recovery of the parser after silence.
\<close>

section \<open>Commands\<close>

text \<open>
  Well-formed commands, and what the parser makes of malformed ones: a TX frame with a length of zero
  or beyond 24576 (its body is skipped), a CONFIG with another length than 15 or 17 (only its header
  is consumed), a scan command with a bad count, a 'T' not followed by 'X', and any other byte.
\<close>

datatype command =
    CmdTx bytes
  | CmdConfig bytes
  | CmdWindow u32 u32
  | CmdScan u32 "u32 list"
  | CmdStats
  | CmdReset
  | CmdBadTx u16 bytes
  | CmdBadConfig u16
  | CmdBadScan u8
  | CmdBadMagic u8
  | CmdNoise u8

fun enc_cmd :: "command \<Rightarrow> bytes" where
  "enc_cmd (CmdTx p) = [0x54, 0x58] @ le16 (of_nat (length p)) @ p"
| "enc_cmd (CmdConfig b) = 0x43 # le16 (of_nat (length b)) @ b"
| "enc_cmd (CmdWindow off per) = 0x57 # le32 off @ le32 per"
| "enc_cmd (CmdScan dwell fs) = [0x51, of_nat (length fs)] @ le32 dwell @ concat (map le32 fs)"
| "enc_cmd CmdStats = [0x53]"
| "enc_cmd CmdReset = [0x58]"
| "enc_cmd (CmdBadTx n junk) = [0x54, 0x58] @ le16 n @ junk"
| "enc_cmd (CmdBadConfig n) = 0x43 # le16 n"
| "enc_cmd (CmdBadScan n) = [0x51, n]"
| "enc_cmd (CmdBadMagic b) = [0x54, b]"
| "enc_cmd (CmdNoise b) = [b]"

fun cmd_ok :: "command \<Rightarrow> bool" where
  "cmd_ok (CmdTx p) \<longleftrightarrow> 0 < length p \<and> length p \<le> 24576"
| "cmd_ok (CmdConfig b) \<longleftrightarrow> length b = 15 \<or> length b = 17"
| "cmd_ok (CmdScan dwell fs) \<longleftrightarrow> 1 \<le> length fs \<and> length fs \<le> 16"
| "cmd_ok (CmdBadTx n junk) \<longleftrightarrow> (n = 0 \<or> 24576 < unat n) \<and> length junk = unat n"
| "cmd_ok (CmdBadConfig n) \<longleftrightarrow> n \<noteq> 15 \<and> n \<noteq> 17"
| "cmd_ok (CmdBadScan n) \<longleftrightarrow> n = 0 \<or> n > 16"
| "cmd_ok (CmdBadMagic b) \<longleftrightarrow> b \<noteq> 0x58"
| "cmd_ok (CmdNoise b) \<longleftrightarrow> b \<notin> {0x54, 0x57, 0x43, 0x53, 0x51, 0x58}"
| "cmd_ok _ \<longleftrightarrow> True"

text \<open>The operation a command stands for, with the statistics checks before and after it.\<close>

definition then_tick ::
  "'s env \<Rightarrow> nat \<Rightarrow> (srv \<Rightarrow> 's \<Rightarrow> (srv \<times> 's) option) \<Rightarrow> srv \<times> 's \<Rightarrow> (srv \<times> 's) option" where
  "then_tick env k h x = do {
     (v, s) \<leftarrow> ticks env k x;
     x \<leftarrow> h v s;
     tick env x }"

definition keep :: "(srv \<Rightarrow> 's \<Rightarrow> 's option) \<Rightarrow> srv \<Rightarrow> 's \<Rightarrow> (srv \<times> 's) option" where
  "keep h v s = do { s \<leftarrow> h v s; Some (v, s) }"

definition set_window :: "'s env \<Rightarrow> u32 \<Rightarrow> u32 \<Rightarrow> srv \<Rightarrow> 's \<Rightarrow> (srv \<times> 's) option" where
  "set_window env off per v s = keep (\<lambda>v. writeReady env v 511) (v\<lparr>s_slot_offset_ms := off, s_slot_period_ms := per\<rparr>) s"

fun exec_cmd :: "'s env \<Rightarrow> command \<Rightarrow> srv \<times> 's \<Rightarrow> (srv \<times> 's) option" where
  "exec_cmd env (CmdTx p) x = then_tick env (3 + length p) (keep (\<lambda>v. handleTx env v p)) x"
| "exec_cmd env (CmdConfig b) x =
     then_tick env (2 + length b) (keep (\<lambda>v. handleConfig env v b (of_nat (length b)))) x"
| "exec_cmd env (CmdWindow off per) x = then_tick env 8 (set_window env off per) x"
| "exec_cmd env (CmdScan dwell fs) x =
     then_tick env (5 + 4 * length fs) (keep (\<lambda>v. handleScanQ env (of_nat (length fs)) dwell fs)) x"
| "exec_cmd env CmdStats x = then_tick env 0 (\<lambda>v s. maybeEmitStats env True (v, s)) x"
| "exec_cmd env CmdReset x = then_tick env 0 (keep (handleReset env)) x"
| "exec_cmd env (CmdBadTx n junk) x = then_tick env 3 (keep (\<lambda>v. writeError env v 2 ''bad tx len'')) x"
| "exec_cmd env (CmdBadConfig n) x = then_tick env 2 (keep (\<lambda>v. writeError env v 3 ''bad len'')) x"
| "exec_cmd env (CmdBadScan n) x = ticks env 2 x"
| "exec_cmd env (CmdBadMagic b) x = ticks env 2 x"
| "exec_cmd env (CmdNoise b) x = ticks env 1 x"

lemma exec_cmd_fun:
  "exec_cmd env (CmdTx p) = then_tick env (3 + length p) (keep (\<lambda>v. handleTx env v p))"
  "exec_cmd env (CmdConfig b) =
     then_tick env (2 + length b) (keep (\<lambda>v. handleConfig env v b (of_nat (length b))))"
  "exec_cmd env (CmdWindow off per) = then_tick env 8 (set_window env off per)"
  "exec_cmd env (CmdScan dwell fs) =
     then_tick env (5 + 4 * length fs) (keep (\<lambda>v. handleScanQ env (of_nat (length fs)) dwell fs))"
  "exec_cmd env CmdStats = then_tick env 0 (\<lambda>v s. maybeEmitStats env True (v, s))"
  "exec_cmd env CmdReset = then_tick env 0 (keep (handleReset env))"
  "exec_cmd env (CmdBadTx n junk) = then_tick env 3 (keep (\<lambda>v. writeError env v 2 ''bad tx len''))"
  "exec_cmd env (CmdBadConfig n) = then_tick env 2 (keep (\<lambda>v. writeError env v 3 ''bad len''))"
  "exec_cmd env (CmdBadScan c) = ticks env 2"
  "exec_cmd env (CmdBadMagic c) = ticks env 2"
  "exec_cmd env (CmdNoise c) = ticks env 1"
  by (rule ext, rule exec_cmd.simps)+

fun exec_all :: "'s env \<Rightarrow> command list \<Rightarrow> srv \<times> 's \<Rightarrow> (srv \<times> 's) option" where
  "exec_all env [] x = Some x"
| "exec_all env (c # cs) x = do { x \<leftarrow> exec_cmd env c x; exec_all env cs x }"

section \<open>Each command\<close>

definition boundary :: "srv \<Rightarrow> bool" where
  "boundary p \<longleftrightarrow> parser_inv p \<and> s_state p = kTag \<and> s_skip_remain p = 0"

text \<open>\<open>parses\<close>: the bytes, wherever the parser stood at a boundary, act as \<open>m\<close> and end at a boundary.\<close>

definition parses :: "'s env \<Rightarrow> srv \<Rightarrow> (u32 \<times> u8) list \<Rightarrow> (srv \<times> 's \<Rightarrow> (srv \<times> 's) option) \<Rightarrow> bool" where
  "parses env p tbs m \<longleftrightarrow>
     (\<exists>p'. boundary p' \<and> (\<forall>v s. feed env tbs (merge p v, s) = lift p' (m (v, s))))"

lemma boundary_on_time: "boundary p \<Longrightarrow> on_time t p"
  by (simp add: boundary_def on_time_def)

lemma boundaryI: "sized p \<Longrightarrow> s_state p = kTag \<Longrightarrow> s_skip_remain p = 0 \<Longrightarrow> boundary p"
  by (auto simp: boundary_def intro: parser_inv_calm)

lemma boundary_sized: "boundary p \<Longrightarrow> sized p"
  by (simp add: boundary_def parser_inv_sized)

text \<open>Quiet bytes, then one byte whose switch branch runs the handler.\<close>

definition parses_to ::
  "'s env \<Rightarrow> srv \<Rightarrow> (u32 \<times> u8) list \<Rightarrow> (srv \<times> 's \<Rightarrow> (srv \<times> 's) option) \<Rightarrow> srv \<Rightarrow> bool" where
  "parses_to env p tbs m p' \<longleftrightarrow> (\<forall>v s. feed env tbs (merge p v, s) = lift p' (m (v, s)))"

lemma parsesI: "boundary p' \<Longrightarrow> parses_to env p tbs m p' \<Longrightarrow> parses env p tbs m"
  by (auto simp: parses_def parses_to_def)

lemma parses_to_handler:
  assumes "quiet env p tbs q" and "on_time t q"
    and "\<And>v s. parse_switch env b (merge (q\<lparr>s_last_arrival_ms := t\<rparr>) v, s) = lift p' (h v s)"
  shows "parses_to env p (tbs @ [(t, b)]) (then_tick env (length tbs) h) p'"
proof -
  have "feed env [] = Some" by auto
  then have last: "feed env [(t, b)] (merge q v, s) = do { (v, s) \<leftarrow> h v s; lift p' (tick env (v, s)) }" for v s
    using assms(2,3) by (simp add: parse_byte_on_time bind_lift)
  have "feed env (tbs @ [(t, b)]) (merge p v, s) = lift p' (then_tick env (length tbs) h (v, s))" for v s
    using assms(1) unfolding quiet_def
    by (cases "ticks env (length tbs) (v, s)")
      (auto simp add: feed_append bind_lift last then_tick_def lift_bind simp del: feed.simps
        split: bind_splits)
  then show ?thesis by (simp add: parses_to_def)
qed

lemmas parses_handler = parsesI [OF _ parses_to_handler]

lemma lift_keep: "lift p (keep h v s) = do { s \<leftarrow> h v s; Some (merge p v, s) }"
  by (simp add: keep_def lift_bind)

text \<open>Quiet bytes up to a body, its bytes, and the branch taken on the last of them.\<close>

lemma parses_body:
  assumes "quiet env p pre q" and "in_body q" "parser_inv q" "s_skip_remain q = 0" "filled q = 0"
    and "length bs = need q" and "paced (s_last_arrival_ms q) ts" "length ts = length bs"
    and fin: "\<And>q'. same_frame q q' \<Longrightarrow> parser_inv q' \<Longrightarrow> collected q' = butlast bs \<Longrightarrow> Suc (filled q') = need q
           \<Longrightarrow> \<exists>p'. boundary p' \<and> (\<forall>v s. parse_switch env (last bs) (merge q' v, s) = lift p' (h v s))"
  shows "parses env p (pre @ zip ts bs) (then_tick env (length pre + length bs - 1) h)"
proof -
  have ne: "bs \<noteq> []" "ts \<noteq> []"
    using body_bounds [OF assms(2,3)] assms(5-8) by auto
  obtain us t where ts: "ts = us @ [t]" using ne by (cases ts rule: rev_cases) auto
  obtain cs b where bs: "bs = cs @ [b]" using ne by (cases bs rule: rev_cases) auto
  have len: "length us = length cs" using assms(8) ts bs by simp
  have paced: "paced (s_last_arrival_ms q) us" "t - last (s_last_arrival_ms q # us) \<le> 100"
    using assms(7) by (simp_all add: ts paced_append)
  obtain q' where q': "quiet env q (zip us cs) q'" "same_frame q q'" "parser_inv q'"
      "collected q' = cs" "filled q' = length cs" "s_last_arrival_ms q' = last (s_last_arrival_ms q # us)"
    using quiet_body [of q cs us env] assms(2-6) paced(1) len bs
    by (auto simp: collected_def)
  have fin': "\<exists>p'. boundary p' \<and> (\<forall>v s. parse_switch env b (merge (q'\<lparr>s_last_arrival_ms := t\<rparr>) v, s) = lift p' (h v s))"
    using fin [of "q'\<lparr>s_last_arrival_ms := t\<rparr>"] q' bs assms(5,6)
    by (simp add: same_frame_def)
  then obtain p' where "boundary p'"
      "\<And>v s. parse_switch env b (merge (q'\<lparr>s_last_arrival_ms := t\<rparr>) v, s) = lift p' (h v s)" by blast
  moreover have "on_time t q'"
    using q' paced(2) assms(4) by (simp add: on_time_def same_frame_def)
  moreover have "quiet env p (pre @ zip us cs) q'"
    using assms(1) q'(1) by (rule quiet_append)
  ultimately have "parses env p ((pre @ zip us cs) @ [(t, b)]) (then_tick env (length (pre @ zip us cs)) h)"
    by (intro parses_handler)
  then show ?thesis using ts bs len by simp
qed

text \<open>Header bytes.\<close>

abbreviation at_time :: "u32 \<Rightarrow> srv \<Rightarrow> srv" where
  "at_time t p \<equiv> p\<lparr>s_last_arrival_ms := t\<rparr>"

lemma quiet_tag:
  assumes "boundary p" and "(b, st) \<in> {(0x54, kTxMagic), (0x57, kSetWindow), (0x43, kLenLo), (0x51, kScanCount)}"
  shows "quiet env p [(t, b)] ((at_time t p)\<lparr>s_tag := b, s_state := st, s_have := 0\<rparr>)"
  using assms by (intro quiet_step boundary_on_time) (auto simp: parse_switch_def on_tag_def boundary_def)

lemma quiet_magic:
  "s_state q = kTxMagic \<Longrightarrow> on_time t q \<Longrightarrow> quiet env q [(t, 0x58)] ((at_time t q)\<lparr>s_state := kLenLo\<rparr>)"
  by (intro quiet_step) (auto simp: parse_switch_def)

lemma quiet_len_lo:
  "s_state q = kLenLo \<Longrightarrow> on_time t q \<Longrightarrow>
     quiet env q [(t, b)] ((at_time t q)\<lparr>s_frame_len := ucast b, s_state := kLenHi\<rparr>)"
  by (intro quiet_step) (auto simp: parse_switch_def)

lemma len_bytes: "ucast (byte_of 0 w) OR push_bit 8 (ucast (byte_of (Suc 0) w)) = (w :: u16)"
  using un16_bytes [of w] by (simp add: un16_def)

lemma on_len_hi_merge:
  assumes "s_state q = kLenHi" and "s_frame_len q = ucast (byte_of 0 n)"
  shows "parse_switch env (byte_of 1 n) (merge q v, s) =
    (let v = merge (q\<lparr>s_frame_len := n\<rparr>) v in
     if s_tag q = 0x43 then
       (if n \<noteq> 15 \<and> n \<noteq> 17 then do { s \<leftarrow> writeError env v 3 ''bad len'' s; Some (v\<lparr>s_state := kTag\<rparr>, s) }
        else Some (v\<lparr>s_state := kConfig, s_have := 0\<rparr>, s))
     else if s_tag q = 0x54 then
       (if n = 0 \<or> 24576 < unat n
        then do { s \<leftarrow> writeError env v 2 ''bad tx len'' s;
                  Some (v\<lparr>s_skip_remain := n, s_state := kTag\<rparr>, s) }
        else Some (v\<lparr>s_state := kPayload, s_have := 0\<rparr>, s))
     else Some (v\<lparr>s_state := kTag\<rparr>, s))"
proof -
  have len: "s_frame_len q OR push_bit 8 (ucast (byte_of (Suc 0) n)) = n"
    using assms(2) by (simp add: len_bytes)
  have big: "ucast n > kMaxTotalPayload \<longleftrightarrow> 24576 < unat n"
    using unat16_less [of n]
    by (simp add: kMaxTotalPayload_def word_less_nat_alt unsigned_ucast_eq take_bit_eq_mod)
  show ?thesis
    unfolding parse_switch_def on_len_hi_def prod.case merge_sel assms(1) pstate.case merge_upd One_nat_def
      len Let_def srv.select_convs ch_simps
    by (simp add: big)
qed

text \<open>The header of a TX command up to the low length byte.\<close>

definition tx_lo :: "srv \<Rightarrow> u16 \<Rightarrow> u32 \<Rightarrow> srv \<Rightarrow> bool" where
  "tx_lo p n t q \<longleftrightarrow> sized q \<and> s_state q = kLenHi \<and> s_tag q = 0x54 \<and> s_skip_remain q = 0
     \<and> s_frame_len q = ucast (byte_of 0 n) \<and> s_last_arrival_ms q = t"

lemma quiet_tx_lo:
  assumes "boundary p" and "paced t0 [t1, t2]"
  shows "\<exists>q. quiet env p (zip [t0, t1, t2] [0x54, 0x58, byte_of 0 n]) q \<and> tx_lo p n t2 q"
proof -
  let ?q0 = "(at_time t0 p)\<lparr>s_tag := 0x54, s_state := kTxMagic, s_have := 0\<rparr>"
  let ?q1 = "(at_time t1 ?q0)\<lparr>s_state := kLenLo\<rparr>"
  let ?q2 = "(at_time t2 ?q1)\<lparr>s_frame_len := ucast (byte_of 0 n), s_state := kLenHi\<rparr>"
  have "quiet env p [(t0, 0x54)] ?q0" using assms(1) by (intro quiet_tag) simp_all
  moreover have "quiet env ?q0 [(t1, 0x58)] ?q1"
    using assms by (intro quiet_magic) (simp_all add: on_time_def boundary_def)
  moreover have "quiet env ?q1 [(t2, byte_of 0 n)] ?q2"
    using assms by (intro quiet_len_lo) (simp_all add: on_time_def boundary_def)
  ultimately have "quiet env p ([(t0, 0x54)] @ [(t1, 0x58)] @ [(t2, byte_of 0 n)]) ?q2"
    by (blast intro: quiet_append)
  moreover have "tx_lo p n t2 ?q2"
    using assms(1) boundary_sized [OF assms(1)] by (simp add: tx_lo_def boundary_def)
  ultimately show ?thesis by auto
qed

definition conf_lo :: "srv \<Rightarrow> u16 \<Rightarrow> u32 \<Rightarrow> srv \<Rightarrow> bool" where
  "conf_lo p n t q \<longleftrightarrow> sized q \<and> s_state q = kLenHi \<and> s_tag q = 0x43 \<and> s_skip_remain q = 0
     \<and> s_frame_len q = ucast (byte_of 0 n) \<and> s_last_arrival_ms q = t"

lemma quiet_conf_lo:
  assumes "boundary p" and "paced t0 [t1]"
  shows "\<exists>q. quiet env p (zip [t0, t1] [0x43, byte_of 0 n]) q \<and> conf_lo p n t1 q"
proof -
  let ?q0 = "(at_time t0 p)\<lparr>s_tag := 0x43, s_state := kLenLo, s_have := 0\<rparr>"
  let ?q1 = "(at_time t1 ?q0)\<lparr>s_frame_len := ucast (byte_of 0 n), s_state := kLenHi\<rparr>"
  have "quiet env p [(t0, 0x43)] ?q0" using assms(1) by (intro quiet_tag) simp_all
  moreover have "quiet env ?q0 [(t1, byte_of 0 n)] ?q1"
    using assms by (intro quiet_len_lo) (simp_all add: on_time_def boundary_def)
  ultimately have "quiet env p ([(t0, 0x43)] @ [(t1, byte_of 0 n)]) ?q1"
    by (blast intro: quiet_append)
  moreover have "conf_lo p n t1 ?q1"
    using assms(1) boundary_sized [OF assms(1)] by (simp add: conf_lo_def boundary_def)
  ultimately show ?thesis by auto
qed

text \<open>The length is in range: a body follows.\<close>

lemma quiet_len_hi:
  assumes "s_state q = kLenHi" "s_tag q = 0x54 \<or> s_tag q = 0x43" "sized q" "on_time t q" "s_skip_remain q = 0"
    and "s_frame_len q = ucast (byte_of 0 n)"
    and "s_tag q = 0x54 \<Longrightarrow> 0 < unat n \<and> unat n \<le> 24576" and "s_tag q = 0x43 \<Longrightarrow> n = 15 \<or> n = 17"
  shows "\<exists>q'. quiet env q [(t, byte_of 1 n)] q' \<and> parser_inv q' \<and> s_skip_remain q' = 0
    \<and> s_state q' = (if s_tag q = 0x54 then kPayload else kConfig) \<and> s_frame_len q' = n
    \<and> s_have q' = 0 \<and> s_last_arrival_ms q' = t"
proof -
  let ?q = "(at_time t q)\<lparr>s_frame_len := n, s_state := (if s_tag q = 0x54 then kPayload else kConfig), s_have := 0\<rparr>"
  have inv: "parser_inv ?q"
    using assms(2,3,7,8) by (auto simp: parser_inv_def sized_def)
  have "parse_switch env (byte_of 1 n) (merge (at_time t q) v, s) = Some (merge ?q v, s)" for v s
    using on_len_hi_merge [of "at_time t q" n env v s] assms(1,2,6-8) by (auto simp: Let_def unat_gt_0)
  then have "quiet env q [(t, byte_of 1 n)] ?q"
    using assms(4) by (intro quiet_step)
  then show ?thesis using inv assms(5) by (intro exI [of _ ?q]) simp
qed

section \<open>The commands one by one\<close>

lemma byte_defs: "le16 w = [byte_of 0 w, byte_of 1 w]" for w :: u16
  by (simp add: le16_def)

lemma kTag_boundary: "parser_inv q \<Longrightarrow> s_skip_remain q = 0 \<Longrightarrow> boundary (q\<lparr>s_state := kTag\<rparr>)"
  by (intro boundaryI) (simp_all add: parser_inv_sized)

lemma parses_tx:
  assumes "boundary p" and "0 < length pl" "length pl \<le> 24576" and "length ts = 4 + length pl"
    and "paced (hd ts) (tl ts)"
  shows "parses env p (zip ts (enc_cmd (CmdTx pl))) (exec_cmd env (CmdTx pl))"
proof -
  let ?n = "of_nat (length pl) :: u16"
  have un: "unat ?n = length pl" using assms(3) by simp
  obtain t0 t1 t2 t3 us where ts: "ts = t0 # t1 # t2 # t3 # us" and us: "length us = length pl"
    using assms(4) by (auto simp: numeral_eq_Suc length_Suc_conv)
  have pc: "paced t0 [t1, t2]" "t3 - t2 \<le> 100" "paced t3 us" using assms(5) ts by simp_all
  obtain q where q: "quiet env p (zip [t0, t1, t2] [0x54, 0x58, byte_of 0 ?n]) q" "tx_lo p ?n t2 q"
    using quiet_tx_lo [OF assms(1) pc(1)] by blast
  obtain r where r: "quiet env q [(t3, byte_of 1 ?n)] r" "parser_inv r" "s_skip_remain r = 0"
      "s_state r = kPayload" "s_frame_len r = ?n" "s_have r = 0" "s_last_arrival_ms r = t3"
    using quiet_len_hi [of q t3 ?n env] q(2) pc(2) un assms(2,3) by (auto simp: tx_lo_def on_time_def)
  have pre: "quiet env p (zip [t0, t1, t2] [0x54, 0x58, byte_of 0 ?n] @ [(t3, byte_of 1 ?n)]) r"
    using q(1) r(1) by (rule quiet_append)
  have "parses env p ((zip [t0, t1, t2] [0x54, 0x58, byte_of 0 ?n] @ [(t3, byte_of 1 ?n)]) @ zip us pl)
     (then_tick env (length (zip [t0, t1, t2] [0x54, 0x58, byte_of 0 ?n] @ [(t3, byte_of 1 ?n)]) + length pl - 1)
        (keep (\<lambda>v. handleTx env v pl)))"
  proof (rule parses_body [OF pre])
    fix q' assume q': "same_frame r q'" "parser_inv q'" "collected q' = butlast pl" "Suc (filled q') = need r"
    let ?p = "(push (last pl) q')\<lparr>s_state := kTag\<rparr>"
    have st: "s_state q' = kPayload" "s_frame_len q' = ?n" "s_skip_remain q' = 0"
      using q'(1) r by (simp_all add: same_frame_def)
    then have body: "in_body q'" by (simp add: in_body_def)
    have "collected (push (last pl) q') = pl"
      using push_filled [OF body q'(2), of "last pl"] q'(3) assms(2) by simp
    then have coll: "take (length pl) ((s_tx_buf q')[s_have q' := last pl]) = pl"
      using st q'(4) r un by (simp add: collected_def filled_def body_buf_def push_def need_def)
    have have_: "Suc (s_have q') = length pl" "s_have q' < 24576" "length (s_tx_buf q') = 24576"
      using q'(2,4) st r un assms(3) by (simp_all add: filled_def need_def parser_inv_def)
    have "parse_switch env (last pl) (merge q' v, s) = lift ?p (keep (\<lambda>v. handleTx env v pl) v s)" for v s
      using st have_ un coll assms(3)
      by (simp add: parse_switch_def on_payload_def Let_def push_def rd_slice_def store_def lift_keep)
    moreover have "boundary ?p"
      using st q'(2) by (intro boundaryI) (simp_all add: push_def parser_inv_def sized_def)
    ultimately show "\<exists>p'. boundary p' \<and> (\<forall>v s. parse_switch env (last pl) (merge q' v, s)
        = lift p' (keep (\<lambda>v. handleTx env v pl) v s))" by blast
  qed (use r us pc un in \<open>simp_all add: in_body_def filled_def need_def\<close>)
  then show ?thesis by (simp add: exec_cmd_fun ts le16_def numeral_eq_Suc)
qed

lemma parse_config_take:
  assumes "length c = 17" and "length body = 15 \<or> length body = 17" and "take (length body) c = body"
  shows "parse_config c (of_nat (length body)) = parse_config body (of_nat (length body))"
proof -
  have nth: "body ! i = c ! i" if "i < length body" for i
    using that by (subst assms(3) [symmetric]) simp
  show ?thesis
    using assms(2) by (auto simp: parse_config_def rd32_def nth Let_def)
qed

lemma parses_config:
  assumes "boundary p" and "length body = 15 \<or> length body = 17" and "length ts = 3 + length body"
    and "paced (hd ts) (tl ts)"
  shows "parses env p (zip ts (enc_cmd (CmdConfig body))) (exec_cmd env (CmdConfig body))"
proof -
  let ?n = "of_nat (length body) :: u16"
  have un: "unat ?n = length body" and ne: "body \<noteq> []" using assms(2) by auto
  obtain t0 t1 t2 us where ts: "ts = t0 # t1 # t2 # us" and us: "length us = length body"
    using assms(3) by (auto simp: numeral_eq_Suc length_Suc_conv)
  have pc: "paced t0 [t1]" "t2 - t1 \<le> 100" "paced t2 us" using assms(4) ts by simp_all
  obtain q where q: "quiet env p (zip [t0, t1] [0x43, byte_of 0 ?n]) q" "conf_lo p ?n t1 q"
    using quiet_conf_lo [OF assms(1) pc(1)] by blast
  have "?n = 15 \<or> ?n = 17" using assms(2) by auto
  then obtain r where r: "quiet env q [(t2, byte_of 1 ?n)] r" "parser_inv r" "s_skip_remain r = 0"
      "s_state r = kConfig" "s_frame_len r = ?n" "s_have r = 0" "s_last_arrival_ms r = t2"
    using quiet_len_hi [of q t2 ?n env] q(2) pc(2) by (auto simp: conf_lo_def on_time_def)
  have pre: "quiet env p (zip [t0, t1] [0x43, byte_of 0 ?n] @ [(t2, byte_of 1 ?n)]) r"
    using q(1) r(1) by (rule quiet_append)
  let ?h = "keep (\<lambda>v. handleConfig env v body (of_nat (length body)))"
  have "parses env p ((zip [t0, t1] [0x43, byte_of 0 ?n] @ [(t2, byte_of 1 ?n)]) @ zip us body)
     (then_tick env (length (zip [t0, t1] [0x43, byte_of 0 ?n] @ [(t2, byte_of 1 ?n)]) + length body - 1) ?h)"
  proof (rule parses_body [OF pre])
    fix q' assume q': "same_frame r q'" "parser_inv q'" "collected q' = butlast body" "Suc (filled q') = need r"
    let ?c = "(s_config_body q')[s_have q' := last body]"
    let ?p = "(push (last body) q')\<lparr>s_state := kTag\<rparr>"
    have st: "s_state q' = kConfig" "s_frame_len q' = ?n" "s_skip_remain q' = 0"
      using q'(1) r by (simp_all add: same_frame_def)
    then have body: "in_body q'" by (simp add: in_body_def)
    have "collected (push (last body) q') = body"
      using push_filled [OF body q'(2), of "last body"] q'(3) append_butlast_last_id [OF ne] by simp
    then have "take (length body) ?c = body"
      using st q'(4) r un by (simp add: collected_def filled_def body_buf_def push_def need_def)
    moreover have have_: "Suc (s_have q') = length body" "s_have q' < 17" "length (s_config_body q') = 17"
      using q'(2,4) st r un assms(2) by (auto simp: filled_def need_def parser_inv_def)
    ultimately have "parse_config ?c (of_nat (length body)) = parse_config body (of_nat (length body))"
      using assms(2) by (intro parse_config_take) simp_all
    then have cfg: "handleConfig env v ?c (of_nat (length body)) s = handleConfig env v body (of_nat (length body)) s" for v s
      by (simp add: handleConfig_def)
    have "(ucast ?n :: u8) = of_nat (length body)" using assms(2) by auto
    then have "parse_switch env (last body) (merge q' v, s) = lift ?p (?h v s)" for v s
      using st have_ un cfg
      by (simp add: parse_switch_def on_config_def Let_def push_def store_def lift_keep)
    moreover have "boundary ?p"
      using st q'(2) by (intro boundaryI) (simp_all add: push_def parser_inv_def sized_def)
    ultimately show "\<exists>p'. boundary p' \<and> (\<forall>v s. parse_switch env (last body) (merge q' v, s)
        = lift p' (?h v s))" by blast
  qed (use r us pc un in \<open>simp_all add: in_body_def filled_def need_def\<close>)
  then show ?thesis by (simp add: exec_cmd_fun ts le16_def numeral_eq_Suc)
qed

lemma rd32_take8:
  assumes "take 8 w = le32 a @ le32 b" and "length w = 8"
  shows "rd32 w 0 = a \<and> rd32 w 4 = b"
proof -
  have w: "w = le32 a @ le32 b" using assms by simp
  show ?thesis unfolding w using rd32_append [of "le32 a" "le32 b" 0] rd32_le32 [of a "le32 b"]
    rd32_le32 [of b "[]"] by simp
qed

lemma parses_window:
  assumes "boundary p" and "length ts = 9" and "paced (hd ts) (tl ts)"
  shows "parses env p (zip ts (enc_cmd (CmdWindow off per))) (exec_cmd env (CmdWindow off per))"
proof -
  obtain t0 us where ts: "ts = t0 # us" and us: "length us = 8"
    using assms(2) by (auto simp: numeral_eq_Suc length_Suc_conv)
  let ?body = "le32 off @ le32 per"
  let ?r = "(at_time t0 p)\<lparr>s_tag := 0x57, s_state := kSetWindow, s_have := 0\<rparr>"
  have pre: "quiet env p [(t0, 0x57)] ?r" using assms(1) by (intro quiet_tag) simp_all
  have inv: "parser_inv ?r" using boundary_sized [OF assms(1)] by (simp add: parser_inv_def sized_def)
  have "parses env p ([(t0, 0x57)] @ zip us ?body)
     (then_tick env (length [(t0, 0x57 :: u8)] + length ?body - 1) (set_window env off per))"
  proof (rule parses_body [OF pre])
    fix q' assume q': "same_frame ?r q'" "parser_inv q'" "collected q' = butlast ?body" "Suc (filled q') = need ?r"
    let ?w = "(s_window_body q')[s_have q' := last ?body]"
    let ?p = "(push (last ?body) q')\<lparr>s_state := kTag\<rparr>"
    have st: "s_state q' = kSetWindow" "s_skip_remain q' = 0"
      using q'(1) assms(1) by (simp_all add: same_frame_def boundary_def)
    then have body: "in_body q'" by (simp add: in_body_def)
    have "?body \<noteq> []" by (simp add: le32_def)
    then have coll: "collected (push (last ?body) q') = ?body"
      using push_filled [OF body q'(2), of "last ?body"] q'(3) by simp
    have have_: "s_have q' = 7" "length (s_window_body q') = 8"
      using q'(2,4) st by (simp_all add: filled_def need_def parser_inv_def)
    have t8: "take 8 ?w = ?body" and l8: "length ?w = 8"
      using coll st have_ by (simp_all add: collected_def filled_def body_buf_def push_def)
    have rd: "rd32 ?w 0 = off" "rd32 ?w 4 = per" using rd32_take8 [OF t8 l8] by blast+
    have "parse_switch env (last ?body) (merge q' v, s) = lift ?p (set_window env off per v s)" for v s
      using st have_ rd
      by (simp add: parse_switch_def on_window_def Let_def push_def store_def set_window_def lift_keep)
    moreover have "boundary ?p"
      using st q'(2) by (intro boundaryI) (simp_all add: push_def parser_inv_def sized_def)
    ultimately show "\<exists>p'. boundary p' \<and> (\<forall>v s. parse_switch env (last ?body) (merge q' v, s)
        = lift p' (set_window env off per v s))" by blast
  qed (use inv us assms ts in \<open>simp_all add: in_body_def filled_def need_def boundary_def\<close>)
  then show ?thesis by (simp add: exec_cmd_fun ts)
qed

lemma rd32_list: "i < length fs \<Longrightarrow> rd32 (concat (map le32 fs) @ r) (4 * i) = fs ! i"
proof (induction fs arbitrary: i)
  case (Cons f fs)
  show ?case
  proof (cases i)
    case (Suc j)
    have "rd32 (le32 f @ concat (map le32 fs) @ r) (length (le32 f) + 4 * j) = fs ! j"
      unfolding rd32_append using Cons Suc by simp
    then show ?thesis using Suc by simp
  qed simp
qed simp

lemma scan_body_fields:
  assumes "take (4 + 4 * length fs) q = le32 dwell @ concat (map le32 fs)" and "4 + 4 * length fs \<le> length q"
  shows "rd32 q 0 = dwell" and "map (\<lambda>i. rd32 q (4 + i * 4)) [0..<length fs] = fs"
proof -
  obtain r where q: "q = le32 dwell @ concat (map le32 fs) @ r"
    using assms(1) by (metis append.assoc append_take_drop_id)
  show "rd32 q 0 = dwell" by (simp add: q)
  have "rd32 q (length (le32 dwell) + 4 * i) = fs ! i" if "i < length fs" for i
    unfolding q rd32_append using that by (rule rd32_list)
  then show "map (\<lambda>i. rd32 q (4 + i * 4)) [0..<length fs] = fs"
    by (intro nth_equalityI) (simp_all add: mult.commute)
qed

lemma length_concat_le32 [simp]: "length (concat (map le32 fs)) = 4 * length fs"
  by (induction fs) simp_all

lemma parses_scan:
  assumes "boundary p" and "1 \<le> length fs" "length fs \<le> 16" and "length ts = 6 + 4 * length fs"
    and "paced (hd ts) (tl ts)"
  shows "parses env p (zip ts (enc_cmd (CmdScan dwell fs))) (exec_cmd env (CmdScan dwell fs))"
proof -
  obtain t0 t1 us where ts: "ts = t0 # t1 # us" and us: "length us = 4 + 4 * length fs"
    using assms(4) by (auto simp: numeral_eq_Suc length_Suc_conv)
  let ?body = "le32 dwell @ concat (map le32 fs)"
  let ?n = "of_nat (length fs) :: u8"
  let ?q = "(at_time t0 p)\<lparr>s_tag := 0x51, s_state := kScanCount, s_have := 0\<rparr>"
  let ?r = "(at_time t1 ?q)\<lparr>s_scan_count := ?n, s_scan_have := 0, s_state := kScanBody\<rparr>"
  have un: "unat ?n = length fs" using assms(3) by simp
  then have rng: "1 \<le> ?n" "?n \<le> 16" using assms(2,3) by (simp_all add: word_le_nat_alt)
  have "quiet env p [(t0, 0x51)] ?q" using assms(1) by (intro quiet_tag) simp_all
  moreover have "quiet env ?q [(t1, ?n)] ?r"
    using assms ts rng by (intro quiet_step) (simp_all add: on_time_def boundary_def parse_switch_def)
  ultimately have pre: "quiet env p ([(t0, 0x51)] @ [(t1, ?n)]) ?r" by (rule quiet_append)
  have inv: "parser_inv ?r" using boundary_sized [OF assms(1)] un assms(3) by (simp add: parser_inv_def sized_def)
  let ?h = "keep (\<lambda>v. handleScanQ env ?n dwell fs)"
  have "parses env p (([(t0, 0x51)] @ [(t1, ?n)]) @ zip us ?body)
     (then_tick env (length ([(t0, 0x51)] @ [(t1, ?n)]) + length ?body - 1) ?h)"
  proof (rule parses_body [OF pre])
    fix q' assume q': "same_frame ?r q'" "parser_inv q'" "collected q' = butlast ?body" "Suc (filled q') = need ?r"
    let ?b = "(s_qbuf q')[unat (s_scan_have q') := last ?body]"
    let ?p = "(push (last ?body) q')\<lparr>s_state := kTag\<rparr>"
    have st: "s_state q' = kScanBody" "s_skip_remain q' = 0" "s_scan_count q' = ?n"
      using q'(1) assms(1) by (simp_all add: same_frame_def boundary_def)
    then have body: "in_body q'" by (simp add: in_body_def)
    have "?body \<noteq> []" by (simp add: le32_def)
    then have coll: "collected (push (last ?body) q') = ?body"
      using push_filled [OF body q'(2), of "last ?body"] q'(3) by simp
    have have_: "unat (s_scan_have q') = 3 + 4 * length fs" "length (s_qbuf q') = 68"
      using q'(2,4) st un by (simp_all add: filled_def need_def parser_inv_def)
    have inc: "unat (s_scan_have q' + 1) = 4 + 4 * length fs"
      using unat_inc8 [of "s_scan_have q'"] have_ assms(3) by simp
    have "take (4 + 4 * length fs) ?b = ?body"
      using coll st inc by (simp add: collected_def filled_def body_buf_def push_def)
    moreover have "4 + 4 * length fs \<le> length ?b" using have_ assms(3) by simp
    ultimately have rd: "rd32 ?b 0 = dwell" "map (\<lambda>i. rd32 ?b (4 + i * 4)) [0..<length fs] = fs"
      by (rule scan_body_fields)+
    have "parse_switch env (last ?body) (merge q' v, s) = lift ?p (?h v s)" for v s
      using st have_ rd un inc assms(3)
      by (simp add: parse_switch_def on_scan_body_def Let_def push_def store_def lift_keep mult.commute)
    moreover have "boundary ?p"
      using st q'(2) by (intro boundaryI) (simp_all add: push_def parser_inv_def sized_def)
    ultimately show "\<exists>p'. boundary p' \<and> (\<forall>v s. parse_switch env (last ?body) (merge q' v, s)
        = lift p' (?h v s))" by blast
  qed (use inv us un assms ts in \<open>simp_all add: in_body_def filled_def need_def boundary_def\<close>)
  then show ?thesis by (simp add: exec_cmd_fun ts numeral_eq_Suc)
qed

lemma parses_quiet: "quiet env p tbs q \<Longrightarrow> boundary q \<Longrightarrow> length tbs = k \<Longrightarrow> parses env p tbs (ticks env k)"
  by (auto simp: parses_def quiet_def)

lemma at_boundary: "boundary p \<Longrightarrow> boundary ((at_time t p)\<lparr>s_tag := b\<rparr>)"
  by (intro boundaryI) (simp_all add: boundary_sized, simp_all add: boundary_def)

lemma parses_stats:
  assumes "boundary p"
  shows "parses env p [(t, 0x53)] (exec_cmd env CmdStats)"
proof -
  have "parses env p ([] @ [(t, 0x53)]) (then_tick env (length ([] :: (u32 \<times> u8) list)) (\<lambda>v s. maybeEmitStats env True (v, s)))"
    using assms by (intro parses_handler [OF at_boundary [of p "0x53" t] quiet_Nil] boundary_on_time)
      (simp_all add: parse_switch_def on_tag_def boundary_def)
  then show ?thesis by (simp add: exec_cmd_fun)
qed

lemma parses_reset:
  assumes "boundary p"
  shows "parses env p [(t, 0x58)] (exec_cmd env CmdReset)"
proof -
  have "parses env p ([] @ [(t, 0x58)]) (then_tick env (length ([] :: (u32 \<times> u8) list)) (keep (handleReset env)))"
    using assms by (intro parses_handler [OF at_boundary [of p "0x58" t] quiet_Nil] boundary_on_time)
      (simp_all add: parse_switch_def on_tag_def boundary_def lift_keep)
  then show ?thesis by (simp add: exec_cmd_fun)
qed

lemma parses_noise:
  assumes "boundary p" and "b \<notin> {0x54, 0x57, 0x43, 0x53, 0x51, 0x58}"
  shows "parses env p [(t, b)] (exec_cmd env (CmdNoise b))"
proof -
  have "quiet env p [(t, b)] ((at_time t p)\<lparr>s_tag := b\<rparr>)"
    using assms by (intro quiet_step boundary_on_time) (simp_all add: parse_switch_def on_tag_def boundary_def)
  then show ?thesis
    unfolding exec_cmd_fun using at_boundary [OF assms(1)] by (rule parses_quiet) simp
qed

lemma parses_bad_magic:
  assumes "boundary p" and "b \<noteq> 0x58" and "paced t0 [t1]"
  shows "parses env p [(t0, 0x54), (t1, b)] (exec_cmd env (CmdBadMagic b))"
proof -
  let ?q = "(at_time t0 p)\<lparr>s_tag := 0x54, s_state := kTxMagic, s_have := 0\<rparr>"
  let ?r = "(at_time t1 ?q)\<lparr>s_state := kTag\<rparr>"
  have "quiet env p [(t0, 0x54)] ?q" using assms(1) by (intro quiet_tag) simp_all
  moreover have "quiet env ?q [(t1, b)] ?r"
    using assms by (intro quiet_step) (simp_all add: on_time_def boundary_def parse_switch_def)
  ultimately have "quiet env p ([(t0, 0x54)] @ [(t1, b)]) ?r" by (rule quiet_append)
  moreover have "boundary ?r"
    using assms(1) boundary_sized [OF assms(1)] by (intro boundaryI) (simp_all add: boundary_def)
  ultimately show ?thesis unfolding exec_cmd_fun by (intro parses_quiet) simp_all
qed

lemma parses_bad_scan:
  assumes "boundary p" and "n = 0 \<or> n > 16" and "paced t0 [t1]"
  shows "parses env p [(t0, 0x51), (t1, n)] (exec_cmd env (CmdBadScan n))"
proof -
  let ?q = "(at_time t0 p)\<lparr>s_tag := 0x51, s_state := kScanCount, s_have := 0\<rparr>"
  let ?r = "(at_time t1 ?q)\<lparr>s_scan_count := n, s_scan_have := 0, s_state := kTag\<rparr>"
  have rng: "\<not> (1 \<le> n \<and> n \<le> 16)" using assms(2) by auto
  have "quiet env p [(t0, 0x51)] ?q" using assms(1) by (intro quiet_tag) simp_all
  moreover have "quiet env ?q [(t1, n)] ?r"
  proof (rule quiet_step)
    show "on_time t1 ?q" using assms by (simp add: on_time_def boundary_def)
    show "parse_switch env n (merge (at_time t1 ?q) v, s) = Some (merge ?r v, s)" for v s
      by (simp only: parse_switch_def rng if_False) simp
  qed
  ultimately have "quiet env p ([(t0, 0x51)] @ [(t1, n)]) ?r" by (rule quiet_append)
  moreover have "boundary ?r"
    using assms(1) boundary_sized [OF assms(1)] by (intro boundaryI) (simp_all add: boundary_def)
  ultimately show ?thesis unfolding exec_cmd_fun by (intro parses_quiet) simp_all
qed

lemma parses_bad_config:
  assumes "boundary p" and "n \<noteq> 15" "n \<noteq> 17" and "paced t0 [t1, t2]"
  shows "parses env p (zip [t0, t1, t2] (0x43 # le16 n)) (exec_cmd env (CmdBadConfig n))"
proof -
  obtain q where q: "quiet env p (zip [t0, t1] [0x43, byte_of 0 n]) q" "conf_lo p n t1 q"
    using quiet_conf_lo [of p t0 t1 env n] assms by auto
  let ?p = "(at_time t2 q)\<lparr>s_frame_len := n, s_state := kTag\<rparr>"
  have sw: "parse_switch env (byte_of 1 n) (merge (at_time t2 q) v, s)
      = lift ?p (keep (\<lambda>v. writeError env v 3 ''bad len'') v s)" for v s
    using on_len_hi_merge [of "at_time t2 q" n env v s] q(2) assms(2,3) by (simp add: conf_lo_def lift_keep)
  have "parses env p (zip [t0, t1] [0x43, byte_of 0 n] @ [(t2, byte_of 1 n)])
     (then_tick env (length (zip [t0, t1] [0x43, byte_of 0 n])) (keep (\<lambda>v. writeError env v 3 ''bad len'')))"
    using q(2) assms(4) by (intro parses_handler [of ?p, OF _ q(1)] sw boundaryI)
      (simp_all add: conf_lo_def on_time_def)
  then show ?thesis by (simp add: exec_cmd_fun le16_def numeral_eq_Suc)
qed

text \<open>A body that is skipped.\<close>

lemma feed_skip:
  assumes "sized q" "s_state q = kTag" "unat (s_skip_remain q) = length junk"
    and "paced (s_last_arrival_ms q) ts" "length ts = length junk"
  shows "\<exists>q'. boundary q' \<and> (\<forall>v s. feed env (zip ts junk) (merge q v, s) = Some (merge q' v, s))"
  using assms
proof (induction junk arbitrary: q ts)
  case Nil
  then have "boundary q" by (intro boundaryI) (simp_all add: unat_eq_0)
  then show ?case by auto
next
  case (Cons b junk)
  then obtain t us where ts: "ts = t # us" by (cases ts) auto
  let ?q = "(at_time t q)\<lparr>s_skip_remain := s_skip_remain q - 1\<rparr>"
  have nz: "s_skip_remain q \<noteq> 0" using Cons.prems(3) by auto
  then have "unat (s_skip_remain q - 1) = length junk" using Cons.prems(3) by (simp add: unat_minus_one)
  then obtain q' where q': "boundary q'" "\<And>v s. feed env (zip us junk) (merge ?q v, s) = Some (merge q' v, s)"
    using Cons.IH [of ?q us] Cons.prems ts by auto
  have "parse_byte env t b (merge q v, s) = Some (merge ?q v, s)" for v s
  proof -
    have "\<not> t - s_last_arrival_ms q > 100" using Cons.prems(4) ts by (simp add: not_less)
    then show ?thesis using nz by (simp add: parse_byte_def resync_def Let_def word_gt_0)
  qed
  then show ?case using q' ts by auto
qed

lemma parses_bad_tx:
  assumes "boundary p" and "n = 0 \<or> 24576 < unat n" "length junk = unat n" and "length ts = 4 + length junk"
    and "paced (hd ts) (tl ts)"
  shows "parses env p (zip ts (enc_cmd (CmdBadTx n junk))) (exec_cmd env (CmdBadTx n junk))"
proof -
  obtain t0 t1 t2 t3 us where ts: "ts = t0 # t1 # t2 # t3 # us" and us: "length us = length junk"
    using assms(4) by (auto simp: numeral_eq_Suc length_Suc_conv)
  have pc: "paced t0 [t1, t2]" "t3 - t2 \<le> 100" "paced t3 us" using assms(5) ts by simp_all
  obtain q where q: "quiet env p (zip [t0, t1, t2] [0x54, 0x58, byte_of 0 n]) q" "tx_lo p n t2 q"
    using quiet_tx_lo [OF assms(1) pc(1)] by blast
  let ?r = "(at_time t3 q)\<lparr>s_frame_len := n, s_skip_remain := n, s_state := kTag\<rparr>"
  let ?pre = "zip [t0, t1, t2] [0x54, 0x58, byte_of 0 n]"
  let ?m = "then_tick env (length ?pre) (keep (\<lambda>v. writeError env v 2 ''bad tx len''))"
  have sw: "parse_switch env (byte_of 1 n) (merge (at_time t3 q) v, s)
      = lift ?r (keep (\<lambda>v. writeError env v 2 ''bad tx len'') v s)" for v s
    using on_len_hi_merge [of "at_time t3 q" n env v s] q(2) assms(2) by (auto simp: tx_lo_def lift_keep)
  have hd: "parses_to env p (?pre @ [(t3, byte_of 1 n)]) ?m ?r"
    using q(2) pc(2) by (intro parses_to_handler [OF q(1)] sw) (simp add: tx_lo_def on_time_def)
  obtain r' where r': "boundary r'" "\<And>v s. feed env (zip us junk) (merge ?r v, s) = Some (merge r' v, s)"
    using feed_skip [of ?r junk us env] q(2) assms(3) pc(3) us by (auto simp: tx_lo_def)
  have "feed env ((?pre @ [(t3, byte_of 1 n)]) @ zip us junk) (merge p v, s) = lift r' (?m (v, s))" for v s
    using hd unfolding parses_to_def feed_append [of env "?pre @ [(t3, byte_of 1 n)]"]
    by (cases "?m (v, s)") (auto simp: r'(2) simp del: zip_Cons_Cons append.simps feed.simps)
  then have "parses env p ((?pre @ [(t3, byte_of 1 n)]) @ zip us junk) ?m"
    using r'(1) unfolding parses_def by blast
  then show ?thesis by (simp add: exec_cmd_fun ts le16_def numeral_eq_Suc)
qed

section \<open>Command streams\<close>

definition timely :: "u32 list \<times> command \<Rightarrow> bool" where
  "timely = (\<lambda>(ts, c). cmd_ok c \<and> length ts = length (enc_cmd c) \<and> paced (hd ts) (tl ts))"

definition timed_bytes :: "u32 list \<times> command \<Rightarrow> (u32 \<times> u8) list" where
  "timed_bytes = (\<lambda>(ts, c). zip ts (enc_cmd c))"

lemma parses_command:
  assumes "boundary p" and "timely (ts, c)"
  shows "parses env p (timed_bytes (ts, c)) (exec_cmd env c)"
proof (cases c)
  case (CmdTx pl)
  then show ?thesis using parses_tx [of p pl ts env] assms by (simp add: timely_def timed_bytes_def)
next
  case (CmdConfig b)
  then show ?thesis using parses_config [of p b ts env] assms by (simp add: timely_def timed_bytes_def)
next
  case (CmdWindow a b)
  then show ?thesis using parses_window [of p ts env a b] assms by (simp add: timely_def timed_bytes_def)
next
  case (CmdScan d fs)
  then show ?thesis using parses_scan [of p fs ts env d] assms by (simp add: timely_def timed_bytes_def)
next
  case (CmdBadTx n junk)
  then show ?thesis using parses_bad_tx [of p n junk ts env] assms by (simp add: timely_def timed_bytes_def)
next
  case (CmdBadConfig n)
  then obtain t0 t1 t2 where "ts = [t0, t1, t2]"
    using assms(2) by (auto simp: timely_def numeral_eq_Suc length_Suc_conv)
  then show ?thesis using parses_bad_config [of p n t0 t1 t2 env] CmdBadConfig assms
    by (simp add: timely_def timed_bytes_def)
next
  case (CmdBadScan n)
  then obtain t0 t1 where "ts = [t0, t1]"
    using assms(2) by (auto simp: timely_def numeral_eq_Suc length_Suc_conv)
  then show ?thesis using parses_bad_scan [of p n t0 t1 env] CmdBadScan assms
    by (simp add: timely_def timed_bytes_def)
next
  case (CmdBadMagic b)
  then obtain t0 t1 where "ts = [t0, t1]"
    using assms(2) by (auto simp: timely_def numeral_eq_Suc length_Suc_conv)
  then show ?thesis using parses_bad_magic [of p b t0 t1 env] CmdBadMagic assms
    by (simp add: timely_def timed_bytes_def)
next
  case CmdStats
  then obtain t where "ts = [t]"
    using assms(2) by (auto simp: timely_def length_Suc_conv)
  then show ?thesis using parses_stats [of p env t] CmdStats assms by (simp add: timed_bytes_def)
next
  case CmdReset
  then obtain t where "ts = [t]"
    using assms(2) by (auto simp: timely_def length_Suc_conv)
  then show ?thesis using parses_reset [of p env t] CmdReset assms by (simp add: timed_bytes_def)
next
  case (CmdNoise b)
  then obtain t where "ts = [t]"
    using assms(2) by (auto simp: timely_def length_Suc_conv)
  then show ?thesis using parses_noise [of p b env t] CmdNoise assms
    by (simp add: timely_def timed_bytes_def)
qed

lemma parser_run:
  assumes "boundary p" and "\<forall>x \<in> set input. timely x"
  shows "\<exists>p'. boundary p' \<and>
     feed env (concat (map timed_bytes input)) (merge p v, s) = lift p' (exec_all env (map snd input) (v, s))"
  using assms
proof (induction input arbitrary: p v s)
  case Nil
  then show ?case by auto
next
  case (Cons x input)
  obtain ts c where x: "x = (ts, c)" by fastforce
  have "parses env p (timed_bytes x) (exec_cmd env c)"
    using Cons.prems x by (simp add: parses_command)
  then obtain q where q: "boundary q"
      "\<And>v s. feed env (timed_bytes x) (merge p v, s) = lift q (exec_cmd env c (v, s))"
    unfolding parses_def by blast
  show ?case
  proof (cases "exec_cmd env c (v, s)")
    case None
    then show ?thesis using q x by (auto simp: feed_append)
  next
    case (Some y)
    obtain v1 s1 where y: "y = (v1, s1)" by fastforce
    obtain p' where "boundary p'" "feed env (concat (map timed_bytes input)) (merge q v1, s1)
        = lift p' (exec_all env (map snd input) (v1, s1))"
      using Cons.IH [OF q(1), of v1 s1] Cons.prems(2) by auto
    then show ?thesis using q Some x y by (auto simp: feed_append)
  qed
qed

text \<open>
  C1: the byte parser implements the command protocol.  Whatever sequence of commands the host sends,
  well-formed or malformed, with at most 100 ms between the bytes of one command and any pause
  between commands, the parser started at a frame boundary performs exactly the operations of these
  commands, in order and once each, with exactly the payloads, bodies and parameters sent, and is at
  a frame boundary again.
\<close>

theorem parser_implements_commands:
  assumes "boundary v" and "\<forall>x \<in> set input. timely x"
  shows "\<exists>p'. boundary p' \<and>
     feed env (concat (map timed_bytes input)) (v, s) = lift p' (exec_all env (map snd input) (v, s))"
  using parser_run [OF assms, of env v s] by simp

section \<open>Recovery\<close>

text \<open>The parser state after the idle rule, before the arrival time is recorded.\<close>

definition aborted :: "u32 \<Rightarrow> srv \<Rightarrow> srv" where
  "aborted t v = (resync t v)\<lparr>s_last_arrival_ms := s_last_arrival_ms v\<rparr>"

definition mid_body :: "srv \<Rightarrow> bool" where
  "mid_body v \<longleftrightarrow> s_state v \<in> {kPayload, kConfig, kSetWindow, kLenHi}"

lemma boundary_aborted:
  assumes "parser_inv v" and "t - s_last_arrival_ms v > 100"
  shows "boundary (aborted t v)"
  using assms(2) parser_inv_sized [OF assms(1)]
  by (intro boundaryI) (auto simp: aborted_def resync_def Let_def word_gt_0)

lemma resync_boundary: "boundary v \<Longrightarrow> resync t v = at_time t v"
  by (simp add: resync_def boundary_def)

lemma parse_byte_aborted:
  assumes "parser_inv v" and "t - s_last_arrival_ms v > 100"
  shows "parse_byte env t b (v, s) = parse_byte env t b (aborted t v, s)"
proof -
  have "at_time t (aborted t v) = resync t v" by (simp add: aborted_def resync_def Let_def)
  then show ?thesis
    using resync_boundary [OF boundary_aborted [OF assms]] by (simp add: parse_byte_def)
qed

lemma aborted_merge:
  assumes "t - s_last_arrival_ms v > 100"
  shows "aborted t v = merge (aborted t v) (v\<lparr>s_killed := s_killed v + (if mid_body v then 1 else 0)\<rparr>)"
  using assms by (cases "s_state v") (auto simp: aborted_def resync_def merge_def mid_body_def Let_def)

lemma enc_cmd_ne: "enc_cmd c \<noteq> []"
  by (cases c) simp_all


end
