(* ===== verification/Service.thy ===== *)
theory Service
  imports Reception CommandRefinement
begin

text \<open>
  The service as main.cpp puts it together: one thread that alternates the serial server's
  \<open>pollOnce\<close> and the worker's \<open>pollOnce\<close>, the worker's callbacks bound to the server's writers.  The
  server's environment is the worker model beside the operating system; the callbacks a worker poll
  makes are delivered when it returns (their only effect is to write frames).  The link contract
  \<open>sink\<close> of the frame writers is provided by the partial-write loop of \<open>writeAll\<close> over a UART that
  accepts at least one byte per call.
\<close>

section \<open>Server and worker side by side\<close>

definition on_os :: "('e \<Rightarrow> 'r \<times> 'e) \<Rightarrow> wk \<times> 'e \<Rightarrow> 'r \<times> wk \<times> 'e" where
  "on_os f = (\<lambda>(w, e). let (r, e) = f e in (r, w, e))"

definition on_os0 :: "('e \<Rightarrow> 'e) \<Rightarrow> wk \<times> 'e \<Rightarrow> wk \<times> 'e" where
  "on_os0 f = (\<lambda>(w, e). (w, f e))"

definition svc_env :: "'e api \<Rightarrow> 'e env \<Rightarrow> (wk \<times> 'e) env" where
  "svc_env a os = \<lparr>e_clock = on_os (e_clock os), e_nanosleep = (\<lambda>n. on_os0 (e_nanosleep os n)),
     e_lseek = (\<lambda>fd n. on_os0 (e_lseek os fd n)), e_seek_end = (\<lambda>fd. (\<lambda>(w, e). let (n, e) = e_seek_end os fd e in (n, w, e))),
     e_read = (\<lambda>fd n. on_os (e_read os fd n)), e_write = (\<lambda>fd b. on_os (e_write os fd b)),
     e_send = (\<lambda>fd b. on_os (e_send os fd b)), e_open = (\<lambda>p. on_os (e_open os p)),
     e_socket = on_os (e_socket os), e_bind_listen = (\<lambda>fd p. on_os (e_bind_listen os fd p)),
     e_accept = (\<lambda>fd. on_os (e_accept os fd)), e_setup_client = (\<lambda>fd. on_os0 (e_setup_client os fd)),
     e_setup_uart = (\<lambda>fd b. on_os0 (e_setup_uart os fd b)), e_close = (\<lambda>fd. on_os0 (e_close os fd)),
     e_fsync = (\<lambda>fd. on_os0 (e_fsync os fd)), e_fuel = e_fuel os,
     w_applyConfig = (\<lambda>c x. Some (applyConfig a c x)), w_startScan = (\<lambda>p x. Some (startScan a p x)),
     w_enqueueTx = (\<lambda>p (w, e). let (t, w) = enqueueTx p w in (t, w, e)),
     w_snapshot = (\<lambda>t (w, e). let (c, w) = snapshot t w in (c, w, e)),
     w_radioOk = (\<lambda>(w, e). k_radio_ok w)\<rparr>"

fun deliver :: "'s env \<Rightarrow> srv \<Rightarrow> callback list \<Rightarrow> 's \<Rightarrow> 's option" where
  "deliver env v [] s = Some s"
| "deliver env v (c # cs) s = do { s \<leftarrow> on_callback env v c s; deliver env v cs s }"

section \<open>The superloop\<close>

text \<open>The pause at the end of a round, longer the hotter the die.\<close>

definition round_pause :: "'e api \<Rightarrow> wk \<times> 'e \<Rightarrow> wk \<times> 'e" where
  "round_pause a = (\<lambda>(w, e).
     (w, a_nanosleep a 0 (if k_thermal_level w \<ge> 2 then 250000000
                          else if k_thermal_level w = 1 then 10050000 else 2050000) e))"

text \<open>A worker poll with its callbacks delivered.\<close>

definition worker_round :: "'e api \<Rightarrow> 'e env \<Rightarrow> srv \<Rightarrow> wk \<times> 'e \<Rightarrow> (wk \<times> 'e) option" where
  "worker_round a os v = (\<lambda>(w, e). do {
     (w', e) \<leftarrow> worker_pollOnce a (w, e);
     deliver (svc_env a os) v (drop (length (k_events w)) (k_events w')) (w', e) })"

definition superloop_round :: "'e api \<Rightarrow> 'e env \<Rightarrow> srv \<times> wk \<times> 'e \<Rightarrow> (srv \<times> wk \<times> 'e) option" where
  "superloop_round a os x = do {
     (v, s) \<leftarrow> pollOnce (svc_env a os) x;
     s \<leftarrow> worker_round a os v s;
     Some (v, round_pause a s) }"

text \<open>\<open>main\<close> up to the loop: \<^const>\<open>Inl\<close> of the exit code when the radio does not come up.\<close>

definition service_start :: "'e api \<Rightarrow> 'e env \<Rightarrow> string \<Rightarrow> u32 \<Rightarrow> 'e \<Rightarrow> (int + srv \<times> wk \<times> 'e) option" where
  "service_start a os path baud e =
     (let (ok, w, e) = worker_init a 44 (wk0, e) in
      if \<not> ok then Some (Inl 1)
      else do { x \<leftarrow> init (svc_env a os) (SerialServer path baud, w, e); Some (Inr x) })"

section \<open>A UART that accepts bytes\<close>

definition good_uart :: "'s env \<Rightarrow> ('s \<Rightarrow> bytes) \<Rightarrow> ('s \<Rightarrow> 'r) \<Rightarrow> bool" where
  "good_uart env out rest \<longleftrightarrow> e_fuel env \<ge> 1024
   \<and> (\<forall>fd buf s. buf \<noteq> [] \<longrightarrow> (\<exists>n. fst (e_write env fd buf s) = int n \<and> 1 \<le> n \<and> n \<le> length buf
        \<and> out (snd (e_write env fd buf s)) = out s @ take n buf
        \<and> rest (snd (e_write env fd buf s)) = rest s))"

lemma write_loop_uart:
  assumes "good_uart env out rest" and "\<not> s_is_tcp v" and "length buf \<le> k"
  shows "\<exists>s'. write_loop k env v buf s = Some (True, s') \<and> out s' = out s @ buf \<and> rest s' = rest s"
  using assms(3)
proof (induction k arbitrary: buf s)
  case (Suc k)
  show ?case
  proof (cases "buf = []")
    case False
    obtain m s1 where w: "e_write env (s_fd v) buf s = (m, s1)" by fastforce
    then obtain n where n: "m = int n" "1 \<le> n" "n \<le> length buf" "out s1 = out s @ take n buf" "rest s1 = rest s"
      using assms(1) False unfolding good_uart_def by (metis fst_conv snd_conv)
    have "length (drop n buf) \<le> k" using Suc.prems n by simp
    then obtain s' where "write_loop k env v (drop n buf) s1 = Some (True, s')" "out s' = out s1 @ drop n buf"
        "rest s' = rest s1"
      using Suc.IH by blast
    then show ?thesis using False assms(2) w n by simp
  qed simp
qed simp

text \<open>An opened UART, as the server sees it.\<close>

definition uart_up :: "srv \<Rightarrow> bool" where
  "uart_up v \<longleftrightarrow> s_fd v \<ge> 0 \<and> \<not> s_is_tcp v \<and> \<not> s_is_ipc v"

definition out_of :: "('e \<Rightarrow> bytes) \<Rightarrow> wk \<times> 'e \<Rightarrow> bytes" where
  "out_of out = (\<lambda>(w, e). out e)"

definition rest_of :: "('e \<Rightarrow> 'r) \<Rightarrow> wk \<times> 'e \<Rightarrow> wk \<times> 'r" where
  "rest_of rest = (\<lambda>(w, e). (w, rest e))"

lemma good_uart_svc: "good_uart os out rest \<Longrightarrow> good_uart (svc_env a os) (out_of out) (rest_of rest)"
  by (auto simp: good_uart_def svc_env_def on_os_def case_prod_beta out_of_def rest_of_def)

lemma svc_sink:
  assumes "good_uart os out rest"
  shows "sink (svc_env a os) (out_of out) (rest_of rest) (\<lambda>v s. uart_up v)"
proof
  note g = good_uart_svc [OF assms, of a]
  fix v s and buf :: bytes assume "uart_up v" "length buf \<le> 1024"
  moreover have "1024 \<le> e_fuel (svc_env a os)" using g by (simp add: good_uart_def)
  ultimately show "\<exists>r s'. writeAll (svc_env a os) v buf s = Some (r, s')
      \<and> out_of out s' = out_of out s @ buf \<and> rest_of rest s' = rest_of rest s \<and> uart_up v"
    using write_loop_uart [OF g, of v buf "e_fuel (svc_env a os)" s]
    by (auto simp: writeAll_def uart_up_def)
qed

section \<open>What transmitting leaves alone\<close>

text \<open>An observation of the board that no call made while transmitting changes.\<close>

definition tx_silent :: "'e api \<Rightarrow> ('e \<Rightarrow> 'b) \<Rightarrow> bool" where
  "tx_silent a f \<longleftrightarrow> (\<forall>e. f (snd (a_clock a e)) = f e) \<and> (\<forall>e. f (snd (r_get_clear_IrqStatus a e)) = f e)
     \<and> (\<forall>n e. f (a_busy_wait a n e) = f e) \<and> (\<forall>s n e. f (a_nanosleep a s n e) = f e)
     \<and> (\<forall>e. f (r_finishTransmit a e) = f e) \<and> (\<forall>p e. f (snd (r_startTransmit a p e)) = f e)
     \<and> (\<forall>e. f (r_standby a e) = f e) \<and> (\<forall>e. f (r_startReceive a e) = f e)"

lemma tx_silent_simps:
  assumes "tx_silent a f"
  shows "a_clock a e = (c, e1) \<Longrightarrow> f e1 = f e" "r_get_clear_IrqStatus a e = (i, e1) \<Longrightarrow> f e1 = f e"
    "f (sleepUs a n e) = f e" "f (r_finishTransmit a e) = f e" "r_startTransmit a p e = (st, e1) \<Longrightarrow> f e1 = f e"
    "f (r_standby a e) = f e" "f (r_startReceive a e) = f e" "worker_nowMs a e = (now, e1) \<Longrightarrow> f e1 = f e"
proof -
  have c: "f (snd (a_clock a e)) = f e" and i: "f (snd (r_get_clear_IrqStatus a e)) = f e"
    and s: "f (snd (r_startTransmit a p e)) = f e" for e p
    using assms unfolding tx_silent_def by blast+
  show "a_clock a e = (c, e1) \<Longrightarrow> f e1 = f e" using c [of e] by simp
  show "r_get_clear_IrqStatus a e = (i, e1) \<Longrightarrow> f e1 = f e" using i [of e] by simp
  show "r_startTransmit a p e = (st, e1) \<Longrightarrow> f e1 = f e" using s [of p e] by simp
  show "worker_nowMs a e = (now, e1) \<Longrightarrow> f e1 = f e"
    using c [of e] by (auto simp: worker_nowMs_def split: prod.splits)
  show "f (sleepUs a n e) = f e" using assms by (simp add: tx_silent_def sleepUs_def)
qed (use assms in \<open>simp_all add: tx_silent_def\<close>)

lemma armReceive_silent: "tx_silent a f \<Longrightarrow> f (snd (armReceive a x)) = f (snd x)"
  by (cases x) (simp add: armReceive_def tx_silent_def)

lemma poll_tx_silent: "tx_silent a f \<Longrightarrow> poll_tx k a d e = Some (r, e') \<Longrightarrow> f e' = f e"
proof (induction k arbitrary: e)
  case (Suc k)
  obtain now e1 where 1: "worker_nowMs a e = (now, e1)" by fastforce
  obtain irq e2 where 2: "r_get_clear_IrqStatus a e1 = (irq, e2)" by fastforce
  have f: "f e1 = f e" "f e2 = f e1" "f (sleepUs a 100 e2) = f e2"
    using tx_silent_simps [OF Suc.prems(1)] 1 2 by blast+
  have "f e' = f (sleepUs a 100 e2)" if "poll_tx k a d (sleepUs a 100 e2) = Some (r, e')"
    using Suc.IH [OF Suc.prems(1) that] .
  then show ?case using Suc.prems(2) f 1 2 by (auto simp: Let_def simp del: sleep100 split: if_splits)
qed simp

lemma send_attempts_silent: "tx_silent a f \<Longrightarrow> send_attempts n retry a p e = Some (r, e') \<Longrightarrow> f e' = f e"
proof (induction n arbitrary: retry e)
  case (Suc n)
  let ?e = "if retry then sleepUs a 500 (r_standby a e) else e"
  obtain st e1 where 1: "r_startTransmit a p ?e = (st, e1)" by fastforce
  obtain now e2 where 2: "worker_nowMs a e1 = (now, e2)" by fastforce
  have f: "f ?e = f e" "f e1 = f ?e" "f e2 = f e1"
    using tx_silent_simps [OF Suc.prems(1)] 1 2 by auto
  have p: "f e3 = f e2" "f (r_finishTransmit a e3) = f e2" if "poll_tx k a d e2 = Some (q, e3)" for k d q e3
    using poll_tx_silent [OF Suc.prems(1) that] tx_silent_simps(4) [OF Suc.prems(1)] by simp_all
  show ?case
    using Suc.prems(2) Suc.IH [OF Suc.prems(1), of True] f p 1 2
    by (auto simp: Let_def split: if_splits bind_splits)
qed simp

lemma send_packets_silent:
  "tx_silent a f \<Longrightarrow> send_packets k a payload crc bid n idx pkt (w, e) = Some (r, w', e') \<Longrightarrow> f e' = f e"
proof (induction k arbitrary: idx pkt w e)
  case (Suc k)
  then show ?case
    using send_attempts_silent [OF Suc.prems(1)] tx_silent_simps(3) [OF Suc.prems(1)]
    by (auto simp: Let_def split: if_splits bind_splits dest!: Suc.IH [OF Suc.prems(1)])
qed simp

lemma transmitBurst_silent:
  assumes "tx_silent a f" and "transmitBurst a payload (w, e) = Some (r, w', e')"
  shows "f e' = f e"
proof -
  obtain c e1 where c: "a_clock a e = (c, e1)" by fastforce
  then have "f e1 = f e" using tx_silent_simps(1) [OF assms(1)] by blast
  then show ?thesis
    using assms(2) send_packets_silent [OF assms(1)] c
    by (auto simp: transmitBurst_def Let_def split: if_splits prod.splits)
qed

section \<open>The transmit path\<close>

lemma write_frame_svc:
  assumes "good_uart os out rest" and "uart_up v"
  shows "\<exists>e1. writeDiag (svc_env a os) v i x (w, e) = Some (w, e1) \<and> out e1 = out e @ enc (Diag i x) \<and> rest e1 = rest e"
    and "\<exists>e1. writeReady (svc_env a os) v m (w, e) = Some (w, e1) \<and> out e1 = out e @ enc (Ready m) \<and> rest e1 = rest e"
  using sink.sends_Diag [OF svc_sink [OF assms(1)], of v a i x, unfolded sink.sends_def [OF svc_sink [OF assms(1)]]]
    sink.sends_Ready [OF svc_sink [OF assms(1)], of v a m, unfolded sink.sends_def [OF svc_sink [OF assms(1)]]]
    assms(2) by (fastforce simp: out_of_def rest_of_def)+

text \<open>
  C5: a transmit command from the host to the antenna and back.  With a UART that accepts bytes, a
  chip that keeps its TX contract and an idle worker (radio up, not throttled, no scan running, not
  receive-only, nothing queued), handling a TX command with a payload of 1 to 24576 bytes, serving
  the queue and delivering the callbacks puts exactly the packets of the payload on the air and sends
  the host exactly two frames: DIAG 47 with the payload length, then READY as the success terminal.
\<close>

theorem tx_command_end_to_end:
  assumes "good_uart os out sent" and "uart_up v" and "tx_chip a t done_at sent" and "tx_silent a out"
    and "\<forall>e. sent (r_standby a e) = sent e \<and> sent (r_startReceive a e) = sent e"
    and "payload \<noteq> []" and "length payload \<le> 24576"
    and "k_radio_ok w \<and> k_thermal_level w = 0 \<and> \<not> k_scan_active w \<and> role (k_cfg w) \<noteq> 2 \<and> k_tx_q w = []"
  shows "\<exists>w1 e1 w2 e2 w3 e3 bid. handleTx (svc_env a os) v payload (w, e) = Some (w1, e1)
     \<and> serviceTxQueue a (w1, e1) = Some (w2, e2)
     \<and> deliver (svc_env a os) v (drop (length (k_events w1)) (k_events w2)) (w2, e2) = Some (w3, e3)
     \<and> sent e3 = sent e @ burst_packets bid payload
     \<and> out e3 = out e @ enc (Diag 47 (of_nat (length payload))) @ enc (Ready 511)"
proof -
  define w1 where "w1 = upd_st (\<lambda>c. c\<lparr>pending_tx_valid := 1\<rparr>) (w\<lparr>k_tx_q := [payload]\<rparr>)"
  have enq: "enqueueTx payload w = (kOk, w1)" using assms(8) by (simp add: enqueueTx_def w1_def)
  obtain e1 where 1: "writeDiag (svc_env a os) v 47 (of_nat (length payload)) (w1, e) = Some (w1, e1)"
      "out e1 = out e @ enc (Diag 47 (of_nat (length payload)))" "sent e1 = sent e"
    using write_frame_svc(1) [OF assms(1,2)] by blast
  have h: "handleTx (svc_env a os) v payload (w, e) = Some (w1, e1)"
    using 1 enq by (simp add: handleTx_def svc_env_def)
  define w2 where "w2 = upd_st (\<lambda>c. c\<lparr>pending_tx_valid := 0, burst_mode := 2\<rparr>) (w1\<lparr>k_tx_q := []\<rparr>)"
  obtain bid w3 e3 where tb: "transmitBurst a payload (w2, r_standby a e1) = Some (None, w3, e3)"
      "sent e3 = sent (r_standby a e1) @ burst_packets bid payload"
    using burst_airs [OF assms(3,6,7), of w2 "r_standby a e1"] by blast
  have w3: "k_events w3 = k_events w" "k_thermal_level w3 = 0"
    using transmitBurst_keeps [OF tb(1)] assms(8) by (simp_all add: keeps_def w2_def w1_def)
  have out3: "out e3 = out e1"
    using transmitBurst_silent [OF assms(4) tb(1)] assms(4) by (simp add: tx_silent_def)
  obtain w4 e4 where arm: "armReceive a (upd_st (\<lambda>c. c\<lparr>burst_mode := 0\<rparr>) w3, e3) = (w4, e4)" by fastforce
  have e4: "out e4 = out e3" "sent e4 = sent e3"
    using armReceive_silent [OF assms(4), of "(upd_st (\<lambda>c. c\<lparr>burst_mode := 0\<rparr>) w3, e3)"] arm assms(5)
    by (auto simp: armReceive_def split: if_splits)
  have w4: "k_events w4 = k_events w" "k_thermal_level w4 = 0"
    using armReceive_sel(2,7) [of a "(upd_st (\<lambda>c. c\<lparr>burst_mode := 0\<rparr>) w3, e3)"] arm w3 by simp_all
  let ?w5 = "emit (OnTerminal kOk) w4"
  have q: "serviceTxQueue a (w1, e1) = Some (?w5, e4)"
    using assms(8) tb(1) arm w4(2) by (simp add: serviceTxQueue_def w1_def w2_def)
  obtain e5 where "writeReady (svc_env a os) v 511 (?w5, e4) = Some (?w5, e5)"
      "out e5 = out e4 @ enc (Ready 511)" "sent e5 = sent e4"
    using write_frame_svc(2) [OF assms(1,2)] by blast
  moreover have "drop (length (k_events w1)) (k_events ?w5) = [OnTerminal kOk]" using w4 by (simp add: w1_def)
  ultimately have "deliver (svc_env a os) v (drop (length (k_events w1)) (k_events ?w5)) (?w5, e4) = Some (?w5, e5)"
    "sent e5 = sent e @ burst_packets bid payload"
    "out e5 = out e @ enc (Diag 47 (of_nat (length payload))) @ enc (Ready 511)"
    using e4 out3 1 tb(2) assms(5) by (simp_all add: onWorkerTerminal_def)
  then show ?thesis using h q by blast
qed

end
