(* ===== verification/Bench.thy ===== *)
theory Bench
  imports Service
begin

text \<open>
  A simulated board on which the hypotheses of the properties can be seen to hold: a clock, a chip
  that transmits every packet in 3 ms and hands out the packets of its RX FIFO, and a UART with
  pending input and collected output that accepts a bounded number of bytes per write.  It is the
  concrete environment of the witnesses; no property is stated about it.
\<close>

record bench =
  b_ns :: nat
  b_done :: nat
  b_sent :: "bytes list"
  b_fifo :: "bytes list"
  b_freq :: u32
  b_power :: i8
  b_calls :: nat
  b_in :: bytes
  b_out :: bytes
  b_piece :: nat
  b_pos :: nat
  b_mem :: "nat \<Rightarrow> u8"

definition bench0 :: bench where
  "bench0 = \<lparr>b_ns = 5000000000, b_done = 0, b_sent = [], b_fifo = [], b_freq = 0, b_power = 0,
     b_calls = 0, b_in = [], b_out = [], b_piece = 7, b_pos = 0, b_mem = (\<lambda>i. 0)\<rparr>"

definition bench_api :: "bench api" where
  "bench_api = \<lparr>a_clock = (\<lambda>b. ((b_ns b div 1000000000, b_ns b mod 1000000000), b)),
     a_nanosleep = (\<lambda>s n b. b\<lparr>b_ns := b_ns b + s * 1000000000 + n\<rparr>),
     a_busy_wait = (\<lambda>n b. b\<lparr>b_ns := b_ns b + n * 1000 div 27\<rparr>),
     a_power_set = (\<lambda>g v b. b), a_state_file = (\<lambda>b. (None, b)), a_open_ts = (\<lambda>b. (-1, b)),
     a_read_ts = (\<lambda>fd b. ((0, 0), b)), a_pm_shutdown = (\<lambda>b. b), a_pm_governor_auto = (\<lambda>x b. b),
     a_pm_profile = (\<lambda>p b. b),
     r_beginFLRC = (\<lambda>f br cr p pre tc sh b. (0, b\<lparr>b_freq := f, b_power := p\<rparr>)),
     r_setPacketType = (\<lambda>x b. b), r_setModulationParamsFLRC = (\<lambda>x y z b. b),
     r_setPacketParamsFLRC = (\<lambda>p q r s l c b. b), r_setGfskCrcParams = (\<lambda>x y b. b),
     r_setFLRCSyncWord = (\<lambda>n x b. b), r_writeRegMem32 = (\<lambda>x y b. b),
     r_configFifoIrq = (\<lambda>p q r s t u b. b), r_standby = (\<lambda>b. b),
     r_setFrequency = (\<lambda>f b. (0, b\<lparr>b_freq := f\<rparr>)), r_setOutputPower = (\<lambda>p b. b\<lparr>b_power := p\<rparr>),
     r_startReceive = (\<lambda>b. b),
     r_startTransmit = (\<lambda>p b. (0, b\<lparr>b_sent := b_sent b @ [p], b_done := b_ns b + 3000000\<rparr>)),
     r_finishTransmit = (\<lambda>b. b),
     r_get_clear_IrqStatus = (\<lambda>b. ((if b_done b \<le> b_ns b then IRQ_TX_DONE else 0) OR
        (if b_fifo b \<noteq> [] then IRQ_RX_DONE else 0), b)),
     r_getRxFifoLevel = (\<lambda>b. (if b_fifo b = [] then 0 else 511, b)),
     r_clearRxBuffer = (\<lambda>b. b), r_rssi_raw = (\<lambda>b. (160, b)),
     r_readData = (\<lambda>n b. case b_fifo b of p # ps \<Rightarrow> ((p, 0), b\<lparr>b_fifo := ps\<rparr>) | [] \<Rightarrow> (([], -1), b)),
     a_fuel = 300\<rparr>"

lemma bench_irq:
  "snd (r_get_clear_IrqStatus bench_api b) = b"
  "fst (r_get_clear_IrqStatus bench_api b) AND IRQ_TIMEOUT = 0"
  "fst (r_get_clear_IrqStatus bench_api b) AND IRQ_TX_DONE \<noteq> 0 \<longleftrightarrow> b_done b \<le> b_ns b"
  "fst (r_get_clear_IrqStatus bench_api b) AND IRQ_RX_DONE \<noteq> 0 \<longleftrightarrow> b_fifo b \<noteq> []"
  "fst (r_get_clear_IrqStatus bench_api b) AND (IRQ_CRC_ERROR OR IRQ_LEN_ERROR OR IRQ_LORA_HEADER_ERROR OR IRQ_TIMEOUT) = 0"
  "fst (r_get_clear_IrqStatus bench_api b) AND (IRQ_CRC_ERROR OR IRQ_LEN_ERROR OR IRQ_LORA_HEADER_ERROR) = 0"
  by (cases "b_done b \<le> b_ns b"; cases "b_fifo b = []"; simp add: bench_api_def const_vals)+

lemma bench_ticking: "ticking bench_api b_ns"
  unfolding ticking_def bench_irq by (simp add: bench_api_def)

lemma bench_tx: "tx_chip bench_api b_ns b_done b_sent"
  unfolding tx_chip_def bench_irq using bench_ticking by (simp add: bench_api_def)

lemma bench_rx: "rx_chip bench_api b_fifo"
  unfolding rx_chip_def bench_irq by (simp add: bench_api_def)

section \<open>Witnesses of the worker's properties\<close>

lemma transmitBurst_returns_witness:
  "\<exists>err w' e'. transmitBurst bench_api (replicate 30000 0) (wk0, bench0) = Some (err, w', e')"
  by (rule transmitBurst_returns [OF bench_ticking])

lemma transmitBurst_complete_witness:
  "\<exists>bid w' e'. transmitBurst bench_api [1, 2, 3] (wk0, bench0) = Some (None, w', e')
     \<and> b_sent e' = burst_packets bid [1, 2, 3]"
  using transmitBurst_complete [OF bench_tx, of "[1, 2, 3]" wk0 bench0] by (auto simp: bench0_def)


lemma bench_reach:
  "\<exists>w e. wreach bench_api ([[1, 2, 3]], w, e) \<and> length (k_tx_q w) = 1"
proof -
  obtain ok w e where boot: "worker_init bench_api 44 (wk0, bench0) = (ok, w, e)" by (metis surj_pair)
  have w: "k_radio_ok w" "k_thermal_level w = 0" "k_tx_q w = []"
    using boot by (auto simp: worker_init_def bench_api_def Let_def wk0_def armReceive_def upd_st_def
        config0_def split: if_splits)
  obtain t w' where q: "enqueueTx [1, 2, 3] w = (t, w')" by fastforce
  then have "t = kOk" "k_tx_q w' = [[1, 2, 3]]" using w by (auto simp: enqueueTx_def)
  then have "wreach bench_api ([] @ [[1, 2, 3]], w', e)"
    using wreach.step [OF wreach.boot [OF boot] wstep.accept] q by blast
  then show ?thesis using \<open>k_tx_q w' = [[1, 2, 3]]\<close> by auto
qed


section \<open>The UART of the bench\<close>

definition bench_os :: "bench env" where
  "bench_os = \<lparr>e_clock = a_clock bench_api, e_nanosleep = (\<lambda>n b. b\<lparr>b_ns := b_ns b + n\<rparr>),
     e_lseek = (\<lambda>fd n b. b), e_seek_end = (\<lambda>fd b. (0, b)),
     e_read = (\<lambda>fd n b. ((int (length (take n (b_in b))), take n (b_in b), False), b\<lparr>b_in := drop n (b_in b)\<rparr>)),
     e_write = (\<lambda>fd buf b. let p = take (Suc (b_piece b)) buf in (int (length p), b\<lparr>b_out := b_out b @ p\<rparr>)),
     e_send = (\<lambda>fd buf b. ((-1, False), b)), e_open = (\<lambda>p b. (3, b)), e_socket = (\<lambda>b. (-1, b)),
     e_bind_listen = (\<lambda>fd p b. (True, b)), e_accept = (\<lambda>fd b. (-1, b)), e_setup_client = (\<lambda>fd b. b),
     e_setup_uart = (\<lambda>fd n b. b), e_close = (\<lambda>fd b. b), e_fsync = (\<lambda>fd b. b), e_fuel = 1024,
     w_applyConfig = (\<lambda>c b. Some (None, b)), w_startScan = (\<lambda>p b. Some b),
     w_enqueueTx = (\<lambda>p b. (kOk, b)), w_snapshot = (\<lambda>t b. (counters0, b)), w_radioOk = (\<lambda>b. True)\<rparr>"

lemma bench_uart: "good_uart bench_os b_out b_sent"
  by (auto simp: good_uart_def bench_os_def Let_def min_def Suc_le_eq)

text \<open>The link contract holds for the service's own writers on this UART.\<close>

interpretation uart_link: sink "svc_env bench_api bench_os" "out_of b_out" "rest_of b_sent" "\<lambda>v s. uart_up v"
  by (rule svc_sink [OF bench_uart])

lemma bench_live: "live (svc_env bench_api bench_os)"
proof -
  have "runs (writeAll (svc_env bench_api bench_os) v buf s)" if "length buf \<le> 1024" for v buf s
  proof (cases "s_fd v < 0 \<or> s_is_ipc v \<or> s_is_tcp v")
    case False
    then show ?thesis using uart_link.delivers [of v buf s] that by (auto simp: uart_up_def runs_def)
  next
    case True
    have "runs (write_loop (Suc k) (svc_env bench_api bench_os) v buf s)" if "s_is_tcp v" for k
      using that by (simp add: svc_env_def bench_os_def on_os_def case_prod_beta)
    then show ?thesis using True by (auto simp: writeAll_def svc_env_def bench_os_def numeral_eq_Suc)
  qed
  then show ?thesis by (simp add: live_def live_on_def) (simp add: svc_env_def)
qed

lemma parser_memory_safe_witness:
  "\<exists>v s'. feed (svc_env bench_api bench_os) [(0, 0x54), (1, 0x58), (200, 7)] ((SerialServer ''/dev/ttyS1'' 115200)\<lparr>s_fd := 3\<rparr>, wk0, bench0)
     = Some (v, s') \<and> parser_inv v"
  by (rule parser_memory_safe [OF bench_live])

text \<open>A TX command of three bytes, then a CONFIG with a bad length, with gaps of 1 ms.\<close>

definition bench_input :: "(u32 list \<times> command) list" where
  "bench_input = [([1, 2, 3, 4, 5, 6, 7], CmdTx [9, 8, 7]), ([800, 801, 802], CmdBadConfig 16)]"

lemma bench_timely: "\<forall>x \<in> set bench_input. timely x"
  by (simp add: bench_input_def timely_def le16_def)

lemma bench_server: "boundary (SerialServer [] 0)"
  using SerialServer_inv [of "[]" 0] by (simp add: boundary_def SerialServer_def srv0_def Let_def)

lemma parser_implements_commands_witness:
  "\<exists>p'. boundary p' \<and> feed bench_os (concat (map timed_bytes bench_input)) (SerialServer [] 0, bench0)
     = lift p' (exec_all bench_os (map snd bench_input) (SerialServer [] 0, bench0))"
  by (rule parser_implements_commands [OF bench_server bench_timely])

text \<open>A parser stopped in the middle of a payload since time 0 of a clock at 500 ms.\<close>

definition bench_stuck :: srv where
  "bench_stuck = (srv0 [] 0)\<lparr>s_state := kPayload, s_tag := 0x54, s_frame_len := 100, s_have := 5,
     s_last_arrival_ms := - 500\<rparr>"


lemma tx_command_end_to_end_witness:
  "\<exists>w1 e1 w2 e2 w3 e3. handleTx (svc_env bench_api bench_os) ((SerialServer [] 0)\<lparr>s_fd := 3\<rparr>) [1, 2, 3]
       (wk0\<lparr>k_radio_ok := True\<rparr>, bench0) = Some (w1, e1)
     \<and> serviceTxQueue bench_api (w1, e1) = Some (w2, e2)
     \<and> deliver (svc_env bench_api bench_os) ((SerialServer [] 0)\<lparr>s_fd := 3\<rparr>)
         (drop (length (k_events w1)) (k_events w2)) (w2, e2) = Some (w3, e3)
     \<and> b_out e3 = [0x44, 6, 0, 47, 3, 0, 0, 0, 0, 0x47, 255, 1]"
proof -
  have up: "uart_up ((SerialServer [] 0)\<lparr>s_fd := 3\<rparr>)" by (simp add: uart_up_def SerialServer_def srv0_def starts_with_def)
  have silent: "tx_silent bench_api b_out" unfolding tx_silent_def bench_irq by (simp add: bench_api_def)
  have s: "\<forall>e. b_sent (r_standby bench_api e) = b_sent e \<and> b_sent (r_startReceive bench_api e) = b_sent e"
    by (simp add: bench_api_def)
  let ?w = "wk0\<lparr>k_radio_ok := True\<rparr>"
  have idle: "k_radio_ok ?w \<and> k_thermal_level ?w = 0 \<and> \<not> k_scan_active ?w \<and> role (k_cfg ?w) \<noteq> 2 \<and> k_tx_q ?w = []"
    by (simp add: wk0_def config0_def)
  have "b_out bench0 @ enc (Diag 47 (of_nat (length [1, 2, 3 :: u8]))) @ enc (Ready 511)
      = [0x44, 6, 0, 47, 3, 0, 0, 0, 0, 0x47, 255, 1]"
    by (simp add: bench0_def le32_def le16_def byte_of_def)
  then show ?thesis
    using tx_command_end_to_end [OF bench_uart up bench_tx silent s _ _ idle, of "[1, 2, 3]" bench0] by auto
qed

end
