(* ===== verification/WorkerScan.thy ===== *)
theory WorkerScan
  imports WorkerInv
begin

text \<open>
  Scanning: a sweep reports every channel of the grid exactly once, in order, with the tallies of
  the packets received on it, and then returns to the frequency it started from.
\<close>

section \<open>Channel visits\<close>

text \<open>
  What happens on one channel, seen from the scan: the packets received there (with their RSSI), then
  the poll at time \<open>now\<close> that ends the dwell.
\<close>

type_synonym visit = "(bytes \<times> i16) list \<times> u32"

definition receive_all :: "(bytes \<times> i16) list \<Rightarrow> wk \<Rightarrow> wk" where
  "receive_all rs w = fold (\<lambda>(p, r). tally_scan p r) rs w"

fun sweep :: "'e api \<Rightarrow> visit list \<Rightarrow> wk \<times> 'e \<Rightarrow> wk \<times> 'e" where
  "sweep a [] x = x"
| "sweep a ((rs, now) # vs) (w, e) = sweep a vs (scanTick a now (receive_all rs w, e))"

text \<open>The tallies of a visit.\<close>

definition consensus_count :: "(bytes \<times> i16) list \<Rightarrow> u32" where
  "consensus_count rs = of_nat (length (filter (\<lambda>(p, r). is_consensus_prefix p) rs))"

definition best_rssi :: "(bytes \<times> i16) list \<Rightarrow> i8 \<Rightarrow> i8" where
  "best_rssi rs b = fold (\<lambda>(p, r) b. if sint r > sint b then ucast r else b) rs b"

definition report :: "scan_params \<Rightarrow> nat \<Rightarrow> (bytes \<times> i16) list \<Rightarrow> callback" where
  "report p i rs = OnScan (scan_freq p (of_nat i)) (of_nat (length rs)) (consensus_count rs) (best_rssi rs (-128))"

text \<open>Every visit ends when its dwell is over or a consensus packet was heard; \<open>t\<close> is when it began.\<close>

fun all_due :: "u32 \<Rightarrow> u32 \<Rightarrow> visit list \<Rightarrow> bool" where
  "all_due d t [] \<longleftrightarrow> True"
| "all_due d t ((rs, now) # vs) \<longleftrightarrow> (consensus_count rs \<noteq> 0 \<or> \<not> before now (t + d)) \<and> all_due d now vs"

section \<open>Receptions\<close>

lemma receive_all_scan:
  assumes "k_scan_active w"
  shows "receive_all rs w = w\<lparr>k_scan_best_rssi := best_rssi rs (k_scan_best_rssi w),
     k_scan_consensus := k_scan_consensus w + consensus_count rs,
     k_scan_frames := k_scan_frames w + of_nat (length rs)\<rparr>"
  using assms
proof (induction rs arbitrary: w)
  case Nil
  then show ?case by (simp add: receive_all_def best_rssi_def consensus_count_def)
next
  case (Cons x rs)
  obtain p r where x: "x = (p, r)" by fastforce
  let ?w = "tally_scan p r w"
  have act: "k_scan_active ?w" using Cons.prems by (simp add: tally_scan_def)
  have "receive_all (x # rs) w = receive_all rs ?w" by (simp add: receive_all_def x)
  also have "\<dots> = ?w\<lparr>k_scan_best_rssi := best_rssi rs (k_scan_best_rssi ?w),
     k_scan_consensus := k_scan_consensus ?w + consensus_count rs,
     k_scan_frames := k_scan_frames ?w + of_nat (length rs)\<rparr>" by (rule Cons.IH [OF act])
  finally show ?case
    using Cons.prems by (simp add: x tally_scan_def best_rssi_def consensus_count_def ac_simps)
qed

section \<open>One visit\<close>

text \<open>The scan is on channel \<open>i\<close> of \<open>p\<close> since time \<open>t\<close>, nothing received there yet.\<close>

definition on_channel :: "scan_params \<Rightarrow> u32 \<Rightarrow> u32 \<Rightarrow> nat \<Rightarrow> wk \<Rightarrow> bool" where
  "on_channel p home t i w \<longleftrightarrow> k_scan_active w \<and> k_radio_ok w \<and> k_scan w = p \<and> k_pre_scan_freq w = home
     \<and> k_scan_idx w = of_nat i \<and> k_scan_frames w = 0 \<and> k_scan_consensus w = 0 \<and> k_scan_best_rssi w = -128
     \<and> k_scan_until w = t + dwell_ms p"

lemma armReceive_more_sel [simp, frame]:
  "k_scan_best_rssi (fst (armReceive a x)) = k_scan_best_rssi (fst x)"
  by (simp add: armReceive_def split: prod.splits)

lemma unat_next_idx: "i < unat (n :: u8) \<Longrightarrow> of_nat i + 1 \<ge> n \<longleftrightarrow> Suc i = unat n"
proof -
  assume i: "i < unat n"
  then have s: "Suc i < 256" using unat8_less [of n] by simp
  have "unat (of_nat i + 1 :: u8) = unat (of_nat (Suc i) :: u8)" by (simp add: ac_simps)
  also have "\<dots> = Suc i" using s by (rule unat_len8)
  finally show ?thesis using i by (auto simp: word_le_nat_alt)
qed

lemma visit_more:
  assumes "on_channel p home t i w" and "i < unat (scan_ch_count p)" and "Suc i \<noteq> unat (scan_ch_count p)"
    and "consensus_count rs \<noteq> 0 \<or> \<not> before now (t + dwell_ms p)"
  shows "\<exists>w' e'. scanTick a now (receive_all rs w, e) = (w', e') \<and> on_channel p home now (Suc i) w'
    \<and> k_events w' = k_events w @ [report p i rs]"
proof -
  let ?w = "receive_all rs w"
  have r: "?w = w\<lparr>k_scan_best_rssi := best_rssi rs (-128), k_scan_consensus := consensus_count rs,
      k_scan_frames := of_nat (length rs)\<rparr>"
    using assms(1) by (simp add: receive_all_scan on_channel_def)
  have due: "\<not> (k_scan_consensus ?w = 0 \<and> before now (k_scan_until ?w))"
    using assms(1,4) r by (auto simp: on_channel_def)
  have more: "\<not> of_nat i + 1 \<ge> scan_ch_count p" using unat_next_idx [OF assms(2)] assms(3) by simp
  obtain st e1 where f: "r_setFrequency a (scan_freq p (of_nat i + 1)) (r_standby a e) = (st, e1)" by fastforce
  let ?v = "emit (report p i rs) ?w"
  let ?u = "?v\<lparr>k_scan_idx := of_nat i + 1, k_cfg := (k_cfg ?v)\<lparr>frequency_hz := scan_freq p (of_nat i + 1)\<rparr>,
     k_scan_frames := 0, k_scan_consensus := 0, k_scan_best_rssi := -128, k_scan_until := now + dwell_ms p\<rparr>"
  have tick: "scanTick a now (?w, e) = armReceive a (?u, e1)"
    using due more assms(1) f unfolding scanTick_def Let_def prod.case
    by (cases "consensus_count rs = 0") (simp_all add: r on_channel_def report_def emit_def)
  have "on_channel p home now (Suc i) (fst (armReceive a (?u, e1)))"
    using assms(1) r by (simp add: on_channel_def ac_simps)
  moreover have "k_events (fst (armReceive a (?u, e1))) = k_events w @ [report p i rs]" by (simp add: r)
  ultimately show ?thesis unfolding tick by (metis prod.collapse)
qed

lemma visit_last:
  assumes "on_channel p home t i w" and "Suc i = unat (scan_ch_count p)" and "home > 0"
    and "consensus_count rs \<noteq> 0 \<or> \<not> before now (t + dwell_ms p)"
  shows "\<exists>w' e'. scanTick a now (receive_all rs w, e) = (w', e') \<and> \<not> k_scan_active w'
    \<and> frequency_hz (k_cfg w') = home \<and> k_events w' = k_events w @ [report p i rs]"
proof -
  let ?w = "receive_all rs w"
  have r: "?w = w\<lparr>k_scan_best_rssi := best_rssi rs (-128), k_scan_consensus := consensus_count rs,
      k_scan_frames := of_nat (length rs)\<rparr>"
    using assms(1) by (simp add: receive_all_scan on_channel_def)
  have due: "\<not> (k_scan_consensus ?w = 0 \<and> before now (k_scan_until ?w))"
    using assms(1,4) r by (auto simp: on_channel_def)
  have fin: "of_nat i + 1 \<ge> scan_ch_count p"
    using unat_next_idx [of i "scan_ch_count p"] assms(2) by simp
  obtain st e1 where f: "r_setFrequency a home (r_standby a e) = (st, e1)" by fastforce
  let ?v = "emit (report p i rs) ?w"
  let ?u = "?v\<lparr>k_scan_idx := of_nat i + 1, k_scan_active := False, k_cfg := (k_cfg ?v)\<lparr>frequency_hz := home\<rparr>\<rparr>"
  have tick: "scanTick a now (?w, e) = armReceive a (?u, e1)"
    using due fin assms(1,3) f unfolding scanTick_def Let_def prod.case
    by (cases "consensus_count rs = 0") (simp_all add: r on_channel_def report_def emit_def)
  have "k_events (fst (armReceive a (?u, e1))) = k_events w @ [report p i rs]" by (simp add: r)
  moreover have "\<not> k_scan_active (fst (armReceive a (?u, e1)))" "frequency_hz (k_cfg (fst (armReceive a (?u, e1)))) = home"
    by simp_all
  ultimately show ?thesis unfolding tick by (metis prod.collapse)
qed

section \<open>The sweep\<close>

lemma sweep_from:
  assumes "on_channel p home t i w" and "home > 0" and "i + length vs = unat (scan_ch_count p)" and "vs \<noteq> []"
    and "all_due (dwell_ms p) t vs"
  shows "\<exists>w' e'. sweep a vs (w, e) = (w', e') \<and> \<not> k_scan_active w' \<and> frequency_hz (k_cfg w') = home
    \<and> k_events w' = k_events w @ map (\<lambda>(i, rs, now). report p i rs) (zip [i..<i + length vs] vs)"
  using assms(1,3-5)
proof (induction vs arbitrary: w e t i)
  case (Cons x vs)
  obtain rs now where x: "x = (rs, now)" by fastforce
  have due: "consensus_count rs \<noteq> 0 \<or> \<not> before now (t + dwell_ms p)" "all_due (dwell_ms p) now vs"
    using Cons.prems(4) x by simp_all
  show ?case
  proof (cases vs)
    case Nil
    then have last: "Suc i = unat (scan_ch_count p)" using Cons.prems(2) by simp
    obtain w' e' where "scanTick a now (receive_all rs w, e) = (w', e')" "\<not> k_scan_active w'"
        "frequency_hz (k_cfg w') = home" "k_events w' = k_events w @ [report p i rs]"
      using visit_last [OF Cons.prems(1) last assms(2) due(1), of a e] by blast
    then show ?thesis by (simp add: Nil x)
  next
    case (Cons y ys)
    have lt: "i < unat (scan_ch_count p)" "Suc i \<noteq> unat (scan_ch_count p)"
      using Cons.prems(2) Cons by simp_all
    obtain w1 e1 where 1: "scanTick a now (receive_all rs w, e) = (w1, e1)" "on_channel p home now (Suc i) w1"
        "k_events w1 = k_events w @ [report p i rs]"
      using visit_more [OF Cons.prems(1) lt due(1), of a e] by blast
    have "\<exists>w' e'. sweep a vs (w1, e1) = (w', e') \<and> \<not> k_scan_active w' \<and> frequency_hz (k_cfg w') = home
      \<and> k_events w' = k_events w1 @ map (\<lambda>(i, rs, now). report p i rs) (zip [Suc i..<Suc i + length vs] vs)"
      using Cons.prems(2) Cons due(2) 1(2) by (intro Cons.IH) simp_all
    moreover have "[i..<i + length (x # vs)] = i # [Suc i..<Suc i + length vs]"
      by (simp add: upt_conv_Cons del: upt_Suc)
    ultimately show ?thesis using 1 x by (auto simp del: upt_Suc)
  qed
qed simp

lemma startScan_on_channel:
  assumes "k_radio_ok w" and "\<not> k_scan_active w" and "frequency_hz (k_cfg w) > 0"
  shows "on_channel p (frequency_hz (k_cfg w)) (fst (worker_nowMs a e)) 0 (fst (startScan a p (w, e)))
    \<and> k_events (fst (startScan a p (w, e))) = k_events w"
  using assms by (auto simp: startScan_def on_channel_def Let_def split: prod.splits)


text \<open>Every packet of the burst protocol counts as consensus: its first bytes are the magic 42 46.\<close>

lemma burst_packets_are_consensus: "h_magic h = kMagic \<Longrightarrow> is_consensus_prefix (air_packet h c)"
  by (simp add: is_consensus_prefix_def air_packet_def header_bytes_def le16_def kMagic_def byte_of_def)

end
