(* ===== verification/WorkerControl.thy ===== *)
theory WorkerControl
  imports WorkerInv
begin

text \<open>
  Configuration and the thermal governor: what \<open>applyConfig\<close> leaves configured on every branch, the
  hysteresis of the throttle levels and CPU stages, what a thermal cutoff does, and the transmit
  power actually programmed into the chip over everything the worker does.
\<close>

section \<open>Configuration\<close>

text \<open>The limit in force and the configuration after clamping to it.\<close>

definition power_limit :: "int \<Rightarrow> int" where
  "power_limit lvl = (if lvl \<ge> 1 then 4 else 10)"

definition clamp :: "int \<Rightarrow> config \<Rightarrow> config" where
  "clamp lvl c = (if sint (tx_power_dbm c) > power_limit lvl then c\<lparr>tx_power_dbm := of_int (power_limit lvl)\<rparr> else c)"

lemma clamp_alt:
  "clamp lvl c = (let m = (if lvl \<ge> 1 then kThrottledTxPowerDbm else kMaxSafeBenchTxPowerDbm)
     in if sint (tx_power_dbm c) > sint m then c\<lparr>tx_power_dbm := m\<rparr> else c)"
  by (simp add: clamp_def power_limit_def const_vals)

lemma clamp_sel [simp]: "frequency_hz (clamp lvl c) = frequency_hz c" "role (clamp lvl c) = role c"
  by (simp_all add: clamp_def)

lemma clamp_power: "sint (tx_power_dbm (clamp lvl c)) = min (sint (tx_power_dbm c)) (power_limit lvl)"
  by (simp add: clamp_def power_limit_def min_def)

lemma applyConfig_alt:
  "applyConfig a c (w, e) =
     (if \<not> k_radio_ok w then (Some ''radio init failed'', w, e)
      else let d = clamp (k_thermal_level w) c in
        if \<not> k_scan_active w \<and> d = k_cfg w then (None, w, e)
        else
          let v = w\<lparr>k_scan_active := False, k_cfg := d\<rparr>;
              (st, e) = (if frequency_hz c > 0 then r_setFrequency a (frequency_hz c) (r_standby a e) else (0, r_standby a e))
          in if st \<noteq> 0 then (Some ''set frequency failed'', armReceive a (v, e))
             else (None, armReceive a (v, if tx_power_dbm d \<noteq> tx_power_dbm (k_cfg w)
                                          then r_setOutputPower a (tx_power_dbm d) e else e)))"
proof -
  have eq: "d = k_cfg w \<longleftrightarrow> frequency_hz d = frequency_hz (k_cfg w) \<and> tx_power_dbm d = tx_power_dbm (k_cfg w)
      \<and> role d = role (k_cfg w)" for d
    by (auto intro: config.equality)
  show ?thesis
    unfolding applyConfig_def Let_def prod.case eq clamp_alt [unfolded Let_def, symmetric] clamp_sel
    by (cases "k_radio_ok w"; cases "r_setFrequency a (frequency_hz c) (r_standby a e)") auto
qed

lemma applyConfig_cases:
  assumes "k_radio_ok w" and "applyConfig a c (w, e) = (err, w', e')"
  obtains (same) "\<not> k_scan_active w" "clamp (k_thermal_level w) c = k_cfg w" "err = None" "w' = w" "e' = e"
  | (set) f where "(w', e') = armReceive a (w\<lparr>k_scan_active := False, k_cfg := clamp (k_thermal_level w) c\<rparr>, f)"
      "err = None \<or> err = Some ''set frequency failed'' \<and> frequency_hz c > 0
         \<and> fst (r_setFrequency a (frequency_hz c) (r_standby a e)) \<noteq> 0"
proof (cases "\<not> k_scan_active w \<and> clamp (k_thermal_level w) c = k_cfg w")
  case True
  then have "applyConfig a c (w, e) = (None, w, e)"
    using assms(1) unfolding applyConfig_alt Let_def by simp
  then show ?thesis using assms(2) True same by simp
next
  case False
  obtain st f where s: "(if frequency_hz c > 0 then r_setFrequency a (frequency_hz c) (r_standby a e)
      else (0, r_standby a e)) = (st, f)" by fastforce
  have bad: "frequency_hz c > 0 \<and> fst (r_setFrequency a (frequency_hz c) (r_standby a e)) \<noteq> 0" if "st \<noteq> 0"
    using s that by (cases "frequency_hz c > 0") auto
  show ?thesis
  proof (cases "st = 0")
    case True
    then have "fst (applyConfig a c (w, e)) = None"
      "\<exists>g. snd (applyConfig a c (w, e)) = armReceive a (w\<lparr>k_scan_active := False, k_cfg := clamp (k_thermal_level w) c\<rparr>, g)"
      using assms(1) False unfolding applyConfig_alt Let_def s by auto
    then show ?thesis using assms(2) set by auto
  next
    case st: False
    then have "applyConfig a c (w, e) = (Some ''set frequency failed'',
        armReceive a (w\<lparr>k_scan_active := False, k_cfg := clamp (k_thermal_level w) c\<rparr>, f))"
      using assms(1) False unfolding applyConfig_alt Let_def s by auto
    then show ?thesis using assms(2) set [of f] bad [OF st] by auto
  qed
qed

lemma applyConfig_result:
  assumes "k_radio_ok w" and "applyConfig a c (w, e) = (err, w', e')"
  shows "k_cfg w' = clamp (k_thermal_level w) c
    \<and> sint (tx_power_dbm (k_cfg w')) = min (sint (tx_power_dbm c)) (power_limit (k_thermal_level w))
    \<and> \<not> k_scan_active w'
    \<and> (err = None \<or> err = Some ''set frequency failed'' \<and> frequency_hz c > 0
         \<and> fst (r_setFrequency a (frequency_hz c) (r_standby a e)) \<noteq> 0)
    \<and> k_tx_q w' = k_tx_q w \<and> k_events w' = k_events w \<and> k_thermal_level w' = k_thermal_level w"
  using assms
proof (cases rule: applyConfig_cases)
  case same
  then show ?thesis using clamp_power [of "k_thermal_level w" c] by simp
next
  case (set f)
  have "w' = fst (armReceive a (w\<lparr>k_scan_active := False, k_cfg := clamp (k_thermal_level w) c\<rparr>, f))"
    using set(1) by (metis fst_conv)
  then show ?thesis using set(2) by (simp add: clamp_power)
qed


lemma applyConfig_spec_bad_frequency:
  "k_radio_ok w \<Longrightarrow> frequency_hz c > 0 \<Longrightarrow> fst (r_setFrequency a (frequency_hz c) (r_standby a e)) \<noteq> 0 \<Longrightarrow>
    k_scan_active w \<or> clamp (k_thermal_level w) c \<noteq> k_cfg w \<Longrightarrow>
    fst (applyConfig a c (w, e)) = Some ''set frequency failed''"
  by (auto simp: applyConfig_alt Let_def split: prod.splits)

text \<open>
  C15: a refused configuration is reported as applied when it is sent again.  After \<open>applyConfig\<close>
  failed because the chip refused the frequency, the same request (the host re-sends CONFIG every
  second) succeeds at once, without any call to the radio: the configuration was stored before the
  chip accepted it.
\<close>

theorem refused_config_accepted_on_resend:
  assumes "k_radio_ok w" and "applyConfig a c (w, e) = (Some msg, w', e')"
  shows "applyConfig a c (w', e') = (None, w', e')"
proof -
  have "k_cfg w' = clamp (k_thermal_level w) c" "\<not> k_scan_active w'" "k_thermal_level w' = k_thermal_level w"
    using applyConfig_result [OF assms] by auto
  moreover have "k_radio_ok w'"
    using assms
  proof (cases rule: applyConfig_cases)
    case (set f)
    have "w' = fst (armReceive a (w\<lparr>k_scan_active := False, k_cfg := clamp (k_thermal_level w) c\<rparr>, f))"
      using set(1) by (metis fst_conv)
    then show ?thesis using assms(1) by simp
  qed simp
  ultimately show ?thesis by (simp add: applyConfig_alt)
qed

section \<open>Hysteresis\<close>

lemma next_level_range: "lvl \<in> {0, 1, 2} \<Longrightarrow> next_level lvl t \<in> {0, 1, 2}"
  by (auto simp: next_level_def)



section \<open>Cutoff and recovery\<close>

text \<open>
  C17: a thermal cutoff answers every queued frame.  When the level becomes 2, each frame in the
  queue gets one DROPPED terminal and the queue is empty, the module power is switched off, no
  further frame is accepted while the level stays at 2 or above, and a poll that leaves the level
  there touches neither the queue nor the events nor the receiver.
\<close>

theorem cutoff_drops_queue:
  assumes "k_thermal_level w \<noteq> 2" and "set_level a 2 (w, e) = (w', e')"
  shows "k_events w' = k_events w @ replicate (length (k_tx_q w)) (OnTerminal kDropped) \<and> k_tx_q w' = []
    \<and> k_powered_down w' \<and> k_thermal_level w' = 2
    \<and> (\<forall>p. enqueueTx p w' = (kBusy, w'))
    \<and> (\<forall>now f v g. worker_nowMs a f = (now, g) \<and> fst (thermalTick a now (w', g)) = v \<and> k_thermal_level v \<ge> 2
         \<longrightarrow> worker_pollOnce a (w', f) = Some (thermalTick a now (w', g)))"
proof -
  have w': "w' = fst (thermal_cutoff a (w\<lparr>k_thermal_level := 2\<rparr>, e))"
    using assms by (simp add: set_level_def)
  have 1: "k_events w' = k_events w @ replicate (length (k_tx_q w)) (OnTerminal kDropped)" "k_tx_q w' = []"
      "k_powered_down w'" "k_thermal_level w' = 2"
    unfolding w' by (simp_all add: thermal_cutoff_def Let_def upd_st_def)
  have 2: "enqueueTx p w' = (kBusy, w')" for p
    using 1(4) by (simp add: enqueueTx_def)
  have 3: "worker_pollOnce a (w', f) = Some (thermalTick a now (w', g))"
    if "worker_nowMs a f = (now, g)" "k_thermal_level (fst (thermalTick a now (w', g))) \<ge> 2" for now f g
    using that by (simp add: worker_pollOnce_def case_prod_beta)
  show ?thesis using 1 2 3 by blast
qed

text \<open>
  C18: recovery from a cutoff leaves the chip on its start-up profile.  When the die has cooled and the
  radio is started again, the configuration in force before the cutoff is not programmed: if it was
  within the limit and no scan was running, \<open>applyConfig\<close> finds it equal to the stored one and
  returns, so the only frequency and power the chip has been given are those of \<open>init\<close> (915 MHz,
  +10 dBm), while the worker's state still names the old ones.
\<close>

theorem recovery_keeps_startup_profile:
  assumes "k_powered_down w" and "k_thermal_level w = 2" and "\<not> k_scan_active w"
    and "sint (tx_power_dbm (k_cfg w)) \<le> 10"
    and "worker_init a (k_power_gpio w) (w\<lparr>k_thermal_level := 0\<rparr>, e) = (True, v, f)"
  shows "set_level a 0 (w, e) = (v\<lparr>k_powered_down := False\<rparr>, f) \<and> k_cfg v = k_cfg w"
proof -
  have v: "k_cfg v = k_cfg w" "k_radio_ok v" "k_thermal_level v = 0" "\<not> k_scan_active v"
    using assms(3,5) armReceive_sel [of a] unfolding worker_init_def Let_def prod.case
    by (auto split: prod.splits if_splits dest!: arg_cong [of _ _ fst])
  have "clamp 0 (k_cfg w) = k_cfg w" using assms(4) by (simp add: clamp_def power_limit_def)
  then have "applyConfig a (k_cfg w) (v\<lparr>k_powered_down := False\<rparr>, f) = (None, v\<lparr>k_powered_down := False\<rparr>, f)"
    using v by (simp add: applyConfig_alt)
  then show ?thesis
    using assms v by (simp add: set_level_def thermal_recover_def Let_def)
qed

end
