(* ===== verification/WorkerPower.thy ===== *)
theory WorkerPower
  imports WorkerControl
begin

text \<open>
  What the worker does to the board.  \<open>board_safe a B I\<close> says that the calls of the driver keep a
  property \<open>I\<close> of chip and board as long as no power above \<open>B\<close> dBm is programmed; every operation of
  the worker then keeps it, those that may start the radio up if \<open>B\<close> is at least +10 dBm.  The
  application is the transmit power in the chip.
\<close>

section \<open>Properties every call keeps\<close>

definition board_safe :: "'e api \<Rightarrow> int \<Rightarrow> ('e \<Rightarrow> bool) \<Rightarrow> bool" where
  "board_safe a B I \<longleftrightarrow>
     (\<forall>e. I e \<longrightarrow> I (snd (a_clock a e)) \<and> I (snd (a_state_file a e)) \<and> I (snd (a_open_ts a e))
        \<and> I (a_pm_shutdown a e) \<and> I (r_standby a e) \<and> I (r_startReceive a e) \<and> I (r_finishTransmit a e)
        \<and> I (r_clearRxBuffer a e) \<and> I (snd (r_get_clear_IrqStatus a e)) \<and> I (snd (r_getRxFifoLevel a e))
        \<and> I (snd (r_rssi_raw a e)) \<and> I (flrc_profile a e))
   \<and> (\<forall>s n e. I e \<longrightarrow> I (a_nanosleep a s n e)) \<and> (\<forall>n e. I e \<longrightarrow> I (a_busy_wait a n e))
   \<and> (\<forall>g v e. I e \<longrightarrow> I (a_power_set a g v e)) \<and> (\<forall>fd e. I e \<longrightarrow> I (snd (a_read_ts a fd e)))
   \<and> (\<forall>x e. I e \<longrightarrow> I (a_pm_governor_auto a x e)) \<and> (\<forall>p e. I e \<longrightarrow> I (a_pm_profile a p e))
   \<and> (\<forall>f e. I e \<longrightarrow> I (snd (r_setFrequency a f e))) \<and> (\<forall>p e. I e \<longrightarrow> I (snd (r_startTransmit a p e)))
   \<and> (\<forall>n e. I e \<longrightarrow> I (snd (r_readData a n e)))
   \<and> (\<forall>p e. I e \<longrightarrow> sint p \<le> B \<longrightarrow> I (r_setOutputPower a p e))
   \<and> (\<forall>f br cr p pre tc sh e. I e \<longrightarrow> sint p \<le> B \<longrightarrow> I (snd (r_beginFLRC a f br cr p pre tc sh e)))"

lemma board_calls:
  assumes "board_safe a B I" and "I e"
  shows "I (snd (a_clock a e))" "I (snd (a_state_file a e))" "I (snd (a_open_ts a e))"
    "I (a_pm_shutdown a e)" "I (r_standby a e)" "I (r_startReceive a e)" "I (r_finishTransmit a e)"
    "I (r_clearRxBuffer a e)" "I (snd (r_get_clear_IrqStatus a e))" "I (snd (r_getRxFifoLevel a e))"
    "I (snd (r_rssi_raw a e))" "I (flrc_profile a e)" "I (a_nanosleep a s n e)" "I (a_busy_wait a n e)"
    "I (a_power_set a g v e)" "I (snd (a_read_ts a fd e))" "I (a_pm_governor_auto a x e)"
    "I (a_pm_profile a pr e)" "I (snd (r_setFrequency a f e))" "I (snd (r_startTransmit a p e))"
    "I (snd (r_readData a m e))"
  using assms by (simp_all add: board_safe_def)

lemma board_power:
  assumes "board_safe a B I" and "I e" and "sint pw \<le> B"
  shows "I (r_setOutputPower a pw e)" "I (snd (r_beginFLRC a f br cr pw pre tc sh e))"
  using assms by (simp_all add: board_safe_def)

lemma board_sleepUs: "board_safe a B I \<Longrightarrow> I e \<Longrightarrow> I (sleepUs a us e)"
  by (simp add: sleepUs_def board_calls)

lemma board_nowMs: "board_safe a B I \<Longrightarrow> I e \<Longrightarrow> I (snd (worker_nowMs a e))"
  using board_calls(1) [of a B I e] by (auto simp: worker_nowMs_def split: prod.splits)

lemma board_arm: "board_safe a B I \<Longrightarrow> I (snd x) \<Longrightarrow> I (snd (armReceive a x))"
  by (cases x) (simp add: armReceive_def board_calls)

section \<open>Configuration, scan, temperature\<close>

lemma powers: "sint kMaxSafeBenchTxPowerDbm = 10" "sint kThrottledTxPowerDbm = 4"
  by (simp_all add: const_vals)

lemma board_init:
  assumes "board_safe a B I" and "I e" and "10 \<le> B"
  shows "I (snd (snd (worker_init a g (w, e))))"
proof -
  note k = board_calls [OF assms(1)] board_power [OF assms(1)] board_sleepUs [OF assms(1)] board_arm [OF assms(1)]
  show ?thesis
    using assms(2,3) by (simp add: worker_init_def Let_def case_prod_beta k powers)
qed

lemma board_applyConfig:
  assumes "board_safe a B I" and "I e" and "power_limit (k_thermal_level w) \<le> B"
  shows "I (snd (snd (applyConfig a c (w, e))))"
proof -
  note k = board_calls [OF assms(1)] board_power [OF assms(1)] board_arm [OF assms(1)]
  have "sint (tx_power_dbm (clamp (k_thermal_level w) c)) \<le> B"
    using assms(3) by (auto simp: clamp_power min_def)
  then show ?thesis
    using assms(2) by (simp add: applyConfig_alt Let_def case_prod_beta k)
qed

lemma board_startScan:
  assumes "board_safe a B I" and "I e"
  shows "I (snd (startScan a p (w, e)))"
proof -
  note k = board_calls [OF assms(1)] board_nowMs [OF assms(1)] board_arm [OF assms(1)]
  show ?thesis using assms(2) by (simp add: startScan_def Let_def case_prod_beta k)
qed

lemma board_scanTick:
  assumes "board_safe a B I" and "I e"
  shows "I (snd (scanTick a now (w, e)))"
proof -
  note k = board_calls [OF assms(1)] board_arm [OF assms(1)]
  show ?thesis using assms(2) by (simp add: scanTick_def Let_def case_prod_beta k)
qed

lemma board_cutoff: "board_safe a B I \<Longrightarrow> I e \<Longrightarrow> I (snd (thermal_cutoff a (w, e)))"
  by (simp add: thermal_cutoff_def Let_def board_calls)

lemma board_throttle: "board_safe a B I \<Longrightarrow> I e \<Longrightarrow> 4 \<le> B \<Longrightarrow> I (snd (thermal_throttle a (w, e)))"
  by (simp add: thermal_throttle_def board_calls board_power board_arm powers)

lemma board_recover:
  assumes "board_safe a B I" and "I e" and "10 \<le> B" and "sint (tx_power_dbm (k_cfg w)) \<le> 10"
  shows "I (snd (thermal_recover a prev (w, e)))"
proof -
  note k = board_calls [OF assms(1)] board_power [OF assms(1)] board_arm [OF assms(1)]
  obtain ok u f where i: "worker_init a (k_power_gpio w) (w, e) = (ok, u, f)" by (metis surj_pair)
  have "I f" using board_init [OF assms(1-3), of "k_power_gpio w" w] i by simp
  moreover have "power_limit (k_thermal_level u) \<le> B" using assms(3) by (simp add: power_limit_def)
  ultimately show ?thesis
    using assms i by (simp add: thermal_recover_def Let_def k board_applyConfig)
qed

lemma board_set_level:
  assumes "board_safe a B I" and "I e" and "10 \<le> B" and "sint (tx_power_dbm (k_cfg w)) \<le> 10"
  shows "I (snd (set_level a nl (w, e)))"
  using assms by (simp add: set_level_def Let_def board_cutoff board_throttle board_recover)

lemma board_fan_dvfs:
  assumes "board_safe a B I" and "I (snd x)"
  shows "I (snd (fan_ctl a t x))" "I (snd (dvfs_ctl a t x))"
  using assms(2) by (simp_all add: fan_ctl_def dvfs_ctl_def Let_def case_prod_beta board_calls [OF assms(1)])

lemma board_os_level: "board_safe a B I \<Longrightarrow> I e \<Longrightarrow> I (snd (os_level a e))"
  by (simp add: os_level_def Let_def case_prod_beta board_calls)

lemma board_sensor_level:
  assumes "board_safe a B I" and "I e"
  shows "I (snd (snd (sensor_level a (w, e))))"
proof -
  note k = board_calls [OF assms(1)] board_fan_dvfs [OF assms(1)]
  have p: "I (snd (sensor_prep a (w, e)))"
    using assms(2) by (simp add: sensor_prep_def Let_def k)
  then have "a_read_ts a fd (snd (sensor_prep a (w, e))) = (r, f) \<Longrightarrow> I f" for fd r f
    using k(16) [of "snd (sensor_prep a (w, e))" fd] by simp
  with p show ?thesis
    by (cases rule: sensor_level_cases [of a "(w, e)"]) (simp_all add: k)
qed

lemma board_thermalTick:
  assumes "board_safe a B I" and "I e" and "10 \<le> B" and "sint (tx_power_dbm (k_cfg w)) \<le> 10"
  shows "I (snd (thermalTick a now (w, e)))"
proof (cases "k_last_thermal_ms w \<noteq> 0 \<and> now - k_last_thermal_ms w < 4000")
  case False
  let ?w = "w\<lparr>k_last_thermal_ms := now\<rparr>"
  obtain os e1 where os: "os_level a e = (os, e1)" by fastforce
  obtain nl w2 e2 where sl: "sensor_level a (?w, e1) = (nl, w2, e2)" by (metis surj_pair)
  have e1: "I e1" using board_os_level [OF assms(1,2)] os by simp
  have e2: "I e2" using board_sensor_level [OF assms(1) e1, of ?w] sl by simp
  have "evolves ?w w2" using sensor_level_evolves [of ?w a e1] sl by simp
  then have "sint (tx_power_dbm (k_cfg w2)) \<le> 10" using assms(4) by (simp add: evolves_def)
  then have "I (snd (set_level a l (?w, e1)))" "I (snd (set_level a l (w2, e2)))" for l
    using assms e1 e2 by (simp_all add: board_set_level)
  then show ?thesis
    using False os sl e2 assms(2) by (auto simp: thermalTick_def Let_def split: option.splits)
qed (use assms in \<open>simp add: thermalTick_def\<close>)

section \<open>Transmission and reception\<close>

lemma board_poll_tx:
  assumes "board_safe a B I"
  shows "I e \<Longrightarrow> poll_tx k a d e = Some (r, e') \<Longrightarrow> I e'"
proof (induction k arbitrary: e)
  case (Suc k)
  obtain now e1 where 1: "worker_nowMs a e = (now, e1)" by fastforce
  obtain irq e2 where 2: "r_get_clear_IrqStatus a e1 = (irq, e2)" by fastforce
  have "I e1" using board_nowMs [OF assms Suc.prems(1)] 1 by simp
  moreover from this have "I e2" using board_calls(9) [OF assms, of e1] 2 by simp
  ultimately show ?case
    using Suc.prems(2) Suc.IH [OF board_sleepUs [OF assms]] 1 2 by (auto split: if_splits)
qed simp

lemma board_send_attempts:
  assumes "board_safe a B I"
  shows "I e \<Longrightarrow> send_attempts n r a pkt e = Some (ok, e') \<Longrightarrow> I e'"
proof (induction n arbitrary: e r)
  case (Suc n)
  note k = board_calls [OF assms] board_sleepUs [OF assms]
  define e0 where "e0 = (if r then sleepUs a 500 (r_standby a e) else e)"
  obtain st e1 where 1: "r_startTransmit a pkt e0 = (st, e1)" by fastforce
  obtain now e2 where 2: "worker_nowMs a e1 = (now, e2)" by fastforce
  have "I e0" using Suc.prems(1) by (simp add: e0_def k)
  then have e1: "I e1" using k(20) [of e0 pkt] 1 by simp
  then have e2: "I e2" using board_nowMs [OF assms] 2 by fastforce
  have "I (r_finishTransmit a f)" if "poll_tx (a_fuel a) a (now + 25) e2 = Some (b, f)" for b f
    by (rule k(7) [OF board_poll_tx [OF assms e2 that]])
  then show ?case
    using Suc.prems(2) Suc.IH e1
    unfolding send_attempts.simps e0_def [symmetric] Let_def 1 prod.case 2
    by (auto split: if_splits bind_splits)
qed simp

lemma board_send_packets:
  assumes "board_safe a B I"
  shows "I e \<Longrightarrow> send_packets k a payload crc bid n idx pkt (w, e) = Some (err, w', e') \<Longrightarrow> I e'"
proof (induction k arbitrary: idx pkt w e)
  case (Suc k)
  have att: "I f" if "send_attempts 3 False a air e = Some (ok, f)" for air ok f
    by (rule board_send_attempts [OF assms Suc.prems(1) that])
  from Suc.prems(2) show ?case
    by (auto simp: Let_def split: bind_splits if_splits prod.splits
        dest: att Suc.IH [OF board_sleepUs [OF assms att]])
qed simp

lemma board_transmitBurst:
  assumes "board_safe a B I" and "I e" and "transmitBurst a payload (w, e) = Some (err, w', e')"
  shows "I e'"
proof -
  obtain sec nsec e1 where 1: "a_clock a e = ((sec, nsec), e1)" by (metis surj_pair)
  have "I e1" using board_calls(1) [OF assms(1,2)] 1 by simp
  then show ?thesis
    using assms(2,3) board_send_packets [OF assms(1)]
    unfolding transmitBurst_def Let_def prod.case 1 by (auto split: if_splits)
qed

lemma board_serviceTxQueue:
  assumes "board_safe a B I" and "I e" and "serviceTxQueue a (w, e) = Some (w', e')"
  shows "I e'"
proof -
  note k = board_calls [OF assms(1)] board_sleepUs [OF assms(1)] board_arm [OF assms(1)]
  have tb: "I f" if "transmitBurst a frame (v, r_standby a e) = Some (err, u, f)" for frame v err u f
    by (rule board_transmitBurst [OF assms(1) k(5) [OF assms(2)] that])
  show ?thesis
    using assms(2,3) unfolding serviceTxQueue_def prod.case
    by (auto simp: Let_def case_prod_beta k dest!: tb split: if_splits list.splits bind_splits)
qed

lemma board_rx_ready:
  assumes "board_safe a B I" and "I e"
  shows "I (snd (snd (rx_ready a irq (L, e))))"
  using assms(2) by (simp add: rx_ready_def Let_def case_prod_beta board_calls [OF assms(1)] board_nowMs [OF assms(1)])

lemma board_rx_fetch:
  assumes "board_safe a B I" and "I e"
  shows "I (snd (snd (snd (rx_fetch a (L, w, e)))))"
proof -
  note k = board_calls [OF assms(1)] board_arm [OF assms(1)]
  obtain irq e1 where 1: "r_get_clear_IrqStatus a e = (irq, e1)" by fastforce
  obtain b L1 e2 where 2: "rx_ready a irq (L, e1) = (b, L1, e2)" by (metis surj_pair)
  obtain lvl e3 where 3: "r_getRxFifoLevel a e2 = (lvl, e3)" by fastforce
  obtain raw e4 where 4: "r_rssi_raw a e3 = (raw, e4)" by fastforce
  obtain pkt st e5 where 5: "r_readData a (unat kPacketPayload) e4 = ((pkt, st), e5)" by (metis surj_pair)
  have "I e1" using k(9) [OF assms(2)] 1 by simp
  then have e2: "I e2" using board_rx_ready [OF assms(1), of e1 irq L] 2 by simp
  then have e3: "I e3" using k(10) [of e2] 3 by simp
  then have e4: "I e4" using k(11) [of e3] 4 by simp
  then have e5: "I e5" using k(21) [of e4 "unat kPacketPayload"] 5 by simp
  show ?thesis
    unfolding rx_fetch_def Let_def prod.case 1 2 3 4 5 using e2 e3 e4 e5 by (simp add: k)
qed

lemma board_rx_tail:
  assumes "board_safe a B I" and "I e"
  shows "I (snd (snd (rx_tail a (L, w, e))))"
  using assms(2) by (simp add: rx_tail_def Let_def case_prod_beta board_calls [OF assms(1)]
      board_nowMs [OF assms(1)] board_arm [OF assms(1)] board_sleepUs [OF assms(1)])

lemma board_rx_packet:
  assumes "board_safe a B I" and "I e"
  shows "I (snd (snd (rx_packet a pkt rssi (L, w, e))))"
  using assms(2) by (simp add: rx_packet_def Let_def case_prod_beta board_calls [OF assms(1)]
      board_nowMs [OF assms(1)] board_arm [OF assms(1)] board_rx_tail [OF assms(1)])

lemma board_rx_step:
  assumes "board_safe a B I" and "I e"
  shows "I (snd (snd (rx_step a (L, w, e))))"
proof -
  obtain got L2 w2 e2 where f: "rx_fetch a (L, w, e) = (got, L2, w2, e2)" by (metis surj_pair)
  have "I e2" using board_rx_fetch [OF assms, of L w] f by simp
  then show ?thesis
    using f by (simp add: rx_step_def board_rx_tail [OF assms(1)] board_rx_packet [OF assms(1)] split: option.split)
qed

lemma board_rx_loop:
  assumes "board_safe a B I"
  shows "I e \<Longrightarrow> rx_loop k a (L, w, e) = Some (w', e') \<Longrightarrow> I e'"
proof (induction k arbitrary: L w e)
  case (Suc k)
  obtain r w1 e1 where step: "rx_step a (L, w, e) = (r, w1, e1)" by (metis surj_pair)
  have "I e1" using board_rx_step [OF assms Suc.prems(1), of L w] step by simp
  then show ?case using Suc.prems(2) step Suc.IH by (cases r) auto
qed simp

lemma board_pollOnce:
  assumes "board_safe a B I" and "I e" and "10 \<le> B" and "sint (tx_power_dbm (k_cfg w)) \<le> 10"
    and "worker_pollOnce a (w, e) = Some (w', e')"
  shows "I e'"
proof -
  obtain now e1 where 1: "worker_nowMs a e = (now, e1)" by fastforce
  obtain w2 e2 where 2: "thermalTick a now (w, e1) = (w2, e2)" by fastforce
  obtain w3 e3 where 3: "(if k_scan_active w2 then scanTick a now (w2, e2) else (w2, e2)) = (w3, e3)" by fastforce
  have "I e1" using board_nowMs [OF assms(1,2)] 1 by simp
  then have e2: "I e2" using board_thermalTick [OF assms(1) _ assms(3,4), of e1 now] 2 by simp
  then have e3: "I e3" using board_scanTick [OF assms(1), of e2 now w2] 3 by (auto split: if_splits)
  have tx: "I f'" if "serviceTxQueue a (v, f) = Some (w'', f')" "I f" for v f w'' f'
    by (rule board_serviceTxQueue [OF assms(1) that(2,1)])
  have rx: "I f" if "rx_loop k a (rxl0, w3, e3) = Some (v, f)" for k v f
    by (rule board_rx_loop [OF assms(1) e3 that])
  show ?thesis
    using assms(5) unfolding worker_pollOnce_def Let_def prod.case 1 2 3
    using e2 e3 tx rx by (auto split: if_splits bind_splits)
qed

section \<open>The transmit power\<close>

text \<open>
  The driver's contract on the power register \<open>P\<close>: \<open>setOutputPower\<close> and \<open>beginFLRC\<close> program the power
  they are given (\<open>beginFLRC\<close> unless it fails first), no other call changes it.
\<close>

definition power_chip :: "'e api \<Rightarrow> ('e \<Rightarrow> i8) \<Rightarrow> bool" where
  "power_chip a P \<longleftrightarrow>
     (\<forall>v. board_safe (a\<lparr>r_setOutputPower := \<lambda>p e. e, r_beginFLRC := \<lambda>f br cr p pre tc sh e. (0, e)\<rparr>) 127 (\<lambda>e. P e = v))
   \<and> (\<forall>p e. P (r_setOutputPower a p e) = p)
   \<and> (\<forall>f br cr p pre tc sh e. P (snd (r_beginFLRC a f br cr p pre tc sh e)) \<in> {p, P e})"

lemma power_chip_safe:
  assumes "power_chip a P"
  shows "board_safe a B (\<lambda>e. sint (P e) \<le> B)"
proof -
  define a' where "a' = a\<lparr>r_setOutputPower := \<lambda>p e. e, r_beginFLRC := \<lambda>f br cr p pre tc sh e. (0, e)\<rparr>"
  note d = assms [unfolded power_chip_def, folded a'_def, THEN conjunct1, THEN spec]
    assms [unfolded power_chip_def, THEN conjunct2, THEN conjunct1]
    assms [unfolded power_chip_def, THEN conjunct2, THEN conjunct2]
  have s: "board_safe a' 127 (\<lambda>e. P e = v)" for v by (rule d(1))
  have sp: "P (r_setOutputPower a p e) = p" for p e using d(2) by blast
  have f: "flrc_profile a' e = flrc_profile a e" for e by (simp add: flrc_profile_def a'_def)
  have k: "P (snd (a_clock a e)) = P e" "P (snd (a_state_file a e)) = P e" "P (snd (a_open_ts a e)) = P e"
    "P (a_pm_shutdown a e) = P e" "P (r_standby a e) = P e" "P (r_startReceive a e) = P e"
    "P (r_finishTransmit a e) = P e" "P (r_clearRxBuffer a e) = P e" "P (snd (r_get_clear_IrqStatus a e)) = P e"
    "P (snd (r_getRxFifoLevel a e)) = P e" "P (snd (r_rssi_raw a e)) = P e" "P (flrc_profile a e) = P e"
    "P (a_nanosleep a sc n e) = P e" "P (a_busy_wait a n e) = P e" "P (a_power_set a g v e) = P e"
    "P (snd (a_read_ts a fd e)) = P e" "P (a_pm_governor_auto a x e) = P e" "P (a_pm_profile a pr e) = P e"
    "P (snd (r_setFrequency a fq e)) = P e" "P (snd (r_startTransmit a p e)) = P e"
    "P (snd (r_readData a m e)) = P e" for e sc n g v fd x pr fq p m
    by (simp_all add: board_calls [OF s refl, unfolded f, unfolded a'_def, simplified])
  have b: "sint (P (snd (r_beginFLRC a f br cr p pre tc sh e))) \<le> B"
    if "sint (P e) \<le> B" "sint p \<le> B" for f br cr p pre tc sh e
  proof -
    have "P (snd (r_beginFLRC a f br cr p pre tc sh e)) \<in> {p, P e}" using d(3) by blast
    then show ?thesis using that by auto
  qed
  show ?thesis
    unfolding board_safe_def k sp using b by simp
qed

section \<open>Operation mode\<close>

text \<open>Whether the radio is up, the thermal level, and whether the module is powered.\<close>

definition same_mode :: "wk \<Rightarrow> wk \<Rightarrow> bool" where
  "same_mode w w' \<longleftrightarrow> k_radio_ok w' = k_radio_ok w \<and> k_thermal_level w' = k_thermal_level w
     \<and> k_powered_down w' = k_powered_down w \<and> k_radio w' = k_radio w"

lemma same_mode_simps [simp]:
  "same_mode w w" "same_mode w (upd_st f v) = same_mode w v" "same_mode w (emit c v) = same_mode w v"
  "same_mode w (emit_rx q v) = same_mode w v" "same_mode w (fst (armReceive a x)) = same_mode w (fst x)"
  by (simp_all add: same_mode_def emit_def emit_rx_def)

lemma same_mode_trans: "same_mode u v \<Longrightarrow> same_mode v w \<Longrightarrow> same_mode u w"
  by (simp add: same_mode_def)

lemma keeps_same_mode: "keeps w w' \<Longrightarrow> same_mode w w'"
  by (simp add: keeps_def same_mode_def)

lemma startScan_mode: "same_mode w (fst (startScan a p (w, e)))"
  by (auto simp: startScan_def Let_def split: prod.splits) (simp_all add: same_mode_def)

lemma scanTick_mode: "same_mode w (fst (scanTick a now (w, e)))"
  by (auto simp: scanTick_def Let_def split: prod.splits) (simp_all add: same_mode_def emit_def)

lemma sensor_level_mode: "same_mode w (fst (snd (sensor_level a (w, e))))"
proof -
  have f: "same_mode w (fst (fan_ctl a t x)) = same_mode w (fst x)"
    "same_mode w (fst (dvfs_ctl a t x)) = same_mode w (fst x)" for t x
    by (simp_all add: fan_ctl_def dvfs_ctl_def Let_def same_mode_def case_prod_beta)
  have "same_mode w (fst (sensor_prep a (w, e)))"
    by (simp add: sensor_prep_def Let_def same_mode_def)
  then show ?thesis by (cases rule: sensor_level_cases [of a "(w, e)"]) (simp_all add: f)
qed

lemma serviceTxQueue_mode: "serviceTxQueue a (w, e) = Some (w', e') \<Longrightarrow> same_mode w w'"
  unfolding serviceTxQueue_def prod.case Let_def
  by (auto split: bind_splits prod.splits if_splits list.splits dest!: transmitBurst_keeps keeps_same_mode)
     (auto simp: same_mode_def dest!: arg_cong [of _ _ fst])

lemma rx_step_mode: "same_mode w (fst (snd (rx_step a (L, w, e))))"
proof -
  obtain got L2 w2 e2 where f: "rx_fetch a (L, w, e) = (got, L2, w2, e2)" by (metis surj_pair)
  have w2: "same_mode w w2" using keeps_same_mode [OF rx_fetch_keeps [of w a L e]] f by simp
  have t: "same_mode u (fst (snd (rx_tail a (L, v, e)))) = same_mode u v" for u L v e
    by (simp add: rx_tail_def Let_def case_prod_beta)
  have "same_mode u (fst (snd (rx_packet a p r (L, v, e))))" if "same_mode u v" for u p r L v e
    using that by (simp add: rx_packet_def Let_def case_prod_beta t)
  with w2 show ?thesis
    by (simp add: rx_step_def f t split: option.split)
qed

lemma rx_loop_mode: "rx_loop k a (L, w, e) = Some (w', e') \<Longrightarrow> same_mode w w'"
proof (induction k arbitrary: L w e)
  case (Suc k)
  obtain r w1 e1 where step: "rx_step a (L, w, e) = (r, w1, e1)" by (metis surj_pair)
  have w1: "same_mode w w1" using rx_step_mode [of w a L e] step by simp
  show ?case
  proof (cases r)
    case (Again L')
    then have "same_mode w1 w'" using Suc.prems step by (intro Suc.IH [of L' w1 e1]) simp
    with w1 show ?thesis by (rule same_mode_trans)
  qed (use Suc.prems step w1 in simp)
qed simp

section \<open>Running the worker\<close>

text \<open>What the service asks of the worker, as a list of operations.\<close>

datatype wop = Enqueue bytes | Configure config | Scan scan_params | Snapshot u32 | Poll

fun wexec :: "'e api \<Rightarrow> wop \<Rightarrow> wk \<times> 'e \<Rightarrow> (wk \<times> 'e) option" where
  "wexec a (Enqueue p) (w, e) = Some (snd (enqueueTx p w), e)"
| "wexec a (Configure c) x = Some (snd (applyConfig a c x))"
| "wexec a (Scan p) x = Some (startScan a p x)"
| "wexec a (Snapshot t) (w, e) = Some (snd (snapshot t w), e)"
| "wexec a Poll x = worker_pollOnce a x"

fun run_ops :: "'e api \<Rightarrow> wop list \<Rightarrow> wk \<times> 'e \<Rightarrow> (wk \<times> 'e) option" where
  "run_ops a [] x = Some x"
| "run_ops a (c # cs) x = do { x \<leftarrow> wexec a c x; run_ops a cs x }"

text \<open>
  The power is within the board's limit, and within the throttled limit while the level is 1 and the
  module powered.
\<close>

definition capped :: "('e \<Rightarrow> i8) \<Rightarrow> wk \<times> 'e \<Rightarrow> bool" where
  "capped P = (\<lambda>(w, e). (k_radio_ok w \<longrightarrow> k_radio w) \<and> sint (tx_power_dbm (k_cfg w)) \<le> 10 \<and> sint (P e) \<le> 10
     \<and> (k_radio_ok w \<and> k_thermal_level w = 1 \<and> \<not> k_powered_down w \<longrightarrow> sint (P e) \<le> 4))"

lemma capped_step:
  assumes "capped P (w, e)" and "evolves w w'" and "same_mode w w'"
    and "sint (P e) \<le> 10 \<Longrightarrow> sint (P e') \<le> 10" and "sint (P e) \<le> 4 \<Longrightarrow> sint (P e') \<le> 4"
  shows "capped P (w', e')"
  using assms by (auto simp: capped_def same_mode_def evolves_def)

lemma capped_other:
  assumes "power_chip a P" and "capped P (w, e)" and "evolves w w'" and "same_mode w w'"
    and "\<And>B I. board_safe a B I \<Longrightarrow> I e \<Longrightarrow> I e'"
  shows "capped P (w', e')"
  by (rule capped_step [OF assms(2-4)]) (rule assms(5) [OF power_chip_safe [OF assms(1)]], assumption)+

lemma applyConfig_mode: "same_mode w (fst (snd (applyConfig a c (w, e))))"
  by (simp add: applyConfig_alt Let_def case_prod_beta) (simp add: same_mode_def)

lemma capped_applyConfig:
  assumes p: "power_chip a P" and c: "capped P (w, e)"
  shows "capped P (snd (applyConfig a d (w, e)))"
proof -
  obtain err w' e' where r: "applyConfig a d (w, e) = (err, w', e')" by (metis surj_pair)
  have m: "same_mode w w'" "evolves w w'"
    using applyConfig_mode [of w a d e] applyConfig_evolves [of w a d e] r by simp_all
  have k: "sint (P e') \<le> B" if "power_limit (k_thermal_level w) \<le> B" "sint (P e) \<le> B" for B
    using board_applyConfig [OF power_chip_safe [OF p, of B] that(2,1), of d] r by simp
  have "sint (P e') \<le> 10" using k [of 10] c by (simp add: capped_def power_limit_def)
  moreover have "sint (P e') \<le> 4" if "k_radio_ok w" "k_thermal_level w = 1" "\<not> k_powered_down w"
    using k [of 4] that c by (simp add: capped_def power_limit_def)
  ultimately show ?thesis
    using c m unfolding r by (auto simp: capped_def evolves_def same_mode_def)
qed

lemma worker_init_mode:
  "k_thermal_level (fst (snd (worker_init a g (w, e)))) = k_thermal_level w"
  "k_powered_down (fst (snd (worker_init a g (w, e)))) = k_powered_down w"
  "k_radio (fst (snd (worker_init a g (w, e))))"
  by (simp_all add: worker_init_def Let_def case_prod_beta)

lemma set_level_radio:
  assumes "nl \<noteq> k_thermal_level w"
  shows "k_thermal_level (fst (set_level a nl (w, e))) = nl"
    "(k_radio_ok w \<longrightarrow> k_radio w) \<Longrightarrow> k_radio_ok (fst (set_level a nl (w, e))) \<Longrightarrow> k_radio (fst (set_level a nl (w, e)))"
proof -
  have 1: "k_thermal_level (fst (thermal_cutoff a (v, e))) = k_thermal_level v"
    "(k_radio_ok v \<longrightarrow> k_radio v) \<Longrightarrow> k_radio_ok (fst (thermal_cutoff a (v, e))) \<Longrightarrow> k_radio (fst (thermal_cutoff a (v, e)))"
    "k_thermal_level (fst (thermal_throttle a (v, e))) = k_thermal_level v"
    "(k_radio_ok v \<longrightarrow> k_radio v) \<Longrightarrow> k_radio_ok (fst (thermal_throttle a (v, e))) \<Longrightarrow> k_radio (fst (thermal_throttle a (v, e)))"
    for v
    by (auto simp: thermal_cutoff_def thermal_throttle_def Let_def split: if_splits)
  have 2: "k_thermal_level (fst (thermal_recover a prev (v, e))) = k_thermal_level v
     \<and> ((k_radio_ok v \<longrightarrow> k_radio v) \<longrightarrow> k_radio_ok (fst (thermal_recover a prev (v, e)))
          \<longrightarrow> k_radio (fst (thermal_recover a prev (v, e))))" for v prev
  proof (cases "k_powered_down v")
    case True
    obtain ok u f where i: "worker_init a (k_power_gpio v) (v, e) = (ok, u, f)" by (metis surj_pair)
    have "k_thermal_level u = k_thermal_level v" "k_radio u"
      using worker_init_mode [of a "k_power_gpio v" v e] i by simp_all
    moreover have "same_mode (u\<lparr>k_powered_down := False\<rparr>) (fst (snd (applyConfig a (k_cfg v) (u\<lparr>k_powered_down := False\<rparr>, f))))"
      by (rule applyConfig_mode)
    ultimately show ?thesis
      using True i by (simp add: thermal_recover_def Let_def same_mode_def)
  qed (simp add: thermal_recover_def)
  show "k_thermal_level (fst (set_level a nl (w, e))) = nl"
    "(k_radio_ok w \<longrightarrow> k_radio w) \<Longrightarrow> k_radio_ok (fst (set_level a nl (w, e))) \<Longrightarrow> k_radio (fst (set_level a nl (w, e)))"
    using assms 1 2 by (auto simp: set_level_def Let_def split: if_splits)
qed

lemma capped_set_level:
  assumes p: "power_chip a P" and c: "capped P (w, e)"
  shows "capped P (set_level a nl (w, e))"
proof (cases "nl = k_thermal_level w")
  case False
  obtain w' e' where r: "set_level a nl (w, e) = (w', e')" by fastforce
  have cfg: "sint (tx_power_dbm (k_cfg w)) \<le> 10" "sint (P e) \<le> 10" using c by (simp_all add: capped_def)
  have "evolves w w'" using set_level_evolves [of w a nl e] r by simp
  then have c1: "sint (tx_power_dbm (k_cfg w')) \<le> 10" using cfg by (simp add: evolves_def)
  have c2: "sint (P e') \<le> 10"
    using board_set_level [OF power_chip_safe [OF p, of 10] cfg(2) _ cfg(1), of nl] r by simp
  have c3: "k_thermal_level w' = nl" "k_radio_ok w' \<longrightarrow> k_radio w'"
    using set_level_radio [OF False, of a e] c r by (simp_all add: capped_def)
  have "sint (P e') \<le> 4" if nl: "nl = 1" and up: "k_radio_ok w'" "\<not> k_powered_down w'"
  proof -
    have t: "thermal_throttle a (w\<lparr>k_thermal_level := 1\<rparr>, e) = (w', e')"
      using r False nl by (simp add: set_level_def)
    then have "k_radio_ok w \<and> k_radio w \<and> \<not> k_powered_down w"
      using up c by (auto simp: thermal_throttle_def capped_def split: if_splits dest!: arg_cong [of _ _ fst])
    moreover have "P (r_setOutputPower a kThrottledTxPowerDbm f) = kThrottledTxPowerDbm" for f
      using p [unfolded power_chip_def, THEN conjunct2, THEN conjunct1] by blast
    moreover have "sint (P (snd (armReceive a (v, f)))) \<le> 4" if "sint (P f) \<le> 4" for v f
      using board_arm [OF power_chip_safe [OF p, of 4], of "(v, f)"] that by simp
    ultimately show ?thesis
      using t by (auto simp: thermal_throttle_def powers dest!: arg_cong [of _ _ snd])
  qed
  with c1 c2 c3 show ?thesis unfolding r by (simp add: capped_def)
qed (use c in \<open>simp add: set_level_def\<close>)

lemma capped_thermalTick:
  assumes p: "power_chip a P" and c: "capped P (w, e)"
  shows "capped P (thermalTick a now (w, e))"
proof (cases "k_last_thermal_ms w \<noteq> 0 \<and> now - k_last_thermal_ms w < 4000")
  case False
  let ?w = "w\<lparr>k_last_thermal_ms := now\<rparr>"
  obtain os e1 where os: "os_level a e = (os, e1)" by fastforce
  obtain nl w2 e2 where sl: "sensor_level a (?w, e1) = (nl, w2, e2)" by (metis surj_pair)
  have c1: "capped P (?w, e1)"
    by (rule capped_other [OF p c]) (use board_os_level [of a _ _ e] os in \<open>auto simp: evolves_def same_mode_def\<close>)
  have "capped P (w2, e2)"
  proof (rule capped_other [OF p c1])
    show "evolves ?w w2" using sensor_level_evolves [of ?w a e1] sl by simp
    show "same_mode ?w w2"
      using sensor_level_mode [of ?w a e1] sl by simp
    show "I e2" if "board_safe a B I" "I e1" for B I
      using board_sensor_level [OF that, of ?w] sl by simp
  qed
  then show ?thesis
    using False os sl c1 capped_set_level [OF p] by (auto simp: thermalTick_def Let_def split: option.splits)
qed (use c in \<open>simp add: thermalTick_def\<close>)

lemma capped_pollOnce:
  assumes p: "power_chip a P" and c: "capped P (w, e)" and run: "worker_pollOnce a (w, e) = Some (w', e')"
  shows "capped P (w', e')"
proof -
  note o = capped_other [OF p]
  obtain now e1 where 1: "worker_nowMs a e = (now, e1)" by fastforce
  obtain w2 e2 where 2: "thermalTick a now (w, e1) = (w2, e2)" by fastforce
  obtain w3 e3 where 3: "(if k_scan_active w2 then scanTick a now (w2, e2) else (w2, e2)) = (w3, e3)" by fastforce
  have c1: "capped P (w, e1)"
    by (rule o [OF c]) (use board_nowMs [of a _ _ e] 1 in \<open>auto simp: evolves_def\<close>)
  have c2: "capped P (w2, e2)" using capped_thermalTick [OF p c1, of now] 2 by simp
  have c3: "capped P (w3, e3)"
  proof (cases "k_scan_active w2")
    case True
    then have s: "scanTick a now (w2, e2) = (w3, e3)" using 3 by simp
    have "capped P (fst (scanTick a now (w2, e2)), snd (scanTick a now (w2, e2)))"
      by (rule o [OF c2 scanTick_evolves scanTick_mode board_scanTick])
    then show ?thesis unfolding s by simp
  qed (use 3 c2 in simp)
  have tx: "capped P (v', f')" if "serviceTxQueue a (v, f) = Some (v', f')" "capped P (v, f)" for v f v' f'
    by (rule o [OF that(2) serviceTxQueue_evolves [OF that(1)] serviceTxQueue_mode [OF that(1)]])
       (rule board_serviceTxQueue [OF _ _ that(1)])
  have rx: "capped P (v, f)" if "rx_loop k a (rxl0, w3, e3) = Some (v, f)" for k v f
    by (rule o [OF c3 rx_loop_evolves [OF that] rx_loop_mode [OF that]]) (rule board_rx_loop [OF _ _ that])
  show ?thesis
    using run unfolding worker_pollOnce_def Let_def prod.case 1 2 3
    using c2 c3 tx rx by (auto split: if_splits bind_splits)
qed

lemma capped_wexec:
  assumes p: "power_chip a P" and c: "capped P (w, e)" and run: "wexec a op (w, e) = Some x"
  shows "capped P x"
proof (cases op)
  case (Enqueue pl)
  have "capped P (snd (enqueueTx pl w), e)"
    using c by (simp add: enqueueTx_def capped_def)
  then show ?thesis using run Enqueue by simp
next
  case (Configure d)
  then show ?thesis using run capped_applyConfig [OF p c, of d] by simp
next
  case (Scan sp)
  have "capped P (fst (startScan a sp (w, e)), snd (startScan a sp (w, e)))"
    by (rule capped_other [OF p c startScan_evolves startScan_mode board_startScan])
  then show ?thesis using run Scan by simp
next
  case (Snapshot t)
  have "capped P (snd (snapshot t w), e)" using c by (simp add: snapshot_def Let_def capped_def)
  then show ?thesis using run Snapshot by simp
next
  case Poll
  then show ?thesis using run capped_pollOnce [OF p c, of "fst x" "snd x"] by simp
qed


end
