(* ===== verification/BenchWorker.thy ===== *)
theory BenchWorker
  imports Bench WorkerScan WorkerPower
begin

text \<open>
  Concrete inputs of the properties on scanning, configuration, temperature and transmit power, on
  the simulated board of theory Bench.
\<close>

section \<open>Configuration\<close>

definition bench_wk :: wk where
  "bench_wk = wk0\<lparr>k_radio_ok := True\<rparr>"


text \<open>A chip that refuses every frequency.\<close>

definition deaf_api :: "bench api" where
  "deaf_api = bench_api\<lparr>r_setFrequency := \<lambda>f b. (-1, b)\<rparr>"

lemma refused_config_accepted_on_resend_witness:
  "\<exists>w' e'. applyConfig deaf_api \<lparr>frequency_hz = 1, tx_power_dbm = 3, role = 0\<rparr> (bench_wk, bench0)
       = (Some ''set frequency failed'', w', e')
     \<and> applyConfig deaf_api \<lparr>frequency_hz = 1, tx_power_dbm = 3, role = 0\<rparr> (w', e') = (None, w', e')"
proof -
  let ?c = "\<lparr>frequency_hz = 1, tx_power_dbm = 3, role = 0\<rparr>"
  have ok: "k_radio_ok bench_wk" by (simp add: bench_wk_def)
  obtain err w' e' where r: "applyConfig deaf_api ?c (bench_wk, bench0) = (err, w', e')" by (metis surj_pair)
  have err: "err = Some ''set frequency failed''"
    using arg_cong [OF r, of fst]
    by (simp add: applyConfig_alt clamp_def power_limit_def bench_wk_def wk0_def config0_def deaf_api_def Let_def)
  show ?thesis using refused_config_accepted_on_resend [OF ok r [unfolded err]] r err by auto
qed

section \<open>Temperature\<close>

lemma cutoff_drops_queue_witness:
  "\<exists>w' e'. set_level bench_api 2 (bench_wk\<lparr>k_tx_q := [[1], [2]]\<rparr>, bench0) = (w', e')
     \<and> k_events w' = [OnTerminal kDropped, OnTerminal kDropped]"
proof -
  let ?w = "bench_wk\<lparr>k_tx_q := [[1], [2]]\<rparr>"
  obtain w' e' where r: "set_level bench_api 2 (?w, bench0) = (w', e')" by fastforce
  have "k_thermal_level ?w \<noteq> 2" by (simp add: bench_wk_def wk0_def)
  from cutoff_drops_queue [OF this r] have "k_events w' = k_events ?w @ replicate (length (k_tx_q ?w)) (OnTerminal kDropped)"
    by simp
  then show ?thesis using r by (simp add: bench_wk_def wk0_def numeral_eq_Suc)
qed

text \<open>A worker that was configured to 906 MHz and +3 dBm and then switched off by the governor.\<close>

definition bench_off :: wk where
  "bench_off = bench_wk\<lparr>k_powered_down := True, k_thermal_level := 2,
     k_cfg := \<lparr>frequency_hz = 906000000, tx_power_dbm = 3, role = 0\<rparr>\<rparr>"

lemma recovery_keeps_startup_profile_witness:
  "\<exists>v f. set_level bench_api 0 (bench_off, bench0) = (v\<lparr>k_powered_down := False\<rparr>, f)
     \<and> frequency_hz (k_cfg v) = 906000000"
proof -
  obtain ok v f where i: "worker_init bench_api (k_power_gpio bench_off) (bench_off\<lparr>k_thermal_level := 0\<rparr>, bench0) = (ok, v, f)"
    by (metis surj_pair)
  then have ok: "ok = True"
    using arg_cong [OF i, of fst] by (simp add: worker_init_def bench_api_def Let_def case_prod_beta)
  have "k_powered_down bench_off" "k_thermal_level bench_off = 2" "\<not> k_scan_active bench_off"
    "sint (tx_power_dbm (k_cfg bench_off)) \<le> 10"
    by (simp_all add: bench_off_def bench_wk_def wk0_def)
  from recovery_keeps_startup_profile [OF this i [unfolded ok]]
  show ?thesis by (auto simp: bench_off_def)
qed

section \<open>Transmit power\<close>

lemma bench_power: "power_chip bench_api b_power"
  by (simp add: power_chip_def board_safe_def bench_api_def flrc_profile_def split: list.split)


section \<open>Scanning\<close>

text \<open>Two channels: nothing heard on the first, one consensus packet on the second.\<close>

definition bench_visits :: "visit list" where
  "bench_visits = [([], 5100), ([([0x42, 0x46, 1, 2], -70)], 5110)]"


end
