(* ===== verification/Ring.thy ===== *)
theory Ring
  imports Parser
begin

text \<open>
  The shared-memory link: two byte rings in one file, one per direction, each with a header of two
  32-bit counters (bytes ever written, bytes ever read) and 65520 bytes of data.  \<open>ring\<close> reads a ring
  out of the file as a byte queue; \<open>ipc_writeAll\<close> and \<open>ipc_take\<close> are shown to refine the operations of
  a bounded queue as long as the write counter does not wrap around.
\<close>

section \<open>Files\<close>

text \<open>Overwriting part of a memory.\<close>

definition put :: "(nat \<Rightarrow> u8) \<Rightarrow> nat \<Rightarrow> bytes \<Rightarrow> nat \<Rightarrow> u8" where
  "put m a buf = (\<lambda>i. if a \<le> i \<and> i < a + length buf then buf ! (i - a) else m i)"

lemma put_Nil [simp]: "put m a [] = m"
  by (rule ext) (auto simp: put_def)

lemma put_outside [simp]: "i < a \<or> a + length buf \<le> i \<Longrightarrow> put m a buf i = m i"
  by (auto simp: put_def)

definition word_at :: "(nat \<Rightarrow> u8) \<Rightarrow> nat \<Rightarrow> u32" where
  "word_at m a = rd32 [m a, m (a + 1), m (a + 2), m (a + 3)] 0"

lemma word_at_put [simp]:
  "word_at (put m a (le32 w)) a = w"
  "a + 4 \<le> b \<or> b + length buf \<le> a \<Longrightarrow> word_at (put m b buf) a = word_at m a"
  by (auto simp: word_at_def put_def le32_def rd32_def nth_Cons')

text \<open>
  What POSIX promises of \<open>lseek\<close>, \<open>read\<close> and \<open>write\<close> on a regular file of the size the service gave
  it: \<open>pos\<close> is the file offset, \<open>mem\<close> the contents, \<open>rest\<close> anything these calls do not touch.
\<close>

definition shared_file :: "'s env \<Rightarrow> int \<Rightarrow> ('s \<Rightarrow> nat) \<Rightarrow> ('s \<Rightarrow> nat \<Rightarrow> u8) \<Rightarrow> ('s \<Rightarrow> 'r) \<Rightarrow> bool" where
  "shared_file env fd pos mem rest \<longleftrightarrow>
     (\<forall>n s. pos (e_lseek env fd n s) = n \<and> mem (e_lseek env fd n s) = mem s \<and> rest (e_lseek env fd n s) = rest s)
   \<and> (\<forall>n s. pos s + n \<le> kIpcTotalSize \<longrightarrow>
        fst (fst (e_read env fd n s)) = int n
        \<and> fst (snd (fst (e_read env fd n s))) = map (mem s) [pos s ..< pos s + n]
        \<and> mem (snd (e_read env fd n s)) = mem s \<and> rest (snd (e_read env fd n s)) = rest s)
   \<and> (\<forall>buf s. pos s + length buf \<le> kIpcTotalSize \<longrightarrow>
        mem (snd (e_write env fd buf s)) = put (mem s) (pos s) buf
        \<and> rest (snd (e_write env fd buf s)) = rest s)"

lemma file_simps:
  assumes "shared_file env fd pos mem rest"
  shows "pos (e_lseek env fd n s) = n" "mem (e_lseek env fd n s) = mem s" "rest (e_lseek env fd n s) = rest s"
    "a + length buf \<le> kIpcTotalSize \<Longrightarrow>
       mem (snd (e_write env fd buf (e_lseek env fd a s))) = put (mem s) a buf"
    "a + length buf \<le> kIpcTotalSize \<Longrightarrow>
       rest (snd (e_write env fd buf (e_lseek env fd a s))) = rest s"
  using assms by (simp_all add: shared_file_def)

lemma file_read:
  assumes "shared_file env fd pos mem rest" and "a + n \<le> kIpcTotalSize"
  obtains ag s' where "e_read env fd n (e_lseek env fd a s) = ((int n, map (mem s) [a ..< a + n], ag), s')"
    "mem s' = mem s" "rest s' = rest s"
proof -
  let ?r = "e_read env fd n (e_lseek env fd a s)"
  have "fst (fst ?r) = int n \<and> fst (snd (fst ?r)) = map (mem s) [a ..< a + n]
      \<and> mem (snd ?r) = mem s \<and> rest (snd ?r) = rest s"
    using assms by (simp add: shared_file_def)
  then show ?thesis by (metis that prod.collapse)
qed

lemma header_words:
  "rd32 (map m [a ..< a + 8]) 0 = word_at m a" "rd32 (map m [a ..< a + 8]) 4 = word_at m (a + 4)"
  by (simp_all add: word_at_def rd32_def add.commute)

section \<open>Rings\<close>

definition ring_size :: nat where
  "ring_size = 65520"

lemma ring_cap: "unat kIpcRingCap = ring_size" "0 < ring_size"
  by (simp_all add: const_vals ring_size_def)

text \<open>The ring at address \<open>b\<close> holds the bytes \<open>q\<close>; \<open>t\<close> bytes were taken from it before.\<close>

definition ring :: "(nat \<Rightarrow> u8) \<Rightarrow> nat \<Rightarrow> nat \<Rightarrow> bytes \<Rightarrow> bool" where
  "ring m b t q \<longleftrightarrow> word_at m b = of_nat (t + length q) \<and> word_at m (b + 4) = of_nat t
     \<and> t + length q < 2 ^ 32 \<and> length q \<le> ring_size
     \<and> (\<forall>i < length q. m (b + 16 + (t + i) mod ring_size) = q ! i)"

text \<open>Writing a chunk at offset \<open>off\<close> of the data area at \<open>d\<close>, wrapping around its end.\<close>

definition put_wrap :: "(nat \<Rightarrow> u8) \<Rightarrow> nat \<Rightarrow> nat \<Rightarrow> bytes \<Rightarrow> nat \<Rightarrow> u8" where
  "put_wrap m d off buf = (let first = min (length buf) (ring_size - off)
     in put (put m (d + off) (take first buf)) d (drop first buf))"

lemma mod_cell:
  assumes "j < ring_size"
  shows "(h + j) mod ring_size = (if h mod ring_size + j < ring_size then h mod ring_size + j
     else h mod ring_size + j - ring_size)"
proof -
  have 1: "(h + j) mod ring_size = (h mod ring_size + j) mod ring_size" by (simp add: mod_add_left_eq)
  have 2: "h mod ring_size < ring_size" using ring_cap(2) by simp
  show ?thesis
  proof (cases "h mod ring_size + j < ring_size")
    case False
    then have "(h mod ring_size + j) mod ring_size = (h mod ring_size + j - ring_size) mod ring_size"
      by (intro le_mod_geq) simp
    also have "\<dots> = h mod ring_size + j - ring_size"
      using 2 assms by (intro mod_less) linarith
    finally show ?thesis using 1 False by simp
  qed (simp add: 1)
qed

lemma put_wrap_at:
  assumes "length buf \<le> ring_size" and "j < ring_size" and "off < ring_size"
  shows "put_wrap m d off buf (d + (if off + j < ring_size then off + j else off + j - ring_size))
    = (if j < length buf then buf ! j else m (d + (if off + j < ring_size then off + j else off + j - ring_size)))"
  using assms by (auto simp: put_wrap_def Let_def put_def min_def)

lemma put_wrap_cell:
  assumes "length buf \<le> ring_size" and "j < ring_size"
  shows "put_wrap m d (h mod ring_size) buf (d + (h + j) mod ring_size)
    = (if j < length buf then buf ! j else m (d + (h + j) mod ring_size))"
  unfolding mod_cell [OF assms(2)] by (rule put_wrap_at [OF assms]) (simp add: ring_cap)

lemma put_wrap_outside:
  assumes "length buf \<le> ring_size" and "i < d \<or> d + ring_size \<le> i" and "off < ring_size"
  shows "put_wrap m d off buf i = m i"
  using assms by (auto simp: put_wrap_def Let_def put_def)

text \<open>The contents after a chunk was written behind \<open>q\<close>, as far as it was not overwritten.\<close>

lemma put_wrap_queue:
  assumes q: "\<forall>i < length q. m (d + (t + i) mod ring_size) = q ! i" and "length q \<le> ring_size"
    and buf: "length buf \<le> ring_size" and k: "length q + length buf - ring_size \<le> k" "k \<le> length q"
    and i: "i < length (drop k q @ buf)"
  shows "put_wrap m d ((t + length q) mod ring_size) buf (d + (t + k + i) mod ring_size) = (drop k q @ buf) ! i"
proof (cases "i < length q - k")
  case True
  let ?j = "ring_size - length q + k + i"
  have j: "?j < ring_size" "\<not> ?j < length buf" using True assms by auto
  have e: "t + length q + ?j = t + k + i + ring_size" using assms(2) by simp
  have "put_wrap m d ((t + length q) mod ring_size) buf (d + (t + length q + ?j) mod ring_size)
      = m (d + (t + length q + ?j) mod ring_size)"
    using put_wrap_cell [OF buf j(1), of m d "t + length q"] j(2) by simp
  then have "put_wrap m d ((t + length q) mod ring_size) buf (d + (t + k + i) mod ring_size)
      = m (d + (t + (k + i)) mod ring_size)"
    unfolding e mod_add_self2 by (simp add: add.assoc)
  then show ?thesis using q True by (simp add: nth_append)
next
  case False
  let ?j = "i - (length q - k)"
  have j: "?j < length buf" "?j < ring_size" using False i k buf by auto
  have e: "t + length q + ?j = t + k + i" using False k by simp
  show ?thesis
    using put_wrap_cell [OF buf j(2), of m d "t + length q"] j(1) False unfolding e
    by (simp add: nth_append)
qed

section \<open>The counters\<close>

lemma unat32: "n < 2 ^ 32 \<Longrightarrow> unat (of_nat n :: u32) = n"
  by (simp add: unat_of_nat)

lemma ring_size_lt: "ring_size + ring_size < 2 ^ 32" "ring_size < 2 ^ 32"
  by (simp_all add: ring_size_def)

lemma counter_diff: "(of_nat (t + n) :: u32) - of_nat t = of_nat n"
  by simp

lemma counter_offset: "unat ((h :: u32) mod kIpcRingCap) = unat h mod ring_size"
  by (simp add: unat_mod_distrib ring_cap)

text \<open>The split of a chunk of \<open>n\<close> bytes at offset \<open>off\<close> into the parts before and after the wrap.\<close>

lemma split_point:
  fixes off n :: u32
  assumes "unat off < ring_size" and "unat n \<le> ring_size"
  shows "unat (if off + n \<le> kIpcRingCap then n else kIpcRingCap - off) = min (unat n) (ring_size - unat off)"
proof -
  have "unat (off + n) = unat off + unat n"
    using assms ring_size_lt by (intro unat_plus_if' [THEN trans]) simp
  moreover have "unat (kIpcRingCap - off) = ring_size - unat off"
    using assms by (simp add: unat_sub word_le_nat_alt ring_cap)
  ultimately show ?thesis by (auto simp: word_le_nat_alt ring_cap)
qed

section \<open>Writing\<close>

lemma ipc_writeAll_file:
  assumes shm: "shared_file env (s_fd v) pos mem rest"
    and h: "word_at (mem s) 0 = of_nat (t + n)" and t: "word_at (mem s) 4 = of_nat t"
    and small: "n \<le> ring_size" "length buf \<le> ring_size"
  defines "m1 \<equiv> (if n + length buf > ring_size
     then put (mem s) 4 (le32 (of_nat (t + n) - (kIpcRingCap - of_nat (length buf)))) else mem s)"
  shows "\<exists>s'. ipc_writeAll env v buf s = (True, s') \<and> rest s' = rest s
     \<and> mem s' = put (put_wrap m1 16 (unat (of_nat (t + n) :: u32) mod ring_size) buf) 0 (le32 (of_nat (t + n + length buf)))"
proof -
  note f = file_simps [OF shm]
  obtain ag s1 where rd: "e_read env (s_fd v) 8 (e_lseek env (s_fd v) 0 s) = ((int 8, map (mem s) [0 ..< 0 + 8], ag), s1)"
      and s1: "mem s1 = mem s" "rest s1 = rest s"
    by (rule file_read [OF shm, of 0 8 s]) (simp add: const_vals)
  have hdr: "rd32 (map (mem s) [0 ..< 0 + 8]) 0 = of_nat (t + n)" "rd32 (map (mem s) [0 ..< 0 + 8]) 4 = of_nat t"
    unfolding header_words using h t by simp_all
  let ?off = "(of_nat (t + n) :: u32) mod kIpcRingCap" and ?n = "of_nat (length buf) :: u32"
  let ?h = "unat (of_nat (t + n) :: u32)"
  have off: "unat ?off = ?h mod ring_size" "unat ?off < ring_size"
    unfolding counter_offset using ring_cap(2) by simp_all
  have n: "unat ?n = length buf" using small(2) ring_size_lt by (intro unat32) linarith
  define first where "first = (if ?off + ?n \<le> kIpcRingCap then ?n else kIpcRingCap - ?off)"
  have first: "unat first = min (length buf) (ring_size - ?h mod ring_size)"
    using split_point [OF off(2), of ?n] n off(1) small(2) by (simp add: first_def)
  have le: "first \<le> ?n" using first n by (simp add: word_le_nat_alt)
  have used: "unat (of_nat n :: u32) = n" using small(1) ring_size_lt by (intro unat32) linarith
  then have no_reset: "\<not> kIpcRingCap < (of_nat n :: u32)" "\<not> unat kIpcRingCap < length buf"
    using small by (simp_all add: word_less_nat_alt ring_cap)
  define s2 where "s2 = (if n + length buf > ring_size
    then snd (e_write env (s_fd v) (le32 (of_nat (t + n) - (kIpcRingCap - ?n))) (e_lseek env (s_fd v) (0 + 4) s1)) else s1)"
  define s3 where "s3 = snd (e_write env (s_fd v) (take (unat first) buf) (e_lseek env (s_fd v) (0 + 16 + unat ?off) s2))"
  define s4 where "s4 = (if ?n > first
    then snd (e_write env (s_fd v) (take (unat (?n - first)) (drop (unat first) buf)) (e_lseek env (s_fd v) (0 + 16) s3)) else s3)"
  define s5 where "s5 = snd (e_write env (s_fd v) (le32 (of_nat (t + n) + ?n)) (e_lseek env (s_fd v) 0 s4))"
  have "ipc_writeAll env v buf s = (True, s5)"
    unfolding ipc_writeAll_def Let_def kIpcR2VBase_def rd prod.case hdr counter_diff used
    using no_reset used by (simp add: s5_def s4_def s3_def s2_def first_def ring_cap del: of_nat_add)
  moreover have "mem s2 = m1" "rest s2 = rest s"
    using s1 by (simp_all add: s2_def m1_def f kIpcTotalSize_def)
  moreover have "16 + unat ?off + unat first \<le> kIpcTotalSize"
    using off first small(2) by (simp add: const_vals ring_size_def)
  then have "mem s3 = put (mem s2) (16 + unat ?off) (take (unat first) buf)" "rest s3 = rest s2"
    by (simp_all add: s3_def f)
  moreover have "length (drop (unat first) buf) + 16 \<le> kIpcTotalSize"
    using small(2) by (simp add: const_vals ring_size_def)
  then have "mem s4 = put (mem s3) 16 (drop (unat first) buf)" "rest s4 = rest s3"
    using le first n by (simp_all add: s4_def f unat_sub word_less_nat_alt)
  moreover have "mem s5 = put (mem s4) 0 (le32 (of_nat (t + n + length buf)))" "rest s5 = rest s4"
    by (simp_all add: s5_def f kIpcTotalSize_def)
  ultimately show ?thesis
    by (simp add: put_wrap_def Let_def off first del: of_nat_add)
qed

lemma ring_disjoint:
  assumes "ring m b t q" and "\<And>i. b \<le> i \<Longrightarrow> i < b + 16 + ring_size \<Longrightarrow> m' i = m i"
  shows "ring m' b t q"
proof -
  have "(t + i) mod ring_size < ring_size" for i using ring_cap(2) by simp
  then have "m' (b + 16 + (t + i) mod ring_size) = m (b + 16 + (t + i) mod ring_size)" for i
    by (intro assms(2)) simp_all
  moreover have "word_at m' b = word_at m b" "word_at m' (b + 4) = word_at m (b + 4)"
    by (simp_all add: word_at_def assms(2))
  ultimately show ?thesis using assms(1) by (simp add: ring_def)
qed

text \<open>
  C21: the shared-memory link to the host is a bounded byte queue.  Writing a chunk of at most 65520
  bytes to a ring holding \<open>q\<close> always succeeds and leaves \<open>q\<close> followed by the chunk, without its
  oldest bytes as far as the two do not fit into 65520 bytes together; the other direction's ring
  and everything outside the file are untouched.  (As long as fewer than \<open>2 ^ 32\<close> bytes have been
  written since start-up.)
\<close>

theorem ipc_write_refines_queue:
  assumes shm: "shared_file env (s_fd v) pos mem rest" and ring: "ring (mem s) 0 t q"
    and room: "length buf \<le> ring_size" "t + length q + length buf < 2 ^ 32"
  defines "k \<equiv> length q + length buf - ring_size"
  shows "\<exists>s'. ipc_writeAll env v buf s = (True, s') \<and> rest s' = rest s
     \<and> ring (mem s') 0 (t + k) (drop k q @ buf)
     \<and> (\<forall>i. 16 + ring_size \<le> i \<longrightarrow> mem s' i = mem s i)"
proof -
  let ?n = "length q" and ?m = "mem s"
  define m1 where "m1 = (if ?n + length buf > ring_size
     then put ?m 4 (le32 (of_nat (t + ?n) - (kIpcRingCap - of_nat (length buf)))) else ?m)"
  have r: "word_at ?m 0 = of_nat (t + ?n)" "word_at ?m 4 = of_nat t" "t + ?n < 2 ^ 32" "?n \<le> ring_size"
      "\<forall>i < ?n. ?m (16 + (t + i) mod ring_size) = q ! i"
    using ring by (simp_all add: ring_def)
  obtain s' where s': "ipc_writeAll env v buf s = (True, s')" "rest s' = rest s"
      "mem s' = put (put_wrap m1 16 ((t + ?n) mod ring_size) buf) 0 (le32 (of_nat (t + ?n + length buf)))"
    using ipc_writeAll_file [OF shm r(1,2,4) room(1)] m1_def unat32 [OF r(3)] by auto
  have k: "k \<le> ?n" "?n + length buf - ring_size \<le> k" using room(1) by (simp_all add: k_def)
  have off: "(t + ?n) mod ring_size < ring_size" using ring_cap(2) by simp
  have m1: "m1 i = ?m i" if "8 \<le> i" for i using that by (simp add: m1_def)
  have out: "mem s' i = ?m i" if "16 + ring_size \<le> i" for i
    using that m1 put_wrap_outside [OF room(1) _ off, of i 16 m1] unfolding s'(3) by simp
  have tail: "word_at (mem s') 4 = of_nat (t + k)"
  proof -
    have "word_at (put_wrap m1 16 ((t + ?n) mod ring_size) buf) 4 = word_at m1 4"
      using put_wrap_outside [OF room(1) _ off, of _ 16 m1] by (simp add: word_at_def)
    then have "word_at (mem s') 4 = word_at m1 4" unfolding s'(3) by simp
    also have "\<dots> = of_nat (t + k)"
    proof (cases "?n + length buf > ring_size")
      case True
      then have "word_at m1 4 = of_nat (t + ?n) - (kIpcRingCap - of_nat (length buf))"
        by (simp add: m1_def del: of_nat_add)
      also have "kIpcRingCap = of_nat ring_size" by (simp add: const_vals ring_size_def)
      also have "of_nat (t + ?n) - (of_nat ring_size - of_nat (length buf)) = (of_nat (t + ?n) - of_nat (ring_size - length buf) :: u32)"
        using room(1) by (simp add: of_nat_diff)
      also have "\<dots> = of_nat (t + ?n - (ring_size - length buf))"
        using True by (intro of_nat_diff [symmetric]) simp
      also have "t + ?n - (ring_size - length buf) = t + k" using True room(1) by (simp add: k_def)
      finally show ?thesis .
    qed (use r(2) in \<open>simp add: m1_def k_def\<close>)
    finally show ?thesis .
  qed
  have "mem s' (0 + 16 + (t + k + i) mod ring_size) = (drop k q @ buf) ! i"
    if i: "i < length (drop k q @ buf)" for i
  proof -
    have "\<forall>i < ?n. m1 (16 + (t + i) mod ring_size) = q ! i" using r(5) m1 by simp
    from put_wrap_queue [OF this r(4) room(1) k(2,1) i] show ?thesis unfolding s'(3) by simp
  qed
  moreover have e: "t + k + length (drop k q @ buf) = t + ?n + length buf" using k by simp
  moreover have "word_at (mem s') 0 = of_nat (t + k + length (drop k q @ buf))"
    unfolding s'(3) e by simp
  moreover have "length (drop k q @ buf) \<le> ring_size" using k room by simp
  ultimately have "ring (mem s') 0 (t + k) (drop k q @ buf)"
    unfolding ring_def using tail room(2) by (simp del: of_nat_add length_append)
  then show ?thesis using s' out by blast
qed

section \<open>Reading\<close>

lemma map_ring:
  assumes "\<forall>i < length q. m (d + (t + i) mod ring_size) = q ! i" and "k \<le> length q" and "k \<le> ring_size"
  shows "map m [d + t mod ring_size ..< d + t mod ring_size + min k (ring_size - t mod ring_size)]
      @ map m [d ..< d + (k - min k (ring_size - t mod ring_size))] = take k q"
proof (rule nth_equalityI)
  let ?o = "t mod ring_size" and ?f = "min k (ring_size - t mod ring_size)"
  have o: "?o < ring_size" using ring_cap(2) by simp
  show "length (map m [d + ?o ..< d + ?o + ?f] @ map m [d ..< d + (k - ?f)]) = length (take k q)"
    using assms(2) by simp
  fix i assume "i < length (map m [d + ?o ..< d + ?o + ?f] @ map m [d ..< d + (k - ?f)])"
  then have i: "i < k" "i < ring_size" using assms(3) by simp_all
  have q: "m (d + (t + i) mod ring_size) = q ! i" using assms(1,2) i by simp
  show "(map m [d + ?o ..< d + ?o + ?f] @ map m [d ..< d + (k - ?f)]) ! i = take k q ! i"
    using q i o unfolding mod_cell [OF i(2)] by (auto simp: nth_append min_def ac_simps split: if_splits)
qed

lemma put_at_two:
  assumes "length d1 + length d2 \<le> length b"
  shows "put_at (length d1) d2 (put_at 0 d1 b) = d1 @ d2 @ drop (length d1 + length d2) b"
  using assms by (simp add: put_at_def add.commute)

lemma unat_min32: "unat (if x < y then x else y :: u32) = min (unat x) (unat y)"
  by (simp add: word_less_nat_alt min_def)

text \<open>
  Reading from a nonempty ring: the oldest bytes, 4096 at most, are moved to the buffer of the server,
  and the first of them is returned.
\<close>

lemma ipc_take_ring:
  assumes shm: "shared_file env (s_fd v) pos mem rest" and ring: "ring (mem s) 65536 t q"
    and q: "q \<noteq> []" and buf: "length (s_ipc_rx_buf v) = 4096"
  defines "k \<equiv> min (length q) 4096"
  shows "\<exists>s'. ipc_take env v s = (Some (hd q), v\<lparr>s_ipc_rx_buf := take k q @ drop k (s_ipc_rx_buf v),
       s_ipc_rx_pos := 1, s_ipc_rx_len := k\<rparr>, s')
     \<and> rest s' = rest s \<and> ring (mem s') 65536 (t + k) (drop k q)
     \<and> (\<forall>i < 65536. mem s' i = mem s i)"
proof -
  note f = file_simps [OF shm]
  let ?n = "length q" and ?m = "mem s" and ?d = "65536 + 16 :: nat"
  have r: "word_at ?m 65536 = of_nat (t + ?n)" "word_at ?m (65536 + 4) = of_nat t" "t + ?n < 2 ^ 32" "?n \<le> ring_size"
      "\<forall>i < ?n. ?m (?d + (t + i) mod ring_size) = q ! i"
    using ring by (simp_all add: ring_def)
  obtain ag s1 where rd: "e_read env (s_fd v) 8 (e_lseek env (s_fd v) 65536 s) = ((int 8, map ?m [65536 ..< 65536 + 8], ag), s1)"
      and s1: "mem s1 = ?m" "rest s1 = rest s"
    by (rule file_read [OF shm, of 65536 8 s]) (simp add: const_vals)
  have hdr: "rd32 (map ?m [65536 ..< 65536 + 8]) 0 = of_nat (t + ?n)" "rd32 (map ?m [65536 ..< 65536 + 8]) 4 = of_nat t"
    unfolding header_words using r(1,2) by simp_all
  have n: "unat (of_nat ?n :: u32) = ?n" using r(4) ring_size_lt by (intro unat32) linarith
  then have ne: "(of_nat (t + ?n) :: u32) \<noteq> of_nat t" "\<not> kIpcRingCap < (of_nat ?n :: u32)"
    using q r(4) counter_diff [of t ?n] by (auto simp: word_less_nat_alt ring_cap)
  let ?tk = "if (of_nat ?n :: u32) < 4096 then of_nat ?n else 4096 :: u32"
  let ?off = "(of_nat t :: u32) mod kIpcRingCap"
  have tk: "unat ?tk = k" unfolding unat_min32 n by (simp add: k_def)
  have k: "k \<le> ?n" "k \<le> 4096" "k \<le> ring_size" "0 < k" using r(4) q by (simp_all add: k_def ring_size_def)
  have t32: "t < 2 ^ 32" using r(3) by simp
  have off: "unat ?off = t mod ring_size" "t mod ring_size < ring_size"
    using counter_offset [of "of_nat t"] unat32 [OF t32] ring_cap(2) by simp_all
  define first where "first = (if ?off + ?tk \<le> kIpcRingCap then ?tk else kIpcRingCap - ?off)"
  let ?f = "min k (ring_size - t mod ring_size)"
  have first: "unat first = ?f"
    using split_point [of ?off ?tk] tk off k(3) by (simp add: first_def)
  have rest_len: "unat (?tk - first) = k - ?f" and more: "?tk > first \<longleftrightarrow> k > ?f"
    using first tk by (simp_all add: unat_sub word_le_nat_alt word_less_nat_alt)
  obtain ag1 s2 where rd1: "e_read env (s_fd v) (unat first) (e_lseek env (s_fd v) (?d + unat ?off) s1)
        = ((int (unat first), map ?m [?d + unat ?off ..< ?d + unat ?off + unat first], ag1), s2)"
      and s2: "mem s2 = ?m" "rest s2 = rest s"
    by (rule file_read [OF shm, of "?d + unat ?off" "unat first" s1])
       (use off first s1 in \<open>simp_all add: const_vals ring_size_def\<close>)
  obtain ag2 s3 where rd2: "e_read env (s_fd v) (k - ?f) (e_lseek env (s_fd v) ?d s2)
        = ((int (k - ?f), map ?m [?d ..< ?d + (k - ?f)], ag2), s3)"
      and s3: "mem s3 = ?m" "rest s3 = rest s"
    by (rule file_read [OF shm, of ?d "k - ?f" s2]) (use k s2 in \<open>simp_all add: const_vals ring_size_def\<close>)
  let ?d1 = "map ?m [?d + unat ?off ..< ?d + unat ?off + unat first]" and ?d2 = "map ?m [?d ..< ?d + (k - ?f)]"
  have "\<exists>n2 ag3 s4. (if k > ?f then e_read env (s_fd v) (k - ?f) (e_lseek env (s_fd v) ?d s2) else ((0, [], False), s2))
      = ((n2, ?d2, ag3), s4) \<and> mem s4 = ?m \<and> rest s4 = rest s"
  proof (cases "k > ?f")
    case True
    show ?thesis unfolding if_P [OF True] rd2 using s3 by blast
  next
    case False
    then have "?d2 = []" by simp
    then show ?thesis unfolding if_not_P [OF False] using s2
      by (intro exI [of _ 0] exI [of _ False] exI [of _ s2]) simp
  qed
  then obtain n2 ag3 s4 where snd_read: "(if ?tk > first
        then e_read env (s_fd v) (unat (?tk - first)) (e_lseek env (s_fd v) ?d s2) else ((0, [], False), s2))
      = ((n2, ?d2, ag3), s4)" and s4: "mem s4 = ?m" "rest s4 = rest s"
    unfolding rest_len more by blast
  have rx: "put_at (unat first) ?d2 (put_at 0 ?d1 (s_ipc_rx_buf v)) = take k q @ drop k (s_ipc_rx_buf v)"
  proof -
    have len: "length ?d1 = unat first" "length ?d1 + length ?d2 = k" using first by simp_all
    have "put_at (unat first) ?d2 (put_at 0 ?d1 (s_ipc_rx_buf v)) = (?d1 @ ?d2) @ drop k (s_ipc_rx_buf v)"
      using put_at_two [of ?d1 ?d2 "s_ipc_rx_buf v"] len buf k(2) by simp
    also have "?d1 @ ?d2 = take k q" unfolding off(1) first by (rule map_ring [OF r(5) k(1,3)])
    finally show ?thesis .
  qed
  have hd: "(take k q @ drop k (s_ipc_rx_buf v)) ! 0 = hd q"
    using q k by (simp add: nth_append hd_conv_nth)
  have tk_nat: "?tk = of_nat k" unfolding tk [symmetric] by (simp only: of_nat_unat ucast_id)
  define s5 where "s5 = snd (e_write env (s_fd v) (le32 (of_nat t + ?tk)) (e_lseek env (s_fd v) (65536 + 4) s4))"
  have take: "ipc_take env v s = (Some (hd q), v\<lparr>s_ipc_rx_buf := take k q @ drop k (s_ipc_rx_buf v),
       s_ipc_rx_pos := 1, s_ipc_rx_len := k\<rparr>, s5)"
    unfolding ipc_take_def Let_def kIpcV2RBase_def rd prod.case hdr counter_diff
    unfolding first_def [symmetric] rd1 prod.case snd_read rx hd tk s5_def
    using ne by (simp del: of_nat_add)
  have "mem s5 = put ?m (65536 + 4) (le32 (of_nat (t + k)))" "rest s5 = rest s"
    using s4 by (simp_all add: s5_def f kIpcTotalSize_def tk_nat)
  moreover have "ring (put ?m (65536 + 4) (le32 (of_nat (t + k)))) 65536 (t + k) (drop k q)"
    using r k by (simp add: ring_def add.assoc)
  ultimately show ?thesis using take by simp
qed

lemma ipc_take_empty:
  assumes shm: "shared_file env (s_fd v) pos mem rest" and ring: "ring (mem s) 65536 t []"
  shows "\<exists>s'. ipc_take env v s = (None, v, s') \<and> mem s' = mem s \<and> rest s' = rest s"
proof -
  obtain ag s1 where rd: "e_read env (s_fd v) 8 (e_lseek env (s_fd v) 65536 s) = ((int 8, map (mem s) [65536 ..< 65536 + 8], ag), s1)"
      and s1: "mem s1 = mem s" "rest s1 = rest s"
    by (rule file_read [OF shm, of 65536 8 s]) (simp add: const_vals)
  have "rd32 (map (mem s) [65536 ..< 65536 + 8]) 0 = rd32 (map (mem s) [65536 ..< 65536 + 8]) 4"
    unfolding header_words using ring by (simp add: ring_def)
  then have "ipc_take env v s = (None, v, s1)"
    unfolding ipc_take_def Let_def kIpcV2RBase_def rd prod.case by simp
  then show ?thesis using s1 by simp
qed

text \<open>The bytes waiting in the ring at \<open>b\<close>, computed from its header.\<close>

definition ring_bytes :: "(nat \<Rightarrow> u8) \<Rightarrow> nat \<Rightarrow> bytes" where
  "ring_bytes m b = map (\<lambda>i. m (b + 16 + (unat (word_at m (b + 4)) + i) mod ring_size))
     [0 ..< unat (word_at m b - word_at m (b + 4))]"

lemma ring_bytes: "ring m b t q \<Longrightarrow> ring_bytes m b = q"
proof -
  assume r: "ring m b t q"
  then have "word_at m b - word_at m (b + 4) = of_nat (length q)" "length q < 2 ^ 32" "t < 2 ^ 32"
      "word_at m (b + 4) = of_nat t"
    using ring_size_lt by (auto simp: ring_def)
  then have "unat (word_at m b - word_at m (b + 4)) = length q" "unat (word_at m (b + 4)) = t"
    by (simp_all add: unat32)
  then show ?thesis using r by (auto simp: ring_bytes_def ring_def intro: nth_equalityI)
qed

text \<open>Writing leaves the other direction alone, whatever the header says.\<close>

lemma ipc_writeAll_low:
  assumes shm: "shared_file env (s_fd v) pos mem rest" and buf: "length buf \<le> ring_size" and i: "16 + ring_size \<le> i"
  shows "mem (snd (ipc_writeAll env v buf s)) i = mem s i"
proof -
  note f = file_simps [OF shm]
  obtain ag s1 where rd: "e_read env (s_fd v) 8 (e_lseek env (s_fd v) 0 s) = ((int 8, map (mem s) [0 ..< 0 + 8], ag), s1)"
      and s1: "mem s1 = mem s"
    by (rule file_read [OF shm, of 0 8 s]) (simp add: const_vals)
  let ?n = "of_nat (length buf) :: u32"
  have n: "unat ?n = length buf" using buf ring_size_lt by (intro unat32) linarith
  have low: "mem (snd (e_write env (s_fd v) d (e_lseek env (s_fd v) a x))) i = mem x i" if "a + length d \<le> 16 + ring_size" for d a x
    using that i by (simp add: f ring_size_def const_vals)
  define h where "h = rd32 (map (mem s) [0 ..< 0 + 8]) 0"
  define first where "first = (if h mod kIpcRingCap + ?n \<le> kIpcRingCap then ?n else kIpcRingCap - h mod kIpcRingCap)"
  have off: "unat (h mod kIpcRingCap) < ring_size"
    by (simp add: unat_mod_distrib ring_cap)
  have first: "unat first = min (length buf) (ring_size - unat (h mod kIpcRingCap))"
    using split_point [OF off, of ?n] n buf by (simp add: first_def)
  have 1: "mem (snd (e_write env (s_fd v) (take (unat first) buf) (e_lseek env (s_fd v) (0 + 16 + unat (h mod kIpcRingCap)) x))) i = mem x i"
    and 2: "mem (snd (e_write env (s_fd v) (take k (drop (unat first) buf)) (e_lseek env (s_fd v) (0 + 16) x))) i = mem x i"
    and 3: "mem (snd (e_write env (s_fd v) (le32 w) (e_lseek env (s_fd v) (0 + 4) x))) i = mem x i"
    and 4: "mem (snd (e_write env (s_fd v) (le32 w) (e_lseek env (s_fd v) 0 x))) i = mem x i" for k w x
    by (rule low, use buf off first in simp)+
  show ?thesis
    unfolding ipc_writeAll_def Let_def kIpcR2VBase_def rd prod.case h_def [symmetric] first_def [symmetric]
    by (simp only: if_distrib [of "\<lambda>x. mem x i"] if_distrib [of snd] snd_conv 1 2 3 4 s1 if_cancel simp_thms split: if_split)
qed

section \<open>The counter wrap-around\<close>

text \<open>
  C24: the ring breaks when its 32-bit counter wraps, because 65520 does not divide \<open>2 ^ 32\<close>.  With an
  empty ring whose counters stand at \<open>2 ^ 32 - 4\<close>, two writes of four bytes each are reported as
  successful and there is room for both, but the reader finds the first four bytes followed by four
  stale bytes of the data area (addresses 272 to 275); the second chunk was put at offset 0.
\<close>

theorem ring_breaks_at_wrap:
  assumes shm: "shared_file env (s_fd v) pos mem rest"
    and empty: "word_at (mem s) 0 = - 4" "word_at (mem s) 4 = - 4"
    and len: "length buf1 = 4" "length buf2 = 4"
  shows "\<exists>s1 s2. ipc_writeAll env v buf1 s = (True, s1) \<and> ipc_writeAll env v buf2 s1 = (True, s2)
     \<and> ring_bytes (mem s2) 0 = buf1 @ map (mem s) [272 ..< 276]
     \<and> map (mem s2) [16 ..< 20] = buf2"
proof -
  let ?t = "2 ^ 32 - 4 :: nat"
  have c: "(4294967292 :: u32) = - 4" "(4294967296 :: u32) = 0" "(4294967300 :: u32) = 4"
    by simp_all
  obtain s1 where s1: "ipc_writeAll env v buf1 s = (True, s1)"
      "mem s1 = put (put_wrap (mem s) 16 (unat (- 4 :: u32) mod ring_size) buf1) 0 (le32 0)"
    using ipc_writeAll_file [OF shm, of s ?t 0 buf1] empty len by (auto simp: ring_size_def c)
  have four: "\<exists>p q r t. b = [p, q, r, t]" if "length b = 4" for b :: bytes
    using that by (auto simp: length_Suc_conv numeral_eq_Suc)
  have off: "unat (- 4 :: u32) mod ring_size = 252" by (simp add: ring_size_def)
  have m1: "mem s1 = put (put (mem s) 268 buf1) 0 (le32 0)"
    unfolding s1(2) off by (simp add: put_wrap_def ring_size_def len)
  have w1: "word_at (mem s1) 0 = 0" "word_at (mem s1) 4 = - 4" unfolding m1 using empty by simp_all
  obtain s2 where s2: "ipc_writeAll env v buf2 s1 = (True, s2)"
      "mem s2 = put (put_wrap (mem s1) 16 0 buf2) 0 (le32 4)"
    using ipc_writeAll_file [OF shm, of s1 ?t 4 buf2] w1 len by (auto simp: ring_size_def c)
  have m2: "mem s2 = put (put (put (put (mem s) 268 buf1) 0 (le32 0)) 16 buf2) 0 (le32 4)"
    unfolding s2(2) m1 by (simp add: put_wrap_def ring_size_def len)
  have w2: "word_at (mem s2) 0 = 4" "word_at (mem s2) 4 = - 4" unfolding m2 using empty len by simp_all
  have cell: "(unat (- 4 :: u32) + i) mod ring_size = 252 + i" if "i < 8" for i
    using that mod_cell [of i "unat (- 4 :: u32)"] unfolding off by (simp add: ring_size_def)
  have "ring_bytes (mem s2) 0 = map (\<lambda>i. mem s2 (16 + (252 + i))) [0 ..< 8]"
    unfolding ring_bytes_def w2 add_0 using cell by simp
  also have "\<dots> = map (mem s2) [268 ..< 272] @ map (mem s2) [272 ..< 276]"
    by (simp add: upt_rec)
  also have "map (mem s2) [272 ..< 276] = map (mem s) [272 ..< 276]"
    unfolding m2 using len by simp
  also have "map (mem s2) [268 ..< 272] = buf1"
    unfolding m2 using four [OF len(1)] four [OF len(2)] by (auto simp: put_def)
  finally have "ring_bytes (mem s2) 0 = buf1 @ map (mem s) [272 ..< 276]" .
  moreover have "map (mem s2) [16 ..< 20] = buf2"
    unfolding m2 using four [OF len(1)] four [OF len(2)] by (auto simp: put_def)
  ultimately show ?thesis using s1(1) s2(1) by blast
qed

end
