(* ===== verification/Polling.thy ===== *)
theory Polling
  imports ParserInv
begin

text \<open>
  \<open>pollOnce\<close> and its byte source.  The locale \<open>byte_source\<close> is the interface the receive loop relies on:
  bytes are pending somewhere, \<open>readByte\<close> hands out the first of them, and handling a byte does not
  disturb the others.  Its client lemma: one poll hands every pending byte to the parser, once and in
  order, and returns.  \<open>kept\<close> is what a link and worker must leave alone for the law on handling.
\<close>

section \<open>What handling a byte leaves alone\<close>

text \<open>An observation \<open>I\<close> that survives every call the handlers make, with the link in state \<open>T\<close>.\<close>

definition kept :: "'s env \<Rightarrow> int \<times> bool \<times> bool \<times> bytes \<times> nat \<times> nat \<Rightarrow> ('s \<Rightarrow> bool) \<Rightarrow> bool" where
  "kept env T I \<longleftrightarrow>
     (\<forall>v buf s. transport v = T \<longrightarrow> I s \<longrightarrow> length buf \<le> 1024 \<longrightarrow> yields (\<lambda>(r, s'). I s') (writeAll env v buf s))
   \<and> (\<forall>s. I s \<longrightarrow> I (snd (e_clock env s))) \<and> (\<forall>fd s. I s \<longrightarrow> I (e_fsync env fd s))
   \<and> (\<forall>c s. I s \<longrightarrow> yields (\<lambda>(r, s'). I s') (w_applyConfig env c s))
   \<and> (\<forall>p s. I s \<longrightarrow> yields I (w_startScan env p s))
   \<and> (\<forall>p s. I s \<longrightarrow> I (snd (w_enqueueTx env p s))) \<and> (\<forall>t s. I s \<longrightarrow> I (snd (w_snapshot env t s)))"

lemma kept_calls:
  assumes "kept env T I" and "I s"
  shows "transport v = T \<Longrightarrow> length buf \<le> 1024 \<Longrightarrow> yields (\<lambda>(r, s'). I s') (writeAll env v buf s)"
    "I (snd (e_clock env s))" "I (e_fsync env fd s)" "yields (\<lambda>(r, s'). I s') (w_applyConfig env c s)"
    "yields I (w_startScan env p s)" "I (snd (w_enqueueTx env pl s))" "I (snd (w_snapshot env t s))"
  using assms by (simp_all add: kept_def)

lemma kept_nowMs: "kept env T I \<Longrightarrow> I s \<Longrightarrow> I (snd (nowMs env s))"
  by (simp add: nowMs_def case_prod_beta kept_calls)

lemma kept_write:
  assumes "kept env T I" and "I s" and "transport v = T" and "length buf \<le> 1024"
  shows "yields I (do { (r, s) \<leftarrow> writeAll env v buf s; Some s })"
  by (rule yields_bind [OF kept_calls(1) [OF assms]]) auto

lemma kept_frames:
  assumes "kept env T I" and "I s" and "transport v = T"
  shows "length buf \<le> 1024 \<Longrightarrow> yields I (writeFrame env v tag buf s)" "yields I (writeReady env v m s)"
    "yields I (writeError env v c msg s)" "yields I (writeDiag env v i x s)"
    "yields I (writeStats env v s)" "yields I (handleReset env v s)"
proof -
  note w = kept_write [OF assms(1) _ assms(3)]
  have frame: "yields I (writeFrame env v tag buf s)" if "length buf \<le> 1024" "I s" for tag buf s
    unfolding writeFrame_def Let_def
    by (rule yields_bind [OF kept_calls(1) [OF assms(1) that(2) assms(3)]])
       (use that in \<open>auto intro!: w\<close>)
  show "length buf \<le> 1024 \<Longrightarrow> yields I (writeFrame env v tag buf s)" by (rule frame [OF _ assms(2)])
  show "yields I (writeReady env v m s)" "yields I (writeError env v c msg s)"
    unfolding writeReady_def writeError_def Let_def using assms(2) by (auto intro!: w)
  show "yields I (writeDiag env v i x s)"
    unfolding writeDiag_def using assms(2) by (auto intro!: frame)
  obtain now s1 where n: "nowMs env s = (now, s1)" by fastforce
  obtain c s2 where c: "w_snapshot env now s1 = (c, s2)" by fastforce
  have "I s1" using kept_nowMs [OF assms(1,2)] n by simp
  then have "I s2" using kept_calls(7) [OF assms(1), of s1 now] c by simp
  then show "yields I (writeStats env v s)"
    unfolding writeStats_def Let_def n c prod.case by (intro frame) simp
  show "yields I (handleReset env v s)"
    unfolding handleReset_def
    by (rule yields_bind [OF kept_calls(1) [OF assms]]) (auto simp: kept_calls(3) [OF assms(1)])
qed

lemma kept_handlers:
  assumes "kept env T I" and "I s" and "transport v = T"
  shows "yields I (handleTx env v pl s)" "yields I (handleScanQ env n dw fs s)" "yields I (handleConfig env v body len s)"
proof -
  note c = kept_calls [OF assms(1)] and f = kept_frames [OF assms(1) _ assms(3)]
  show "yields I (handleTx env v pl s)"
    using c(6) [OF assms(2), of pl] by (auto simp: handleTx_def Let_def case_prod_beta intro!: f)
  show "yields I (handleScanQ env n dw fs s)"
    using assms(2) by (simp add: handleScanQ_def c)
  show "yields I (handleConfig env v body len s)"
    unfolding handleConfig_def Let_def
    by (auto intro!: yields_bind [OF c(5)] yields_bind [OF c(4)] f assms(2) split: option.split)
qed

abbreviation same_link :: "int \<times> bool \<times> bool \<times> bytes \<times> nat \<times> nat \<Rightarrow> ('s \<Rightarrow> bool) \<Rightarrow> srv \<times> 's \<Rightarrow> bool" where
  "same_link T I \<equiv> \<lambda>(v, s). transport v = T \<and> I s"

lemma kept_tick:
  assumes "kept env T I" and "I s" and "transport v = T"
  shows "yields (same_link T I) (maybeEmitStats env force (v, s))"
proof -
  obtain now s1 where n: "nowMs env s = (now, s1)" by fastforce
  have s1: "I s1" using kept_nowMs [OF assms(1,2)] n by simp
  show ?thesis
    unfolding maybeEmitStats_def Let_def prod.case n
    using s1 assms(3) by (auto intro!: yields_bind [OF kept_frames(5) [OF assms(1) s1]])
qed

lemma kept_switch:
  assumes "kept env T I" and "I s" and "transport v = T"
  shows "yields (same_link T I) (parse_switch env b (v, s))"
proof -
  note f = kept_frames [OF assms(1,2)] and h = kept_handlers [OF assms(1,2)] and t = kept_tick [OF assms(1,2)]
  have post: "yields (same_link T I) (do { s \<leftarrow> m; Some (v', s) })" if "yields I m" "transport v' = T" for m v'
    by (rule yields_bind [OF that(1)]) (simp add: that(2))
  have 1: "yields (same_link T I) (on_tag env b (v, s))" "yields (same_link T I) (on_len_hi env b (v, s))"
    unfolding on_tag_def on_len_hi_def Let_def prod.case
    by (simp_all add: assms(2,3) post f t)
  have 2: "yields (same_link T I) (on_window env b (v, s))" "yields (same_link T I) (on_config env b (v, s))"
    "yields (same_link T I) (on_payload env b (v, s))" "yields (same_link T I) (on_scan_body env b (v, s))"
    unfolding on_window_def on_config_def on_payload_def on_scan_body_def Let_def prod.case store_def rd_slice_def
    by (simp_all add: assms(2,3) post f h kept_handlers(2) [OF assms])
  show ?thesis
    using 1 2 assms(2,3) by (cases "s_state v") (simp_all add: parse_switch_def)
qed

lemma kept_parse_byte:
  assumes "kept env T I" and "I s" and "transport v = T"
  shows "yields (same_link T I) (parse_byte env now b (v, s))"
proof -
  have r: "transport (resync now v) = T" using assms(3) by simp
  have "yields (same_link T I) (do { x \<leftarrow> parse_switch env b (resync now v, s); maybeEmitStats env False x })"
  proof (rule yields_bind [OF kept_switch [OF assms(1,2) r]])
    fix x assume "same_link T I x"
    then show "yields (same_link T I) (maybeEmitStats env False x)"
      by (cases x) (simp add: kept_tick [OF assms(1)])
  qed
  then show ?thesis
    using assms(2) r by (simp add: parse_byte_def Let_def)
qed

section \<open>Byte sources\<close>

text \<open>The bytes one poll hands to the parser (\<^const>\<open>poll_loop\<close>, instrumented).\<close>

fun handed :: "nat \<Rightarrow> 's env \<Rightarrow> srv \<times> 's \<Rightarrow> bytes" where
  "handed 0 env x = []"
| "handed (Suc k) env (v, s) =
     (case readByte env 0 v s of None \<Rightarrow> []
      | Some ((rc, b), v, s) \<Rightarrow>
          if rc = 0 then
            (let (now, s) = nowMs env s
             in b # (case parse_byte env now b (v, s) of None \<Rightarrow> [] | Some x \<Rightarrow> handed k env x))
          else [])"

locale byte_source =
  fixes env :: "'s env" and pending :: "srv \<Rightarrow> 's \<Rightarrow> bytes" and up :: "srv \<Rightarrow> 's \<Rightarrow> bool"
  assumes next_byte: "up v s \<Longrightarrow> pending v s = b # bs \<Longrightarrow> parser_inv v \<Longrightarrow>
      \<exists>v' s'. readByte env 0 v s = Some ((0, b), v', s') \<and> up v' s' \<and> pending v' s' = bs \<and> parser_inv v'"
    and no_byte: "up v s \<Longrightarrow> pending v s = [] \<Longrightarrow>
      \<exists>v' s'. readByte env 0 v s = Some ((-1, 0), v', s') \<and> up v' s' \<and> pending v' s' = []"
    and clock: "up v s \<Longrightarrow> up v (snd (nowMs env s)) \<and> pending v (snd (nowMs env s)) = pending v s"
    and handling: "up v s \<Longrightarrow> parse_byte env now b (v, s) = Some (v', s') \<Longrightarrow>
      up v' s' \<and> pending v' s' = pending v s"
    and ticking: "up v s \<Longrightarrow> maybeEmitStats env False (v, s) = Some (v', s') \<Longrightarrow>
      up v' s' \<and> pending v' s' = pending v s"
    and calls_return: "up v s \<Longrightarrow> live_on (transport v) env"
begin

lemma poll_takes_all:
  assumes "up v s" and "parser_inv v" and "length (pending v s) < k"
  shows "handed k env (v, s) = pending v s
    \<and> (\<exists>v' s'. poll_loop k env (v, s) = Some (v', s') \<and> up v' s' \<and> pending v' s' = [])"
  using assms
proof (induction k arbitrary: v s)
  case (Suc k)
  show ?case
  proof (cases "pending v s")
    case Nil
    obtain v1 s1 where r: "readByte env 0 v s = Some ((-1, 0), v1, s1)" "up v1 s1" "pending v1 s1 = []"
      using no_byte [OF Suc.prems(1) Nil] by blast
    obtain v2 s2 where t: "maybeEmitStats env False (v1, s1) = Some (v2, s2)"
      using live_stats [OF calls_return [OF r(2)], of False s1] by (auto simp: runs_def)
    show ?thesis using r t ticking [OF r(2) t] Nil by simp
  next
    case (Cons b bs)
    obtain v1 s1 where r: "readByte env 0 v s = Some ((0, b), v1, s1)" "up v1 s1" "pending v1 s1 = bs" "parser_inv v1"
      using next_byte [OF Suc.prems(1) Cons Suc.prems(2)] by blast
    obtain now s2 where n: "nowMs env s1 = (now, s2)" by fastforce
    have u2: "up v1 s2" "pending v1 s2 = bs" using clock [OF r(2)] r(3) n by simp_all
    obtain v3 s3 where p: "parse_byte env now b (v1, s2) = Some (v3, s3)"
      using parse_byte_live [OF calls_return [OF u2(1)] r(4), of now b s2] by (auto simp: runs_def)
    have u3: "up v3 s3" "pending v3 s3 = bs" using handling [OF u2(1) p] u2(2) by simp_all
    have "length (pending v3 s3) < k" using Suc.prems(3) Cons u3 by simp
    from Suc.IH [OF u3(1) parse_byte_inv [OF p r(4)] this]
    show ?thesis using r n p u3 Cons by simp
  qed
qed simp

end

end
