(* ===== verification/Links.thy ===== *)
theory Links
  imports Ring Polling Service WorkerPower
begin

text \<open>
  The service on its links.  \<open>uart_board\<close> and \<open>ring_board\<close> state what board and operating system
  promise for a UART and for the shared-memory file; both provide the interface \<open>byte_source\<close> of the
  receive loop (and the UART the interface \<open>sink\<close> of the frame writers), so that a poll consumes
  exactly the bytes the host has sent.
\<close>

section \<open>Calls of the handlers\<close>

lemma kept_svc:
  assumes "board_safe a 127 I" and "\<And>e. I e \<Longrightarrow> I (snd (e_clock os e))" and "\<And>fd e. I e \<Longrightarrow> I (e_fsync os fd e)"
    and "\<And>v buf w e. transport v = T \<Longrightarrow> I e \<Longrightarrow> length buf \<le> 1024 \<Longrightarrow>
      yields (\<lambda>(r, w', e'). I e') (writeAll (svc_env a os) v buf (w, e))"
  shows "kept (svc_env a os) T (\<lambda>(w, e). I e)"
proof -
  have cfg: "I e \<Longrightarrow> I (snd (snd (applyConfig a c (w, e))))" for c w e
    by (rule board_applyConfig [OF assms(1)]) (simp_all add: power_limit_def)
  have scan: "I e \<Longrightarrow> I (snd (startScan a p (w, e)))" for p w e
    by (rule board_startScan [OF assms(1)])
  have "(\<lambda>(r, s'). case s' of (w, e) \<Rightarrow> I e) = (\<lambda>(r, w', e'). I e')" by (rule ext) auto
  then show ?thesis
    unfolding kept_def using assms(2-4) cfg scan
    by (auto simp: svc_env_def on_os_def on_os0_def case_prod_beta)
qed

lemma live_svc:
  assumes "\<And>v buf s. transport v = T \<Longrightarrow> length buf \<le> 1024 \<Longrightarrow> runs (writeAll (svc_env a os) v buf s)"
  shows "live_on T (svc_env a os)"
  unfolding live_on_def using assms by (simp add: svc_env_def)

section \<open>UART\<close>

locale uart_board =
  fixes a :: "'e api" and os :: "'e env" and inp :: "'e \<Rightarrow> bytes" and out :: "'e \<Rightarrow> bytes"
  assumes uart: "good_uart os out inp"
    and read_some: "inp e = b # bs \<Longrightarrow> \<exists>ag e'. e_read os fd 1 e = ((1, [b], ag), e') \<and> inp e' = bs"
    and read_none: "inp e = [] \<Longrightarrow> \<exists>n d ag e'. e_read os fd 1 e = ((n, d, ag), e') \<and> n \<le> 0 \<and> inp e' = []"
    and board: "board_safe a 127 (\<lambda>e. inp e = q)"
    and clock: "inp (snd (e_clock os e)) = inp e" and fsync: "inp (e_fsync os fd e) = inp e"
begin

lemma uart_kept:
  assumes "uart_up v"
  shows "kept (svc_env a os) (transport v) (\<lambda>(w, e). inp e = q)"
proof (rule kept_svc [OF board])
  fix v' w e and buf :: bytes assume v': "transport v' = transport v" and q: "inp e = q" and len: "length buf \<le> 1024"
  have up: "uart_up v'" using assms v' by (simp add: transport_def uart_up_def)
  have "1024 \<le> e_fuel (svc_env a os)" using good_uart_svc [OF uart, of a] by (simp add: good_uart_def)
  then obtain s' where "writeAll (svc_env a os) v' buf (w, e) = Some (True, s')" "rest_of inp s' = rest_of inp (w, e)"
    using write_loop_uart [OF good_uart_svc [OF uart, of a], of v' buf "e_fuel (svc_env a os)" "(w, e)"] up len
    by (auto simp: writeAll_def uart_up_def)
  then show "yields (\<lambda>(r, w', e'). inp e' = q) (writeAll (svc_env a os) v' buf (w, e))"
    using q by (cases s') (simp add: rest_of_def)
qed (simp_all add: clock fsync)

lemma uart_live:
  assumes "uart_up v"
  shows "live_on (transport v) (svc_env a os)"
proof (rule live_svc)
  fix v' and buf :: bytes and s assume v': "transport v' = transport v" and len: "length buf \<le> 1024"
  have up: "uart_up v'" using assms v' by (simp add: transport_def uart_up_def)
  have "1024 \<le> e_fuel (svc_env a os)" using good_uart_svc [OF uart, of a] by (simp add: good_uart_def)
  then show "runs (writeAll (svc_env a os) v' buf s)"
    using write_loop_uart [OF good_uart_svc [OF uart, of a], of v' buf "e_fuel (svc_env a os)" s] up len
    by (auto simp: writeAll_def uart_up_def runs_def)
qed

lemma uart_now: "inp (snd (snd (nowMs (svc_env a os) (w, e)))) = inp e"
  by (simp add: nowMs_def svc_env_def on_os_def case_prod_beta clock)

lemma uart_read:
  assumes "uart_up v"
  shows "inp e = b # bs \<Longrightarrow> \<exists>w' e'. readByte (svc_env a os) 0 v (w, e) = Some ((0, b), v, w', e') \<and> inp e' = bs"
    "inp e = [] \<Longrightarrow> \<exists>w' e'. readByte (svc_env a os) 0 v (w, e) = Some ((-1, 0), v, w', e') \<and> inp e' = []"
proof -
  obtain now w1 e1 where n: "nowMs (svc_env a os) (w, e) = (now, w1, e1)" by (metis surj_pair)
  have e1: "inp e1 = inp e" using uart_now [of w e] n by simp
  have "e_fuel os \<noteq> 0" using uart by (simp add: good_uart_def)
  then obtain k where k: "e_fuel (svc_env a os) = Suc k" by (cases "e_fuel os") (simp_all add: svc_env_def)
  have rd: "e_read (svc_env a os) fd 1 (w1, e1) = (let (r, e) = e_read os fd 1 e1 in (r, w1, e))" for fd
    by (simp add: svc_env_def on_os_def)
  show "\<exists>w' e'. readByte (svc_env a os) 0 v (w, e) = Some ((0, b), v, w', e') \<and> inp e' = bs" if "inp e = b # bs"
    using read_some [of e1 b bs "s_fd v"] that e1 assms n k rd by (auto simp: readByte_def uart_up_def)
  show "\<exists>w' e'. readByte (svc_env a os) 0 v (w, e) = Some ((-1, 0), v, w', e') \<and> inp e' = []" if "inp e = []"
    using read_none [of e1 "s_fd v"] that e1 assms n k rd by (auto simp: readByte_def uart_up_def)
qed

end

sublocale uart_board \<subseteq> uart_out: sink "svc_env a os" "out_of out" "rest_of inp" "\<lambda>v s. uart_up v"
  by (rule svc_sink [OF uart])

sublocale uart_board \<subseteq> uart_in: byte_source "svc_env a os" "\<lambda>v s. inp (snd s)" "\<lambda>v s. uart_up v"
proof
  fix v and s :: "wk \<times> 'e"
  assume up: "uart_up v"
  obtain w e where s: "s = (w, e)" by fastforce
  show "\<exists>v' s'. readByte (svc_env a os) 0 v s = Some ((0, b), v', s') \<and> uart_up v' \<and> inp (snd s') = bs \<and> parser_inv v'"
    if "inp (snd s) = b # bs" "parser_inv v" for b bs
    using uart_read(1) [OF up, of e b bs w] that up s by auto
  show "\<exists>v' s'. readByte (svc_env a os) 0 v s = Some ((-1, 0), v', s') \<and> uart_up v' \<and> inp (snd s') = []"
    if "inp (snd s) = []"
    using uart_read(2) [OF up, of e w] that up s by auto
  show "uart_up v \<and> inp (snd (snd (nowMs (svc_env a os) s))) = inp (snd s)"
    using up uart_now [of w e] s by simp
  show "live_on (transport v) (svc_env a os)" by (rule uart_live [OF up])
  have same: "uart_up v' \<and> inp (snd s') = inp (snd s)" if "same_link (transport v) (\<lambda>(w, e). inp e = inp (snd s)) (v', s')"
    for v' s' using that up by (auto simp: transport_def uart_up_def)
  show "uart_up v' \<and> inp (snd s') = inp (snd s)" if "parse_byte (svc_env a os) now b (v, s) = Some (v', s')" for now b v' s'
    by (rule same, rule yieldsD [OF kept_parse_byte [OF uart_kept [OF up]] that]) (simp_all add: s)
  show "uart_up v' \<and> inp (snd s') = inp (snd s)" if "maybeEmitStats (svc_env a os) False (v, s) = Some (v', s')" for v' s'
    by (rule same, rule yieldsD [OF kept_tick [OF uart_kept [OF up]] that]) (simp_all add: s)
qed

section \<open>Shared memory\<close>

locale ring_board =
  fixes a :: "'e api" and os :: "'e env" and fd :: int and pos :: "'e \<Rightarrow> nat" and mem :: "'e \<Rightarrow> nat \<Rightarrow> u8"
  assumes shm: "shared_file os fd pos mem (\<lambda>e. ())"
    and board: "board_safe a 127 (\<lambda>e. J (mem e))"
    and clock: "mem (snd (e_clock os e)) = mem e" and fsync: "mem (e_fsync os f e) = mem e"
    and fd: "0 \<le> fd" and fuel: "0 < e_fuel os"
begin

definition ring_up :: "srv \<Rightarrow> wk \<times> 'e \<Rightarrow> bool" where
  "ring_up v s \<longleftrightarrow> s_fd v = fd \<and> s_is_ipc v \<and> length (s_ipc_rx_buf v) = 4096 \<and> s_ipc_rx_len v \<le> 4096
     \<and> (\<exists>t q. ring (mem (snd s)) 65536 t q)"

definition waiting :: "srv \<Rightarrow> wk \<times> 'e \<Rightarrow> bytes" where
  "waiting v s = drop (s_ipc_rx_pos v) (take (s_ipc_rx_len v) (s_ipc_rx_buf v)) @ ring_bytes (mem (snd s)) 65536"

lemma shm_svc: "shared_file (svc_env a os) fd (\<lambda>s. pos (snd s)) (\<lambda>s. mem (snd s)) (\<lambda>s. fst s)"
  using shm by (simp add: shared_file_def svc_env_def on_os_def on_os0_def case_prod_beta)

lemma ring_write:
  assumes "s_fd v = fd" "s_is_ipc v" "length buf \<le> 1024"
  obtains r s' where "writeAll (svc_env a os) v buf s = Some (r, s')" "\<And>i. 65536 \<le> i \<Longrightarrow> mem (snd s') i = mem (snd s) i"
proof -
  have "length buf \<le> ring_size" using assms(3) by (simp add: ring_size_def)
  then have "mem (snd (snd (ipc_writeAll (svc_env a os) v buf s))) i = mem (snd s) i" if "65536 \<le> i" for i
    using ipc_writeAll_low [of "svc_env a os" v _ _ _ buf i s, OF shm_svc [folded assms(1)]] that
    by (simp add: ring_size_def)
  moreover have "writeAll (svc_env a os) v buf s = Some (fst (ipc_writeAll (svc_env a os) v buf s), snd (ipc_writeAll (svc_env a os) v buf s))"
    using assms fd by (simp add: writeAll_def)
  ultimately show ?thesis using that by blast
qed

lemma ring_kept:
  assumes "ring_up v s"
  shows "kept (svc_env a os) (transport v) (\<lambda>(w, e). \<forall>i \<ge> 65536. mem e i = m i)"
proof (rule kept_svc)
  show "board_safe a 127 (\<lambda>e. \<forall>i \<ge> 65536. mem e i = m i)" by (rule board)
  fix v' w e and buf :: bytes
  assume v': "transport v' = transport v" and m: "\<forall>i \<ge> 65536. mem e i = m i" and len: "length buf \<le> 1024"
  have "s_fd v' = fd" "s_is_ipc v'" using assms v' by (simp_all add: ring_up_def transport_def)
  then obtain r s' where "writeAll (svc_env a os) v' buf (w, e) = Some (r, s')"
      "\<And>i. 65536 \<le> i \<Longrightarrow> mem (snd s') i = mem (snd (w, e)) i"
    using len by (rule ring_write [where s = "(w, e)"]) (rule that)
  then show "yields (\<lambda>(r, w', e'). \<forall>i \<ge> 65536. mem e' i = m i) (writeAll (svc_env a os) v' buf (w, e))"
    using m by (cases s') simp
qed (simp_all add: clock fsync)

lemma ring_live:
  assumes "ring_up v s"
  shows "live_on (transport v) (svc_env a os)"
proof (rule live_svc)
  fix v' s' and buf :: bytes assume v': "transport v' = transport v" and len: "length buf \<le> 1024"
  have "s_fd v' = fd" "s_is_ipc v'" using assms v' by (simp_all add: ring_up_def transport_def)
  then obtain r s'' where "writeAll (svc_env a os) v' buf s' = Some (r, s'')"
    using len by (rule ring_write [where s = s'])
  then show "runs (writeAll (svc_env a os) v' buf s')" by simp
qed

lemma ring_same:
  assumes "ring_up v s" and "transport v' = transport v" and "\<forall>i \<ge> 65536. mem (snd s') i = mem (snd s) i"
  shows "ring_up v' s' \<and> waiting v' s' = waiting v s"
proof -
  obtain t q where q: "ring (mem (snd s)) 65536 t q" using assms(1) by (auto simp: ring_up_def)
  then have "ring (mem (snd s')) 65536 t q" by (rule ring_disjoint) (use assms(3) in simp)
  then show ?thesis
    using assms(1,2) ring_bytes [OF q] ring_bytes [of "mem (snd s')" 65536 t q]
    by (auto simp: ring_up_def waiting_def transport_def)
qed

lemma ring_now: "mem (snd (snd (nowMs (svc_env a os) s))) = mem (snd s)"
  by (cases s) (simp add: nowMs_def svc_env_def on_os_def case_prod_beta clock)

lemma ring_read_buffered:
  assumes "ring_up v s" and "s_ipc_rx_pos v < s_ipc_rx_len v" and "waiting v s = b # bs"
  shows "readByte (svc_env a os) 0 v s = Some ((0, b), v\<lparr>s_ipc_rx_pos := s_ipc_rx_pos v + 1\<rparr>, s)
     \<and> ring_up (v\<lparr>s_ipc_rx_pos := s_ipc_rx_pos v + 1\<rparr>) s
     \<and> waiting (v\<lparr>s_ipc_rx_pos := s_ipc_rx_pos v + 1\<rparr>) s = bs"
proof -
  let ?d = "take (s_ipc_rx_len v) (s_ipc_rx_buf v)"
  have i: "s_ipc_rx_pos v < length ?d" using assms(1,2) by (simp add: ring_up_def)
  have "drop (s_ipc_rx_pos v) ?d = ?d ! s_ipc_rx_pos v # drop (Suc (s_ipc_rx_pos v)) ?d"
    by (rule Cons_nth_drop_Suc [symmetric, OF i])
  then have "b = s_ipc_rx_buf v ! s_ipc_rx_pos v" "bs = drop (Suc (s_ipc_rx_pos v)) ?d @ ring_bytes (mem (snd s)) 65536"
    using assms(2,3) by (auto simp: waiting_def)
  then show ?thesis
    using assms(1,2) fd by (simp add: readByte_def ring_up_def waiting_def)
qed

lemma ring_read_ring:
  assumes "ring_up v s" and "\<not> s_ipc_rx_pos v < s_ipc_rx_len v"
  shows "waiting v s = b # bs \<Longrightarrow> parser_inv v \<Longrightarrow>
      \<exists>v' s'. readByte (svc_env a os) 0 v s = Some ((0, b), v', s') \<and> ring_up v' s' \<and> waiting v' s' = bs \<and> parser_inv v'"
    "waiting v s = [] \<Longrightarrow>
      \<exists>v' s'. readByte (svc_env a os) 0 v s = Some ((-1, 0), v', s') \<and> ring_up v' s' \<and> waiting v' s' = []"
proof -
  obtain t q where q: "ring (mem (snd s)) 65536 t q" using assms(1) by (auto simp: ring_up_def)
  obtain now s1 where n: "nowMs (svc_env a os) s = (now, s1)" by (metis surj_pair)
  have m1: "mem (snd s1) = mem (snd s)" using ring_now [of s] n by simp
  note r1 = q [folded m1]
  have up: "s_fd v = fd" "s_is_ipc v" "length (s_ipc_rx_buf v) = 4096" "s_ipc_rx_len v \<le> 4096"
    using assms(1) by (simp_all add: ring_up_def)
  have w: "waiting v s = q" using assms(2) ring_bytes [OF q] by (simp add: waiting_def)
  obtain k where k: "e_fuel (svc_env a os) = Suc k" using fuel by (cases "e_fuel os") (simp_all add: svc_env_def)
  note shm' = shm_svc [folded up(1)]
  have rd: "readByte (svc_env a os) 0 v s = ipc_read_loop (Suc k) (svc_env a os) 0 (now + 0) v s1"
    using assms(2) up fd n k by (simp add: readByte_def)
  show "\<exists>v' s'. readByte (svc_env a os) 0 v s = Some ((0, b), v', s') \<and> ring_up v' s' \<and> waiting v' s' = bs \<and> parser_inv v'"
    if "waiting v s = b # bs" "parser_inv v"
  proof -
    have qb: "q = b # bs" using w that(1) by simp
    let ?k = "min (length q) 4096"
    let ?v = "v\<lparr>s_ipc_rx_buf := take ?k q @ drop ?k (s_ipc_rx_buf v), s_ipc_rx_pos := 1, s_ipc_rx_len := ?k\<rparr>"
    obtain s' where t: "ipc_take (svc_env a os) v s1 = (Some (hd q), ?v, s')"
        and r': "ring (mem (snd s')) 65536 (t + ?k) (drop ?k q)"
      using ipc_take_ring [OF shm', where t = t and q = q and s = s1] r1 qb up(3) by auto
    have "waiting ?v s' = drop 1 (take ?k q) @ drop ?k q"
      using ring_bytes [OF r'] by (simp add: waiting_def)
    also have "\<dots> = bs" by (simp add: qb min_def drop_Cons' take_Cons')
    finally have "waiting ?v s' = bs" .
    moreover have "ring_up ?v s'" using up r' by (auto simp: ring_up_def)
    moreover have "parser_inv ?v" using that(2) by (simp add: parser_inv_def)
    ultimately show ?thesis using rd t qb by auto
  qed
  show "\<exists>v' s'. readByte (svc_env a os) 0 v s = Some ((-1, 0), v', s') \<and> ring_up v' s' \<and> waiting v' s' = []"
    if "waiting v s = []"
  proof -
    have "ring (mem (snd s1)) 65536 t []" using r1 w that by simp
    from ipc_take_empty [OF shm' this]
    obtain s' where t: "ipc_take (svc_env a os) v s1 = (None, v, s')" and m': "mem (snd s') = mem (snd s1)" by auto
    have "ring_up v s' \<and> waiting v s' = waiting v s" by (rule ring_same [OF assms(1)]) (simp_all add: m' m1)
    then show ?thesis using rd t that by auto
  qed
qed

end

sublocale ring_board \<subseteq> ring_in: byte_source "svc_env a os" waiting ring_up
proof
  fix v and s :: "wk \<times> 'e"
  assume up: "ring_up v s"
  show "\<exists>v' s'. readByte (svc_env a os) 0 v s = Some ((0, b), v', s') \<and> ring_up v' s' \<and> waiting v' s' = bs \<and> parser_inv v'"
    if "waiting v s = b # bs" "parser_inv v" for b bs
  proof (cases "s_ipc_rx_pos v < s_ipc_rx_len v")
    case True
    have "parser_inv (v\<lparr>s_ipc_rx_pos := s_ipc_rx_pos v + 1\<rparr>)" using that(2) by (simp add: parser_inv_def)
    then show ?thesis using ring_read_buffered [OF up True that(1)] by blast
  next
    case False
    then show ?thesis using ring_read_ring(1) [OF up False that] by blast
  qed
  show "\<exists>v' s'. readByte (svc_env a os) 0 v s = Some ((-1, 0), v', s') \<and> ring_up v' s' \<and> waiting v' s' = []"
    if "waiting v s = []"
  proof -
    have "\<not> s_ipc_rx_pos v < s_ipc_rx_len v" using that up by (auto simp: waiting_def ring_up_def)
    then show ?thesis using ring_read_ring(2) [OF up _ that] by blast
  qed
  show "ring_up v (snd (nowMs (svc_env a os) s)) \<and> waiting v (snd (nowMs (svc_env a os) s)) = waiting v s"
    by (rule ring_same [OF up]) (simp_all add: ring_now)
  show "live_on (transport v) (svc_env a os)" by (rule ring_live [OF up])
  have same: "ring_up v' s' \<and> waiting v' s' = waiting v s"
    if "same_link (transport v) (\<lambda>(w, e). \<forall>i \<ge> 65536. mem e i = mem (snd s) i) (v', s')" for v' s'
    by (rule ring_same [OF up]) (use that in \<open>auto simp: case_prod_beta\<close>)
  show "ring_up v' s' \<and> waiting v' s' = waiting v s" if "parse_byte (svc_env a os) now b (v, s) = Some (v', s')" for now b v' s'
    by (rule same, rule yieldsD [OF kept_parse_byte [OF ring_kept [OF up]] that]) (simp_all add: case_prod_beta)
  show "ring_up v' s' \<and> waiting v' s' = waiting v s" if "maybeEmitStats (svc_env a os) False (v, s) = Some (v', s')" for v' s'
    by (rule same, rule yieldsD [OF kept_tick [OF ring_kept [OF up]] that]) (simp_all add: case_prod_beta)
qed

section \<open>Polling on both links\<close>

context uart_board
begin

lemmas uart_takes_all = uart_in.poll_takes_all

end

context ring_board
begin

lemmas ring_takes_all = ring_in.poll_takes_all

end



end
