(* ===== verification/BenchLinks.thy ===== *)
theory BenchLinks
  imports BenchWorker Links
begin

text \<open>
  The link contracts hold on the simulated board of theory Bench, for its UART and for a shared-memory
  file on it; concrete inputs of the properties on the links.
\<close>

section \<open>UART\<close>

lemma bench_quiet: "board_safe bench_api B (\<lambda>b. b_in b = q)" "board_safe bench_api B (\<lambda>b. J (b_mem b))"
  by (simp_all add: board_safe_def bench_api_def flrc_profile_def split: list.split)

lemma bench_good_uart_in: "good_uart bench_os b_out b_in"
  by (auto simp: good_uart_def bench_os_def Let_def min_def Suc_le_eq)

interpretation bench_uart_board: uart_board bench_api bench_os b_in b_out
proof
  show "good_uart bench_os b_out b_in" by (rule bench_good_uart_in)
  show "\<exists>ag e'. e_read bench_os fd 1 e = ((1, [b], ag), e') \<and> b_in e' = bs" if "b_in e = b # bs" for e b bs fd
    using that by (auto simp: bench_os_def)
  show "\<exists>n d ag e'. e_read bench_os fd 1 e = ((n, d, ag), e') \<and> n \<le> 0 \<and> b_in e' = []" if "b_in e = []" for e fd
    using that by (auto simp: bench_os_def)
qed (simp_all add: bench_quiet, simp_all add: bench_os_def bench_api_def)


section \<open>Shared memory\<close>

definition bench_shm :: "bench env" where
  "bench_shm = bench_os\<lparr>e_lseek := \<lambda>fd n b. b\<lparr>b_pos := n\<rparr>,
     e_read := \<lambda>fd n b. ((int n, map (b_mem b) [b_pos b ..< b_pos b + n], False), b\<lparr>b_pos := b_pos b + n\<rparr>),
     e_write := \<lambda>fd buf b. (int (length buf), b\<lparr>b_pos := b_pos b + length buf, b_mem := put (b_mem b) (b_pos b) buf\<rparr>)\<rparr>"

lemma bench_file: "shared_file bench_shm fd b_pos b_mem (\<lambda>b. ())"
  by (simp add: shared_file_def bench_shm_def)

interpretation bench_ring: ring_board bench_api bench_shm 3 b_pos b_mem
  by unfold_locales (simp_all add: bench_file bench_quiet, simp_all add: bench_shm_def bench_os_def bench_api_def)

definition bench_ipc :: srv where
  "bench_ipc = (SerialServer ''ipc://'' 0)\<lparr>s_fd := 3\<rparr>"

lemma bench_ipc:
  "s_fd bench_ipc = 3" "s_is_ipc bench_ipc" "\<not> s_is_tcp bench_ipc" "length (s_ipc_rx_buf bench_ipc) = 4096"
  "s_ipc_rx_len bench_ipc \<le> 4096" "parser_inv bench_ipc" "s_ipc_rx_pos bench_ipc = 0" "s_ipc_rx_len bench_ipc = 0"
  by (simp_all add: bench_ipc_def SerialServer_def srv0_def starts_with_def parser_inv_def)

text \<open>The host has written an S command.\<close>

definition bench_cmd :: bench where
  "bench_cmd = bench0\<lparr>b_mem := put (put (\<lambda>i. 0) 65536 (le32 1)) 65552 [0x53]\<rparr>"

lemma bench_cmd_ring: "ring (b_mem bench_cmd) 65536 0 [0x53]"
  by (simp add: bench_cmd_def ring_def ring_size_def) (simp add: word_at_def put_def rd32_def le32_def un32_def)


lemma ipc_write_refines_queue_witness:
  "\<exists>b'. ipc_writeAll bench_shm bench_ipc [1, 2, 3] bench0 = (True, b') \<and> ring_bytes (b_mem b') 0 = [1, 2, 3]"
proof -
  have r: "ring (b_mem bench0) 0 0 []" by (simp add: ring_def bench0_def word_at_def rd32_def un32_def)
  have "\<exists>b'. ipc_writeAll bench_shm bench_ipc [1, 2, 3] bench0 = (True, b')
      \<and> ring (b_mem b') 0 0 [1, 2, 3]"
    using ipc_write_refines_queue [OF bench_file r, of "[1, 2, 3]" bench_ipc] by (simp add: ring_size_def) blast
  then show ?thesis using ring_bytes by blast
qed

lemma ring_breaks_at_wrap_witness:
  "\<exists>b1 b2. ipc_writeAll bench_shm bench_ipc [1, 2, 3, 4] (bench0\<lparr>b_mem := put (\<lambda>i. 0) 0 (le32 (- 4) @ le32 (- 4))\<rparr>) = (True, b1)
     \<and> ipc_writeAll bench_shm bench_ipc [5, 6, 7, 8] b1 = (True, b2)
     \<and> ring_bytes (b_mem b2) 0 = [1, 2, 3, 4, 0, 0, 0, 0]"
proof -
  let ?b = "bench0\<lparr>b_mem := put (\<lambda>i. 0) 0 (le32 (- 4) @ le32 (- 4))\<rparr>"
  have w: "word_at (b_mem ?b) 0 = - 4" "word_at (b_mem ?b) 4 = - 4"
    by (simp_all add: word_at_def put_def le32_def rd32_def)
  have z: "map (b_mem ?b) [272 ..< 276] = [0, 0, 0, 0]" by (simp add: upt_rec)
  show ?thesis
    using ring_breaks_at_wrap [OF bench_file w, of "[1, 2, 3, 4]" "[5, 6, 7, 8]" bench_ipc] unfolding z by auto
qed

end
