(* ===== verification/Superloop.thy ===== *)
theory Superloop
  imports Links
begin

text \<open>
  The whole service: start-up and any number of rounds of the loop in main.cpp, over any link and any
  board.  Seen from the worker, everything the rest of the service does is a sequence of its
  operations (\<open>wstep\<close>); seen from the parser, it is a sequence of bytes; so the invariants of both
  hold for the composition.
\<close>

section \<open>The operating system does not touch the worker\<close>

text \<open>An observation that no operating-system call changes.\<close>

definition os_silent :: "'s env \<Rightarrow> ('s \<Rightarrow> 'b) \<Rightarrow> bool" where
  "os_silent env g \<longleftrightarrow>
     (\<forall>s. g (snd (e_clock env s)) = g s) \<and> (\<forall>n s. g (e_nanosleep env n s) = g s)
   \<and> (\<forall>fd n s. g (e_lseek env fd n s) = g s) \<and> (\<forall>fd s. g (snd (e_seek_end env fd s)) = g s)
   \<and> (\<forall>fd n s. g (snd (e_read env fd n s)) = g s) \<and> (\<forall>fd b s. g (snd (e_write env fd b s)) = g s)
   \<and> (\<forall>fd b s. g (snd (e_send env fd b s)) = g s) \<and> (\<forall>p s. g (snd (e_open env p s)) = g s)
   \<and> (\<forall>s. g (snd (e_socket env s)) = g s) \<and> (\<forall>fd p s. g (snd (e_bind_listen env fd p s)) = g s)
   \<and> (\<forall>fd s. g (snd (e_accept env fd s)) = g s) \<and> (\<forall>fd s. g (e_setup_client env fd s) = g s)
   \<and> (\<forall>fd n s. g (e_setup_uart env fd n s) = g s) \<and> (\<forall>fd s. g (e_close env fd s) = g s)
   \<and> (\<forall>fd s. g (e_fsync env fd s) = g s)"

lemma os_silent_simps:
  assumes "os_silent env g"
  shows "g (snd (e_clock env s)) = g s" "g (e_nanosleep env n s) = g s" "g (e_lseek env fd n s) = g s"
    "g (snd (e_seek_end env fd s)) = g s" "g (snd (e_read env fd n s)) = g s" "g (snd (e_write env fd b s)) = g s"
    "g (snd (e_send env fd b s)) = g s" "g (snd (e_open env p s)) = g s" "g (snd (e_socket env s)) = g s"
    "g (snd (e_bind_listen env fd pt s)) = g s" "g (snd (e_accept env fd s)) = g s" "g (e_setup_client env fd s) = g s"
    "g (e_setup_uart env fd bd s) = g s" "g (e_close env fd s) = g s" "g (e_fsync env fd s) = g s"
    "g (snd (nowMs env s)) = g s"
  using assms by (simp_all add: os_silent_def nowMs_def case_prod_beta)

lemma os_silent_svc: "os_silent (svc_env a os) fst"
  by (simp add: os_silent_def svc_env_def on_os_def on_os0_def case_prod_beta)

subsection \<open>Writing\<close>

abbreviation unchanged :: "('s \<Rightarrow> 'b) \<Rightarrow> 's \<Rightarrow> ('r \<times> 's) option \<Rightarrow> bool" where
  "unchanged g s m \<equiv> yields (\<lambda>x. g (snd x) = g s) m"

lemma silent_write_loop:
  assumes "os_silent env g"
  shows "unchanged g s (write_loop k env v buf s)"
proof (induction k arbitrary: buf s)
  case (Suc k)
  have ih: "unchanged g s (write_loop k env v b t)" if "g t = g s" for b t
    using Suc.IH [of t b] that by simp
  show ?case
    by (auto simp: case_prod_beta Let_def os_silent_simps [OF assms] intro!: ih)
qed simp

lemma silent_ipc_write: "os_silent env g \<Longrightarrow> g (snd (ipc_writeAll env v buf s)) = g s"
  by (simp add: ipc_writeAll_def Let_def case_prod_beta os_silent_simps if_distrib [of g] cong: if_cong)

lemma silent_writeAll: "os_silent env g \<Longrightarrow> unchanged g s (writeAll env v buf s)"
  using silent_write_loop [of env g s] silent_ipc_write [of env g v buf s]
  by (simp add: writeAll_def case_prod_beta)

abbreviation same :: "('s \<Rightarrow> 'b) \<Rightarrow> 's \<Rightarrow> 's option \<Rightarrow> bool" where
  "same g s m \<equiv> yields (\<lambda>s'. g s' = g s) m"

lemma silent_write:
  assumes "os_silent env g" and "g t = g s" and "\<And>r u. g u = g s \<Longrightarrow> same g s (f r u)"
  shows "same g s (do { (r, u) \<leftarrow> writeAll env v buf t; f r u })"
  by (rule yields_bind [OF silent_writeAll [OF assms(1)]]) (use assms(2,3) in auto)

lemma silent_frames:
  assumes "os_silent env g" and "g t = g s"
  shows "same g s (writeFrame env v tag buf t)" "same g s (writeReady env v m t)"
    "same g s (writeError env v c msg t)" "same g s (writeRx env v pkt r t)"
  unfolding writeFrame_def writeReady_def writeError_def writeRx_def Let_def
  using assms(2) by (auto intro!: silent_write [OF assms(1)])

lemma silent_diag: "os_silent env g \<Longrightarrow> g t = g s \<Longrightarrow> same g s (writeDiag env v i x t)"
  unfolding writeDiag_def by (rule silent_frames)

lemma silent_callback:
  assumes "os_silent env g" and "g t = g s"
  shows "same g s (on_callback env v c t)"
proof (cases c)
  case (OnScan f n k r)
  show ?thesis unfolding OnScan on_callback.simps onWorkerScan_def
    by (intro yields_bind [where Q = "\<lambda>s'. g s' = g s"] silent_diag [OF assms(1)]) (use assms(2) in simp_all)
qed (use assms(2) in \<open>auto simp: onWorkerRx_def onWorkerTerminal_def Let_def intro!: silent_frames [OF assms(1)]\<close>)

lemma silent_deliver:
  assumes "os_silent env g"
  shows "g t = g s \<Longrightarrow> same g s (deliver env v cs t)"
proof (induction cs arbitrary: t)
  case (Cons c cs)
  show ?case
    unfolding deliver.simps
    by (rule yields_bind [OF silent_callback [OF assms Cons.prems]]) (rule Cons.IH)
qed simp

subsection \<open>Reading\<close>

lemma silent_ipc_take:
  assumes "os_silent env g"
  shows "g (snd (snd (ipc_take env v s))) = g s"
proof -
  note k = os_silent_simps [OF assms]
  obtain n d ag s1 where 1: "e_read env (s_fd v) 8 (e_lseek env (s_fd v) kIpcV2RBase s) = ((n, d, ag), s1)"
    by (metis surj_pair)
  have s1: "g s1 = g s" using k(5) [of "s_fd v" 8 "e_lseek env (s_fd v) kIpcV2RBase s"] 1 by (simp add: k)
  define tk where "tk = (if rd32 d 0 - rd32 d 4 < 4096 then rd32 d 0 - rd32 d 4 else 4096)"
  define off where "off = rd32 d 4 mod kIpcRingCap"
  define first where "first = (if off + tk \<le> kIpcRingCap then tk else kIpcRingCap - off)"
  obtain n2 d2 ag2 s2 where 2: "e_read env (s_fd v) (unat first) (e_lseek env (s_fd v) (kIpcV2RBase + 16 + unat off) s1) = ((n2, d2, ag2), s2)"
    by (metis surj_pair)
  have s2: "g s2 = g s"
    using k(5) [of "s_fd v" "unat first" "e_lseek env (s_fd v) (kIpcV2RBase + 16 + unat off) s1"] 2 s1 by (simp add: k)
  obtain n3 d3 ag3 s3 where 3: "(if tk > first then e_read env (s_fd v) (unat (tk - first))
      (e_lseek env (s_fd v) (kIpcV2RBase + 16) s2) else ((0, [], False), s2)) = ((n3, d3, ag3), s3)"
    by (metis surj_pair)
  have s3: "g s3 = g s"
    using arg_cong [OF 3, of "\<lambda>x. g (snd x)"] s2 by (simp add: k split: if_splits)
  show ?thesis
    unfolding ipc_take_def Let_def 1 prod.case
    unfolding tk_def [symmetric] off_def [symmetric] first_def [symmetric] 2 prod.case 3
    using s1 s3 by (simp add: k)
qed

lemma parser_inv_ipc [simp]:
  "parser_inv (v\<lparr>s_ipc_rx_buf := d, s_ipc_rx_pos := p, s_ipc_rx_len := n\<rparr>) = parser_inv v"
  "parser_inv (v\<lparr>s_ipc_rx_pos := p\<rparr>) = parser_inv v" "parser_inv (v\<lparr>s_fd := fd\<rparr>) = parser_inv v"
  by (simp_all add: parser_inv_def)

lemma ipc_take_inv: "parser_inv (fst (snd (ipc_take env v s))) = parser_inv v"
  unfolding ipc_take_def by (simp only: Let_def case_prod_beta if_distrib [of snd] if_distrib [of fst]
      if_distrib [of parser_inv] fst_conv snd_conv parser_inv_ipc if_cancel)

abbreviation reads :: "('s \<Rightarrow> 'b) \<Rightarrow> srv \<Rightarrow> 's \<Rightarrow> ((int \<times> u8) \<times> srv \<times> 's) option \<Rightarrow> bool" where
  "reads g v s m \<equiv> yields (\<lambda>x. g (snd (snd x)) = g s \<and> parser_inv (fst (snd x)) = parser_inv v) m"

lemma silent_ipc_loop:
  assumes "os_silent env g"
  shows "reads g v s (ipc_read_loop k env tmo dl v s)"
proof (induction k arbitrary: v s)
  case (Suc k)
  obtain r v1 s1 where 1: "ipc_take env v s = (r, v1, s1)" by (metis surj_pair)
  obtain now s2 where 2: "nowMs env s1 = (now, s2)" by (metis surj_pair)
  have v1: "g s1 = g s" "parser_inv v1 = parser_inv v"
    using silent_ipc_take [OF assms, of v s] ipc_take_inv [of env v s] 1 by simp_all
  have s2: "g s2 = g s" using os_silent_simps(16) [OF assms, of s1] 2 v1 by simp
  have "reads g v s (ipc_read_loop k env tmo dl v1 (e_nanosleep env 500000 s2))"
    using Suc.IH [where v = v1 and s = "e_nanosleep env 500000 s2"] v1 s2 by (simp add: os_silent_simps [OF assms])
  then show ?case
    using v1 s2 by (simp add: 1 2 split: option.split)
qed simp

lemma silent_fd_loop:
  assumes "os_silent env g"
  shows "reads g v s (fd_read_loop k env tmo dl v s)"
proof (induction k arbitrary: s)
  case (Suc k)
  note q = os_silent_simps [OF assms]
  obtain n d ag s1 where 1: "e_read env (s_fd v) 1 s = ((n, d, ag), s1)" by (metis surj_pair)
  obtain now s2 where 2: "nowMs env s1 = (now, s2)" by (metis surj_pair)
  have s1: "g s1 = g s" using q(5) [of "s_fd v" 1 s] 1 by simp
  moreover have s2: "g s2 = g s" using q(16) [of s1] 2 s1 by simp
  moreover have "reads g v s (fd_read_loop k env tmo dl v (e_nanosleep env 200000 s2))"
    using Suc.IH [of "e_nanosleep env 200000 s2"] s2 by (simp add: q)
  ultimately show ?case unfolding fd_read_loop.simps 1 prod.case Let_def 2 by simp
qed simp

lemma silent_readByte:
  assumes "os_silent env g"
  shows "reads g v s (readByte env tmo v s)"
proof -
  obtain now s1 where n: "nowMs env s = (now, s1)" by (metis surj_pair)
  have s1: "g s1 = g s" using os_silent_simps(16) [OF assms, of s] n by simp
  show ?thesis
    using silent_ipc_loop [OF assms, where v = v and s = s1] silent_fd_loop [OF assms, where v = v and s = s1] s1
    by (simp add: readByte_def n)
qed

section \<open>The service as a user of the worker\<close>

text \<open>\<open>reached a w\<close>: the worker has got to \<open>w\<close> by operations of its interface.\<close>

definition reached :: "'e api \<Rightarrow> wk \<Rightarrow> bool" where
  "reached a w \<longleftrightarrow> (\<exists>fs e. wreach a (fs, w, e))"

lemma reached_at: "reached a w \<Longrightarrow> \<exists>fs. wreach a (fs, w, e)"
  unfolding reached_def by (blast intro: wreach.step wstep.outside)

lemma reached_ops:
  assumes "reached a w"
  shows "reached a (fst (snd (applyConfig a c (w, e))))" "reached a (fst (startScan a p (w, e)))"
    "reached a (snd (enqueueTx pl w))" "reached a (snd (snapshot t w))"
    "worker_pollOnce a (w, e) = Some (w', e') \<Longrightarrow> reached a w'"
proof -
  obtain fs where r: "wreach a (fs, w, e)" using reached_at [OF assms] by blast
  obtain err w1 e1 where c: "applyConfig a c (w, e) = (err, w1, e1)" by (metis surj_pair)
  show "reached a (fst (snd (applyConfig a c (w, e))))"
    using wreach.step [OF r wstep.config [OF c]] c by (auto simp: reached_def)
  obtain w2 e2 where s: "startScan a p (w, e) = (w2, e2)" by fastforce
  show "reached a (fst (startScan a p (w, e)))"
    using wreach.step [OF r wstep.scan [OF s]] s by (auto simp: reached_def)
  obtain tm w3 where q: "enqueueTx pl w = (tm, w3)" by fastforce
  show "reached a (snd (enqueueTx pl w))"
    using wreach.step [OF r wstep.accept] wreach.step [OF r wstep.refuse [OF q]] q
    by (cases "tm = kOk") (auto simp: reached_def)
  obtain cs w4 where n: "snapshot t w = (cs, w4)" by fastforce
  show "reached a (snd (snapshot t w))"
    using wreach.step [OF r wstep.counters [OF n]] n by (auto simp: reached_def)
  show "reached a w'" if "worker_pollOnce a (w, e) = Some (w', e')"
    using wreach.step [OF r wstep.poll [OF that]] by (auto simp: reached_def)
qed

lemma reached_kept: "kept (svc_env a os) T (\<lambda>s. reached a (fst s))"
proof -
  have w: "yields (\<lambda>(r, s'). reached a (fst s')) (writeAll (svc_env a os) v buf s)" if "reached a (fst s)" for v buf s
    by (rule yields_mono [OF silent_writeAll [OF os_silent_svc]]) (use that in auto)
  show ?thesis
    unfolding kept_def using w reached_ops
    by (auto simp: svc_env_def on_os_def on_os0_def case_prod_beta)
qed

abbreviation well :: "'e api \<Rightarrow> srv \<times> wk \<times> 'e \<Rightarrow> bool" where
  "well a x \<equiv> parser_inv (fst x) \<and> reached a (fst (snd x))"

lemma well_parse_byte:
  assumes "well a (v, s)"
  shows "yields (well a) (parse_byte (svc_env a os) now b (v, s))"
  unfolding yields_def
proof (intro allI impI)
  fix x assume p: "parse_byte (svc_env a os) now b (v, s) = Some x"
  obtain v' s' where x: "x = (v', s')" by (metis surj_pair)
  have "reached a (fst s')"
    using yieldsD [OF kept_parse_byte [OF reached_kept] p] assms x by simp
  moreover have "parser_inv v'" using parse_byte_inv [OF p [unfolded x]] assms by simp
  ultimately show "well a x" by (simp add: x)
qed

lemma well_tick:
  assumes "well a (v, s)"
  shows "yields (well a) (maybeEmitStats (svc_env a os) f (v, s))"
  unfolding yields_def
proof (intro allI impI)
  fix x assume p: "maybeEmitStats (svc_env a os) f (v, s) = Some x"
  obtain v' s' where x: "x = (v', s')" by (metis surj_pair)
  have "reached a (fst s')"
    using yieldsD [OF kept_tick [OF reached_kept] p] assms x by simp
  moreover have "parser_inv v'" using maybeEmitStats_inv [OF p [unfolded x]] assms by simp
  ultimately show "well a x" by (simp add: x)
qed

lemma well_poll_loop: "well a (v, s) \<Longrightarrow> yields (well a) (poll_loop k (svc_env a os) (v, s))"
proof (induction k arbitrary: v s)
  case (Suc k)
  note rb = silent_readByte [OF os_silent_svc [of a os], where v = v and s = s and tmo = 0]
  show ?case
    unfolding poll_loop.simps
  proof (rule yields_bind [OF rb])
    fix x :: "(int \<times> u8) \<times> srv \<times> wk \<times> 'a"
    assume x: "fst (snd (snd x)) = fst s \<and> parser_inv (fst (snd x)) = parser_inv v"
    obtain rc b v1 s1 where xe: "x = ((rc, b), v1, s1)" by (metis surj_pair)
    obtain now s2 where n: "nowMs (svc_env a os) s1 = (now, s2)" by (metis surj_pair)
    have w1: "well a (v1, s1)" using x xe Suc.prems by simp
    then have w2: "well a (v1, s2)"
      using os_silent_simps(16) [OF os_silent_svc, of a os s1] n by simp
    have c: "reached a (fst (e_close (svc_env a os) fd s1))" for fd
      using w1 os_silent_simps(14) [OF os_silent_svc, of a os fd s1] by simp
    have rest: "yields (well a) (do { x \<leftarrow> parse_byte (svc_env a os) now b (v1, s2); poll_loop k (svc_env a os) x })"
    proof (rule yields_bind [OF well_parse_byte [OF w2]])
      fix y assume "well a y"
      then show "yields (well a) (poll_loop k (svc_env a os) y)" using Suc.IH by (cases y) simp
    qed
    show "yields (well a) (case x of (x, xa) \<Rightarrow> (case x of (rc, b) \<Rightarrow> \<lambda>(v, s).
        if rc = - 2 then Some (if 0 \<le> s_fd v then (v\<lparr>s_fd := - 1\<rparr>, e_close (svc_env a os) (s_fd v) s) else (v, s))
        else if rc \<noteq> 0 then maybeEmitStats (svc_env a os) False (v, s)
        else let (now, s) = nowMs (svc_env a os) s in
          parse_byte (svc_env a os) now b (v, s) \<bind> poll_loop k (svc_env a os)) xa)"
      using w1 c rest well_tick [OF w1] by (simp add: xe n)
  qed
qed simp

lemma well_announce:
  fixes s :: "wk \<times> 'e"
  assumes "well a (v, s)"
  shows "yields (well a) (announce (svc_env a os) (v, s))"
  unfolding announce_def prod.case
proof (rule yields_bind [OF silent_frames(2) [OF os_silent_svc refl]])
  fix t :: "wk \<times> 'e" assume t: "fst t = fst s"
  obtain now t2 where n: "nowMs (svc_env a os) t = (now, t2)" by (metis surj_pair)
  have t2: "reached a (fst t2)" using os_silent_simps(16) [OF os_silent_svc [of a os], of t] n t assms by simp
  show "yields (well a) (let (now, s) = nowMs (svc_env a os) t; v = v\<lparr>s_ready_sent := True, s_last_stats_ms := now\<rparr>
      in writeStats (svc_env a os) v s \<bind> (\<lambda>s. Some (v, s)))"
    unfolding n Let_def prod.case
    by (rule yields_bind [OF kept_frames(5) [OF reached_kept t2 refl]]) (use assms in \<open>simp add: parser_inv_def\<close>)
qed

lemma well_pollOnce:
  assumes "well a (v, s)"
  shows "yields (well a) (pollOnce (svc_env a os) (v, s))"
proof (cases "s_is_tcp v \<and> s_fd v < 0")
  case True
  obtain cfd s1 where acc: "e_accept (svc_env a os) (s_listen_fd v) s = (cfd, s1)" by (metis surj_pair)
  have s1: "reached a (fst s1)" "reached a (fst (e_setup_client (svc_env a os) cfd s1))"
    using os_silent_simps(11) [OF os_silent_svc [of a os], of "s_listen_fd v" s]
      os_silent_simps(12) [OF os_silent_svc [of a os], of cfd s1] acc assms by simp_all
  let ?v = "v\<lparr>s_fd := cfd, s_state := kTag, s_skip_remain := 0, s_have := 0\<rparr>"
  have "sized ?v" using parser_inv_sized [of v] assms by (simp add: sized_def)
  then have "parser_inv ?v" by (rule parser_inv_calm) simp
  then have "yields (well a) (announce (svc_env a os) (?v, e_setup_client (svc_env a os) cfd s1))"
    using s1(2) by (intro well_announce) simp
  then have "yields (well a) (announce (svc_env a os) (?v, e_setup_client (svc_env a os) cfd s1) \<bind>
      poll_loop (e_fuel (svc_env a os)) (svc_env a os))"
  proof (rule yields_bind)
    fix x assume "well a x"
    then show "yields (well a) (poll_loop (e_fuel (svc_env a os)) (svc_env a os) x)"
      by (cases x) (simp add: well_poll_loop)
  qed
  then show ?thesis using True assms s1(1) by (simp add: pollOnce_def acc Let_def)
next
  case False
  show ?thesis
    unfolding pollOnce_def prod.case if_not_P [OF False] by (rule well_poll_loop [OF assms])
qed

lemma reached_worker_round:
  fixes s :: "wk \<times> 'e"
  assumes "reached a (fst s)"
  shows "yields (\<lambda>s'. reached a (fst s')) (worker_round a os v s)"
proof -
  obtain w e where s: "s = (w, e)" by fastforce
  show ?thesis
    unfolding worker_round_def s prod.case
  proof (rule yields_bind [where Q = "\<lambda>x. reached a (fst x)"])
    show "yields (\<lambda>x. reached a (fst x)) (worker_pollOnce a (w, e))"
      using reached_ops(5) [of a w e] assms s by (auto simp: yields_def)
    fix x :: "wk \<times> 'e" assume "reached a (fst x)"
    then show "yields (\<lambda>s'. reached a (fst s')) (case x of (w', e) \<Rightarrow>
        deliver (svc_env a os) v (drop (length (k_events w)) (k_events w')) (w', e))"
      using silent_deliver [OF os_silent_svc [of a os], of x x v]
      by (cases x) (auto intro: yields_mono)
  qed
qed

lemma well_round:
  assumes "well a x"
  shows "yields (well a) (superloop_round a os x)"
proof -
  obtain v s where x: "x = (v, s)" by (metis surj_pair)
  show ?thesis
    unfolding superloop_round_def x
  proof (rule yields_bind [OF well_pollOnce])
    show "well a (v, s)" using assms x by simp
    fix y assume y: "well a y"
    obtain v1 s1 where ye: "y = (v1, s1)" by (metis surj_pair)
    show "yields (well a) (case y of (v, s) \<Rightarrow> worker_round a os v s \<bind> (\<lambda>s. Some (v, round_pause a s)))"
      unfolding ye prod.case
      by (rule yields_bind [OF reached_worker_round]) (use y ye in \<open>simp_all add: round_pause_def case_prod_beta\<close>)
  qed
qed

section \<open>Start-up\<close>

lemma silent_retry:
  assumes "os_silent env g"
  shows "(\<And>s. g (snd (try s)) = g s) \<Longrightarrow> g t = g s \<Longrightarrow> unchanged g s (retry_open k env try t)"
    and "g t = g s \<Longrightarrow> same g s (retry_bind k env fd port t)"
    and "g (zero_pages k env fd t) = g t" and "g (wait_radio k env t) = g t"
proof -
  note q = os_silent_simps [OF assms]
  show "unchanged g s (retry_open k env try t)" if "\<And>s. g (snd (try s)) = g s" "g t = g s"
    using that(2) by (induction k arbitrary: t) (auto simp: q that(1) case_prod_beta Let_def)
  show "same g s (retry_bind k env fd port t)" if "g t = g s"
    using that by (induction k arbitrary: t) (auto simp: q case_prod_beta Let_def)
  show "g (zero_pages k env fd t) = g t" by (induction k arbitrary: t) (simp_all add: q)
  show "g (wait_radio k env t) = g t" by (induction k arbitrary: t) (simp_all add: q)
qed

lemma silent_open_link:
  assumes "os_silent env g"
  shows "yields (\<lambda>x. g (snd x) = g s \<and> parser_inv (fst x) = parser_inv v) (open_link env (v, s))"
proof -
  note q = os_silent_simps [OF assms]
  have l [simp]: "parser_inv (v\<lparr>s_listen_fd := fd\<rparr>) = parser_inv v" for fd by (simp add: parser_inv_def)
  have o: "unchanged g s (retry_open k env (e_open env p) s)" "unchanged g s (retry_open k env (e_socket env) s)" for k p
    by (rule silent_retry(1) [OF assms]; simp add: q)+
  show ?thesis
    unfolding open_link_def prod.case
    by (auto simp: q silent_retry [OF assms] case_prod_beta Let_def
        intro!: yields_bind [OF o(1)] yields_bind [OF o(2)] yields_bind [OF silent_retry(2) [OF assms]])
qed

lemma well_init:
  fixes s :: "wk \<times> 'e"
  assumes "well a (v, s)"
  shows "yields (well a) (init (svc_env a os) (v, s))"
  unfolding init_def
proof (rule yields_bind [OF silent_open_link [OF os_silent_svc]])
  fix x :: "srv \<times> wk \<times> 'e" assume x: "fst (snd x) = fst s \<and> parser_inv (fst x) = parser_inv v"
  obtain v1 s1 where xe: "x = (v1, s1)" by (metis surj_pair)
  have w1: "well a (v1, wait_radio 150 (svc_env a os) s1)"
    using x xe assms silent_retry(4) [OF os_silent_svc [of a os], of 150 s1] by simp
  show "yields (well a) (case x of (v, s) \<Rightarrow> let s = wait_radio 150 (svc_env a os) s
      in if \<not> s_is_tcp v then announce (svc_env a os) (v, s) else Some (v, s))"
    using w1 well_announce [OF w1, of os] by (simp add: xe Let_def)
qed

section \<open>Any number of rounds\<close>

fun rounds :: "nat \<Rightarrow> 'e api \<Rightarrow> 'e env \<Rightarrow> srv \<times> wk \<times> 'e \<Rightarrow> (srv \<times> wk \<times> 'e) option" where
  "rounds 0 a os x = Some x"
| "rounds (Suc n) a os x = do { x \<leftarrow> superloop_round a os x; rounds n a os x }"

lemma well_rounds: "well a x \<Longrightarrow> yields (well a) (rounds n a os x)"
proof (induction n arbitrary: x)
  case (Suc n)
  show ?case unfolding rounds.simps by (rule yields_bind [OF well_round [OF Suc.prems]]) (rule Suc.IH)
qed simp


end
