(* ===== verification/BenchService.thy ===== *)
theory BenchService
  imports BenchLinks Superloop
begin

text \<open>
  The whole service on the simulated board of theory Bench: it starts on the board's UART, and the
  properties of the superloop are seen at work there.
\<close>

lemma bench_boots:
  "\<exists>w e. worker_init bench_api 44 (wk0, bench0) = (True, w, e)"
  by (auto simp: worker_init_def bench_api_def Let_def)

lemma bench_starts:
  "\<exists>v w e. service_start bench_api bench_os ''/dev/ttyS1'' 115200 bench0 = Some (Inr (v, w, e))"
proof -
  obtain w1 e1 where boot: "worker_init bench_api 44 (wk0, bench0) = (True, w1, e1)"
    using bench_boots by blast
  let ?v = "SerialServer ''/dev/ttyS1'' 115200"
  have v: "\<not> s_is_tcp ?v" "\<not> s_is_ipc ?v" by (simp_all add: SerialServer_def srv0_def starts_with_def)
  let ?env = "svc_env bench_api bench_os"
  have fuel: "e_fuel ?env = Suc 1023" by (simp add: svc_env_def bench_os_def)
  have op: "retry_open (Suc k) ?env (e_open ?env p) (w1, e1) = Some (3, w1, e1)" for k p
    by (simp add: svc_env_def bench_os_def on_os_def)
  have o: "runs (open_link ?env (?v, w1, e1))"
    using v by (simp only: open_link_def fuel op prod.case if_False bind.bind_lunit runs_Some)
  have l: "live_on T ?env" for T using bench_live unfolding live_def by blast
  have a: "runs (announce ?env (v, s))" for v s
    by (auto simp: announce_def Let_def case_prod_beta intro!: runs_bind live_frames(2) live_handlers(1) l)
  have "runs (init (svc_env bench_api bench_os) (?v, w1, e1))"
    by (auto simp: init_def Let_def intro!: runs_bind a o split: prod.split)
  then show ?thesis
    using boot by (auto simp: service_start_def runs_def split: bind_splits)
qed


end
