(* ===== verification/Spec2Isabelle.thy ===== *)
theory Spec2Isabelle
  imports BenchService
begin

text \<open>
  K230 LR2021 radio service: a verification library (skeleton; the parts are described as they are
  added).  Theories: \<open>Prelude\<close> (machine types, byte encodings, buffers), \<open>Burst\<close>
  (service/src/burst.hpp), \<open>Stats\<close> (service/src/stats.hpp), \<open>WorkerTypes\<close> (data types of
  service/src/radio_worker.hpp).
\<close>

end
